(* ===== verification/Prelude.thy ===== *)
theory Prelude
  imports Main "HOL-Library.Word" "HOL-Library.Multiset" "HOL-Library.Product_Lexorder" "HOL-Library.List_Lexorder"
begin

text \<open>
  Shared vocabulary of the development: the machine integers, bytes and strings the Rust
  sources use, the \<open>Result\<close> type with its \<open>?\<close> operator, big-endian byte conversions,
  UTF-8 validation, and the generic lemmas the component theories lean on.

  A Rust \<open>String\<close> or \<open>&str\<close> is the Isabelle \<^typ>\<open>string\<close> of its UTF-8 bytes: one
  \<^typ>\<open>char\<close> per byte, so \<^const>\<open>length\<close> is \<open>str::len\<close> and list positions are byte
  offsets. A \<open>Vec<u8>\<close> is a list of 8-bit words.
\<close>

section \<open>Collections of rewrite rules\<close>

named_theorems res_simps \<open>rewriting of the Result combinators\<close>
named_theorems eval_simps \<open>evaluation of the operations on concrete inputs\<close>

named_theorems byte_simps \<open>rewriting of byte and string conversions\<close>

section \<open>Machine types\<close>

type_synonym byte = "8 word"
type_synonym u16 = "16 word"
type_synonym u32 = "32 word"
type_synonym u64 = "64 word"
type_synonym i64 = "64 word"
type_synonym bytes = "byte list"

text \<open>The target is a 64-bit host: \<open>usize\<close> values are naturals below this bound.\<close>

definition usize_bound :: nat where
  "usize_bound = 2 ^ 64"

definition usize_checked_add :: "nat \<Rightarrow> nat \<Rightarrow> nat option" where
  "usize_checked_add a b = (if a + b < usize_bound then Some (a + b) else None)"

definition usize_saturating_add :: "nat \<Rightarrow> nat \<Rightarrow> nat" where
  "usize_saturating_add a b = min (a + b) (usize_bound - 1)"

text \<open>\<open>x -= 1\<close> in the release profile, where \<open>usize\<close> wraps.\<close>

definition wrapping_pred :: "nat \<Rightarrow> nat" where
  "wrapping_pred x = (if x = 0 then usize_bound - 1 else x - 1)"

lemma wrapping_pred_simps [simp]: "0 < x \<Longrightarrow> wrapping_pred x = x - 1"
  by (simp add: wrapping_pred_def)

lemma usize_checked_add_Some [simp]:
  "usize_checked_add a b = Some c \<longleftrightarrow> c = a + b \<and> a + b < usize_bound"
  by (auto simp: usize_checked_add_def)

lemma usize_checked_add_None [simp]:
  "usize_checked_add a b = None \<longleftrightarrow> usize_bound \<le> a + b"
  by (auto simp: usize_checked_add_def)

section \<open>Results\<close>

text \<open>
  \<open>Result<T, E>\<close> is the sum \<open>'e + 'a\<close>, \<^const>\<open>Inl\<close> the error. \<open>and_then m f\<close> is
  \<open>f(m?)\<close>: an error of \<open>m\<close> returns at once.
\<close>

definition and_then :: "'e + 'a \<Rightarrow> ('a \<Rightarrow> 'e + 'b) \<Rightarrow> 'e + 'b" where
  "and_then m f = (case m of Inl e \<Rightarrow> Inl e | Inr x \<Rightarrow> f x)"

definition ok_or :: "'e \<Rightarrow> 'a option \<Rightarrow> 'e + 'a" where
  "ok_or e o' = (case o' of None \<Rightarrow> Inl e | Some x \<Rightarrow> Inr x)"

fun is_ok :: "'e + 'a \<Rightarrow> bool" where
  "is_ok (Inl e) = False"
| "is_ok (Inr x) = True"

lemma and_then_cong [fundef_cong]:
  "m = m' \<Longrightarrow> (\<And>x. m' = Inr x \<Longrightarrow> f x = f' x) \<Longrightarrow> and_then m f = and_then m' f'"
  by (cases m') (auto simp: and_then_def)

lemma and_then_simps [simp]:
  "and_then (Inl e) f = Inl e" "and_then (Inr x) f = f x"
  by (simp_all add: and_then_def)

lemma and_then_Inr_iff [res_simps]:
  "and_then m f = Inr y \<longleftrightarrow> (\<exists>x. m = Inr x \<and> f x = Inr y)"
  by (cases m) auto

lemma and_then_InrE:
  "and_then m f = Inr y \<Longrightarrow> (\<And>x. m = Inr x \<Longrightarrow> f x = Inr y \<Longrightarrow> P) \<Longrightarrow> P"
  by (cases m) auto

lemma and_then_pairE:
  "and_then m (\<lambda>(a, b). f a b) = Inr y \<Longrightarrow> (\<And>a b. m = Inr (a, b) \<Longrightarrow> f a b = Inr y \<Longrightarrow> P) \<Longrightarrow> P"
  by (cases m) auto

lemma and_then_Inl_iff:
  "and_then m f = Inl e \<longleftrightarrow> m = Inl e \<or> (\<exists>x. m = Inr x \<and> f x = Inl e)"
  by (cases m) auto

lemma ok_or_simps [simp]: "ok_or e None = Inl e" "ok_or e (Some x) = Inr x"
  by (simp_all add: ok_or_def)

lemma ok_or_Inr_iff [res_simps]: "ok_or e o' = Inr x \<longleftrightarrow> o' = Some x"
  by (cases o') auto

lemma is_ok_iff: "is_ok m \<longleftrightarrow> (\<exists>x. m = Inr x)"
  by (cases m) auto

text \<open>A check that returns an error unless its condition holds, and the loops over a collection whose body
  returns early.\<close>

definition ensure :: "bool \<Rightarrow> 'e \<Rightarrow> 'e + unit" where
  "ensure b e = (if b then Inr () else Inl e)"

fun try_for_each :: "('a \<Rightarrow> 'e + unit) \<Rightarrow> 'a list \<Rightarrow> 'e + unit" where
  "try_for_each f [] = Inr ()"
| "try_for_each f (x # xs) = and_then (f x) (\<lambda>_. try_for_each f xs)"

fun try_fold :: "('a \<Rightarrow> 's \<Rightarrow> 'e + 's) \<Rightarrow> 'a list \<Rightarrow> 's \<Rightarrow> 'e + 's" where
  "try_fold f [] s = Inr s"
| "try_fold f (x # xs) s = and_then (f x s) (try_fold f xs)"

fun try_map :: "('a \<Rightarrow> 'e + 'b) \<Rightarrow> 'a list \<Rightarrow> 'e + 'b list" where
  "try_map f [] = Inr []"
| "try_map f (x # xs) = and_then (f x) (\<lambda>y. and_then (try_map f xs) (\<lambda>ys. Inr (y # ys)))"

definition map_err :: "('e \<Rightarrow> 'f) \<Rightarrow> 'e + 'a \<Rightarrow> 'f + 'a" where
  "map_err f m = (case m of Inl e \<Rightarrow> Inl (f e) | Inr x \<Rightarrow> Inr x)"

lemma ensure_Inr_iff [res_simps]: "ensure b e = Inr u \<longleftrightarrow> b"
  by (simp add: ensure_def)

lemma try_for_each_Inr_iff [res_simps]: "try_for_each f xs = Inr u \<longleftrightarrow> (\<forall>x \<in> set xs. f x = Inr ())"
  by (induction xs) (auto simp: and_then_Inr_iff)

lemma try_fold_append: "try_fold f (xs @ ys) s = and_then (try_fold f xs s) (try_fold f ys)"
proof (induction xs arbitrary: s)
  case (Cons x xs)
  then show ?case by (cases "f x s") simp_all
qed simp

lemma try_fold_invariant:
  assumes "try_fold f xs s = Inr s'" "P s" "\<And>x s s'. x \<in> set xs \<Longrightarrow> P s \<Longrightarrow> f x s = Inr s' \<Longrightarrow> P s'"
  shows "P s'"
  using assms
proof (induction xs arbitrary: s)
  case (Cons x xs)
  obtain s1 where "f x s = Inr s1" "try_fold f xs s1 = Inr s'" using Cons.prems(1) by (auto simp: and_then_Inr_iff)
  then show ?case using Cons.IH [of s1] Cons.prems(2,3) by (meson list.set_intros)
qed simp

lemma try_fold_each:
  assumes "try_fold f xs s = Inr s'" "x \<in> set xs"
  obtains s1 s2 where "f x s1 = Inr s2"
  using assms
proof (induction xs arbitrary: s)
  case (Cons y ys)
  then show ?case by (auto simp: and_then_Inr_iff)
qed simp

lemma try_map_Inr_iff [res_simps]: "try_map f xs = Inr ys \<longleftrightarrow> list_all2 (\<lambda>x y. f x = Inr y) xs ys"
proof (induction xs arbitrary: ys)
  case (Cons x xs)
  then show ?case by (cases ys) (auto simp: and_then_Inr_iff)
qed auto

lemma map_err_simps [simp]: "map_err f (Inl e) = Inl (f e)" "map_err f (Inr x) = Inr x"
  by (simp_all add: map_err_def)

lemma map_err_Inr_iff [res_simps]: "map_err f m = Inr x \<longleftrightarrow> m = Inr x"
  by (cases m) auto

section \<open>Bytes, characters and big-endian integers\<close>

definition byte_of :: "char \<Rightarrow> byte" where
  "byte_of c = of_nat (of_char c)"

definition char_of_byte :: "byte \<Rightarrow> char" where
  "char_of_byte b = char_of (unat b)"

definition as_bytes :: "string \<Rightarrow> bytes" where
  "as_bytes s = map byte_of s"

lemma unat_byte_lt [simp]: "unat (b :: byte) < 256"
proof -
  have "unat b < 2 ^ 8" using unsigned_less [of b] by simp
  then show ?thesis by simp
qed

lemma unat_of_nat_byte: "n < 256 \<Longrightarrow> unat (of_nat n :: byte) = n"
  by (simp add: unat_of_nat take_bit_eq_mod)

lemma of_char_lt_256 [simp]: "(of_char c :: nat) < 256"
  using nat_of_char_less_256 by simp

lemma unat_byte_of [simp, byte_simps]: "unat (byte_of c) = of_char c"
  by (simp add: byte_of_def unat_of_nat_byte)

lemma char_of_byte_of [simp, byte_simps]: "char_of_byte (byte_of c) = c"
  by (simp add: char_of_byte_def)

lemma byte_of_char_of_byte [simp, byte_simps]: "byte_of (char_of_byte b) = b"
proof -
  have "unat b < 256" by simp
  then show ?thesis by (simp add: byte_of_def char_of_byte_def of_char_of)
qed

lemma byte_of_inject [simp]: "byte_of c = byte_of d \<longleftrightarrow> c = d"
  by (metis char_of_byte_of)

lemma length_as_bytes [simp]: "length (as_bytes s) = length s"
  by (simp add: as_bytes_def)

lemma map_char_of_as_bytes [simp]: "map char_of_byte (as_bytes s) = s"
  by (simp add: as_bytes_def o_def)

lemma as_bytes_map_char_of [simp]: "as_bytes (map char_of_byte bs) = bs"
  by (simp add: as_bytes_def o_def)

lemma as_bytes_inject [simp]: "as_bytes s = as_bytes t \<longleftrightarrow> s = t"
  by (metis map_char_of_as_bytes)

text \<open>\<open>to_be_bytes\<close> of a \<open>k\<close>-byte integer and \<open>from_be_bytes\<close>.\<close>

fun be_bytes :: "nat \<Rightarrow> nat \<Rightarrow> bytes" where
  "be_bytes 0 n = []"
| "be_bytes (Suc k) n = be_bytes k (n div 256) @ [of_nat (n mod 256)]"

lemma be_bytes_numeral [eval_simps]:
  "be_bytes (numeral k) n = be_bytes (pred_numeral k) (n div 256) @ [of_nat (n mod 256)]"
  by (simp only: numeral_eq_Suc [of k] be_bytes.simps)

fun be_nat_acc :: "nat \<Rightarrow> bytes \<Rightarrow> nat" where
  "be_nat_acc acc [] = acc"
| "be_nat_acc acc (b # bs) = be_nat_acc (acc * 256 + unat b) bs"

definition be_nat :: "bytes \<Rightarrow> nat" where
  "be_nat bs = be_nat_acc 0 bs"

lemma length_be_bytes [simp]: "length (be_bytes k n) = k"
  by (induction k arbitrary: n) auto

lemma be_nat_acc_append: "be_nat_acc a (xs @ ys) = be_nat_acc (be_nat_acc a xs) ys"
  by (induction xs arbitrary: a) auto

lemma be_nat_snoc: "be_nat (bs @ [b]) = be_nat bs * 256 + unat b"
  by (simp add: be_nat_def be_nat_acc_append)

lemma be_nat_be_bytes: "be_nat (be_bytes k n) = n mod 256 ^ k"
proof (induction k arbitrary: n)
  case 0
  then show ?case by (simp add: be_nat_def)
next
  case (Suc k)
  have "unat (of_nat (n mod 256) :: byte) = n mod 256"
    by (rule unat_of_nat_byte) simp
  then have "be_nat (be_bytes (Suc k) n) = (n div 256) mod 256 ^ k * 256 + n mod 256"
    by (simp add: be_nat_snoc Suc.IH)
  also have "\<dots> = n mod (256 * 256 ^ k)"
    by (metis mod_mult2_eq mult.commute)
  finally show ?case by simp
qed

lemma be_nat_be_bytes_id [simp]: "n < 256 ^ k \<Longrightarrow> be_nat (be_bytes k n) = n"
  by (simp add: be_nat_be_bytes)

lemma digit_bound: "x < p \<Longrightarrow> y < 256 \<Longrightarrow> x * 256 + y < 256 * p" for x y p :: nat
  by arith

lemma be_nat_bound: "be_nat bs < 256 ^ length bs"
proof (induction bs rule: rev_induct)
  case Nil
  then show ?case by (simp add: be_nat_def)
next
  case (snoc b bs)
  have "be_nat bs * 256 + unat b < 256 * 256 ^ length bs"
    by (rule digit_bound [OF snoc.IH unat_byte_lt])
  then show ?case by (simp add: be_nat_snoc)
qed

lemma be_bytes_inject:
  "m < 256 ^ k \<Longrightarrow> n < 256 ^ k \<Longrightarrow> be_bytes k m = be_bytes k n \<longleftrightarrow> m = n"
  by (metis be_nat_be_bytes_id)

section \<open>UTF-8\<close>

text \<open>
  \<open>std::str::from_utf8\<close> accepts exactly the well-formed sequences of the Unicode
  standard (its table 3-7): no overlong forms, no surrogates, nothing past U+10FFFF.
\<close>

definition is_cont :: "byte \<Rightarrow> bool" where
  "is_cont b \<longleftrightarrow> 0x80 \<le> b \<and> b \<le> 0xBF"

fun utf8_valid :: "bytes \<Rightarrow> bool" where
  "utf8_valid [] = True"
| "utf8_valid (a # bs) =
     (if a < 0x80 then utf8_valid bs
      else case bs of
        [] \<Rightarrow> False
      | b # cs \<Rightarrow>
        (if 0xC2 \<le> a \<and> a \<le> 0xDF then is_cont b \<and> utf8_valid cs
         else case cs of
           [] \<Rightarrow> False
         | c # ds \<Rightarrow>
           (if 0xE0 \<le> a \<and> a \<le> 0xEF
            then is_cont b \<and> (a = 0xE0 \<longrightarrow> 0xA0 \<le> b) \<and> (a = 0xED \<longrightarrow> b \<le> 0x9F)
              \<and> is_cont c \<and> utf8_valid ds
            else case ds of
              [] \<Rightarrow> False
            | d # es \<Rightarrow>
              0xF0 \<le> a \<and> a \<le> 0xF4 \<and> is_cont b \<and> (a = 0xF0 \<longrightarrow> 0x90 \<le> b)
              \<and> (a = 0xF4 \<longrightarrow> b \<le> 0x8F) \<and> is_cont c \<and> is_cont d \<and> utf8_valid es)))"

text \<open>A list of bytes that is the representation of some Rust string.\<close>

definition wf_str :: "string \<Rightarrow> bool" where
  "wf_str s \<longleftrightarrow> utf8_valid (as_bytes s)"

definition from_utf8 :: "bytes \<Rightarrow> string option" where
  "from_utf8 bs = (if utf8_valid bs then Some (map char_of_byte bs) else None)"

lemma from_utf8_as_bytes [simp]: "wf_str s \<Longrightarrow> from_utf8 (as_bytes s) = Some s"
  by (simp add: from_utf8_def wf_str_def)

lemma from_utf8_Some_iff: "from_utf8 bs = Some s \<longleftrightarrow> wf_str s \<and> bs = as_bytes s"
  by (auto simp: from_utf8_def wf_str_def)

section \<open>Lists\<close>

lemma size_list_sort_key [simp]: "size_list f (sort_key g xs) = size_list f xs"
  by (metis mset_map mset_sort size_list_conv_sum_list size_mset sum_mset_sum_list)

lemma sum_list_sort_key: "sum_list (map f (sort_key g xs)) = sum_list (map f xs)"
  for f :: "'a \<Rightarrow> 'b::comm_monoid_add"
  by (metis mset_map mset_sort sum_mset_sum_list)

section \<open>Decimal numbers\<close>

text \<open>The decimal rendering of an unsigned integer and \<open>str::parse\<close> for digit strings.\<close>

abbreviation char_code :: "char \<Rightarrow> nat" where
  "char_code c \<equiv> of_char c"

definition is_digit :: "char \<Rightarrow> bool" where
  "is_digit c \<longleftrightarrow> 48 \<le> char_code c \<and> char_code c \<le> 57"

definition digit_char :: "nat \<Rightarrow> char" where
  "digit_char d = char_of (48 + d)"

definition digit_val :: "char \<Rightarrow> nat" where
  "digit_val c = char_code c - 48"

fun show_nat :: "nat \<Rightarrow> string" where
  "show_nat n = (if n < 10 then [digit_char n] else show_nat (n div 10) @ [digit_char (n mod 10)])"

declare show_nat.simps [simp del]

definition digits_val :: "string \<Rightarrow> nat" where
  "digits_val s = foldl (\<lambda>a c. a * 10 + digit_val c) 0 s"

definition parse_u32 :: "string \<Rightarrow> u32 option" where
  "parse_u32 s = (if s \<noteq> [] \<and> list_all is_digit s \<and> digits_val s < 2 ^ 32
     then Some (of_nat (digits_val s)) else None)"

lemma digit_char: "d < 10 \<Longrightarrow> is_digit (digit_char d) \<and> digit_val (digit_char d) = d"
  by (auto simp: is_digit_def digit_char_def digit_val_def)

lemma show_nat_digits: "show_nat n \<noteq> [] \<and> list_all is_digit (show_nat n) \<and> digits_val (show_nat n) = n"
proof (induction n rule: show_nat.induct)
  case (1 n)
  show ?case
  proof (cases "n < 10")
    case True
    then show ?thesis by (simp add: show_nat.simps digits_val_def digit_char)
  next
    case False
    then have "show_nat n = show_nat (n div 10) @ [digit_char (n mod 10)]"
      by (subst show_nat.simps) simp
    then show ?thesis using 1 False digit_char [of "n mod 10"] by (simp add: digits_val_def)
  qed
qed

lemma parse_u32_show: "parse_u32 (show_nat (unat v)) = Some v"
proof -
  have "unat v < 2 ^ 32" using unsigned_less [of v] by simp
  then show ?thesis using show_nat_digits [of "unat v"] by (simp add: parse_u32_def)
qed

text \<open>For evaluation, the value of the digits is computed with binary integers.\<close>

lemma int_digits_val: "int (digits_val s) = foldl (\<lambda>a c. a * 10 + int (digit_val c)) 0 s"
proof -
  have "int (foldl (\<lambda>a c. a * 10 + digit_val c) k s) =
      foldl (\<lambda>a c. a * 10 + int (digit_val c)) (int k) s" for k
    by (induction s arbitrary: k) (simp_all add: algebra_simps)
  from this [of 0] show ?thesis by (simp add: digits_val_def)
qed

lemma parse_u32_code [code]:
  "parse_u32 s =
     (let v = foldl (\<lambda>a c. a * 10 + int (digit_val c)) 0 s in
      if s \<noteq> [] \<and> list_all is_digit s \<and> v < 2 ^ 32 then Some (of_int v) else None)"
proof -
  have "digits_val s < 2 ^ 32 \<longleftrightarrow> int (digits_val s) < 2 ^ 32" by simp
  moreover have "(of_nat (digits_val s) :: u32) = of_int (int (digits_val s))" by simp
  ultimately show ?thesis unfolding parse_u32_def int_digits_val [symmetric] Let_def by simp
qed

end
