(* ===== verification/Cbor.thy ===== *)
theory Cbor
  imports Prelude
begin

text \<open>
  The deterministic CBOR codec of \<open>crates/ostadix-api/src/canonical_cbor.rs\<close>: the
  encoder over JSON-compatible values, the length computation that never materialises the
  bytes, the decoder with and without limits, and the signing preimage.

  The JSON value type is \<open>serde_json::Value\<close>; its map keeps insertion order (the crate is
  built with the \<open>preserve_order\<close> feature), so an object is an association list. The number
  type of that package is not part of the sources: it is a type parameter \<open>'n\<close>, and the
  functions of it that the codec calls are the fields of a record passed to the codec.
\<close>

unbundle bit_operations_syntax

section \<open>Values\<close>

datatype 'n json =
    Null
  | Bool bool
  | Number 'n
  | String string
  | Array "'n json list"
  | Object "(string \<times> 'n json) list"

text \<open>An \<open>f64\<close> is its bit pattern, so \<open>to_bits\<close> and \<open>from_bits\<close> are the identity.\<close>

type_synonym f64 = u64

record 'n number_api =
  as_u64 :: "'n \<Rightarrow> u64 option"
  as_i64 :: "'n \<Rightarrow> i64 option"
  as_f64 :: "'n \<Rightarrow> f64 option"
  from_u64 :: "u64 \<Rightarrow> 'n"
  from_i64 :: "i64 \<Rightarrow> 'n"
  from_f64 :: "f64 \<Rightarrow> 'n option"

text \<open>
  What \<open>serde_json::Number\<close> documents: it holds a \<open>u64\<close>, a negative \<open>i64\<close> or a finite
  \<open>f64\<close>; each accessor answers exactly when the number is of that kind (an \<open>f64\<close> can be
  read off every number), and each constructor builds the number its accessor reads back.
\<close>

definition number_laws :: "'n number_api \<Rightarrow> bool" where
  "number_laws N \<longleftrightarrow>
     (\<forall>n v. as_u64 N n = Some v \<longrightarrow> from_u64 N v = n) \<and>
     (\<forall>n v. as_u64 N n = None \<longrightarrow> as_i64 N n = Some v \<longrightarrow> sint v < 0 \<and> from_i64 N v = n) \<and>
     (\<forall>n. as_u64 N n = None \<longrightarrow> as_i64 N n = None \<longrightarrow>
        (\<exists>f. as_f64 N n = Some f \<and> from_f64 N f = Some n))"

datatype cbor_error =
    UnsupportedNumber
  | LengthOverflow
  | TrailingBytes nat
  | NegativeOutOfRange
  | InvalidUtf8
  | MapKeyNotText
  | UnsupportedMajor byte
  | DepthExceeded nat nat
  | ItemCounterOverflow
  | ItemsExceeded nat
  | DeclaredTooLong nat nat
  | ItemBudgetExceeded nat nat
  | NonFinite
  | UnsupportedSimple byte
  | IndefiniteLength
  | InvalidLengthDiscriminator byte
  | UnexpectedEnd
  | OffsetOverflow
  | PayloadTooLarge nat nat
  | PreimageTooLarge
  | LowerFailed
  | LiftFailed

section \<open>Encoder\<close>

text \<open>Functions that push onto \<open>out\<close> return the bytes they append.\<close>

definition encode_type_len :: "byte \<Rightarrow> u64 \<Rightarrow> bytes" where
  "encode_type_len major len =
     (let m = push_bit 5 major; n = unat len in
      if n \<le> 23 then [m OR of_nat n]
      else if n \<le> 0xff then [m OR 24, of_nat n]
      else if n \<le> 0xffff then (m OR 25) # be_bytes 2 n
      else if n \<le> 0xffffffff then (m OR 26) # be_bytes 4 n
      else (m OR 27) # be_bytes 8 n)"

definition encode_text :: "string \<Rightarrow> bytes" where
  "encode_text text = encode_type_len 3 (of_nat (length text)) @ as_bytes text"

text \<open>\<open>(-1_i128 - value as i128) as u64\<close>\<close>

definition neg_magnitude :: "i64 \<Rightarrow> u64" where
  "neg_magnitude v = of_int (- 1 - sint v)"

definition encode_number :: "'n number_api \<Rightarrow> 'n \<Rightarrow> cbor_error + bytes" where
  "encode_number N n =
     (case as_u64 N n of
        Some v \<Rightarrow> Inr (encode_type_len 0 v)
      | None \<Rightarrow>
        (case as_i64 N n of
           Some v \<Rightarrow>
             (if sint v \<ge> 0 then Inr (encode_type_len 0 v)
              else Inr (encode_type_len 1 (neg_magnitude v)))
         | None \<Rightarrow>
           (case as_f64 N n of
              Some f \<Rightarrow> Inr (0xfb # be_bytes 8 (unat f))
            | None \<Rightarrow> Inl UnsupportedNumber)))"

text \<open>The comparison of the entries: by length of the encoded key, then by its bytes.\<close>

definition entry_key :: "string \<times> 'v \<Rightarrow> nat \<times> bytes" where
  "entry_key e = (length (encode_text (fst e)), encode_text (fst e))"

definition sort_entries :: "(string \<times> 'v) list \<Rightarrow> (string \<times> 'v) list" where
  "sort_entries m = sort_key entry_key m"

lemma size_sort_entries [simp]: "size_list f (sort_entries m) = size_list f m"
  by (simp add: sort_entries_def)

function encode_value :: "'n number_api \<Rightarrow> 'n json \<Rightarrow> cbor_error + bytes"
  and encode_items :: "'n number_api \<Rightarrow> 'n json list \<Rightarrow> cbor_error + bytes"
  and encode_entries :: "'n number_api \<Rightarrow> (string \<times> 'n json) list \<Rightarrow> cbor_error + bytes" where
  "encode_value N Null = Inr [0xf6]"
| "encode_value N (Bool b) = Inr [if b then 0xf5 else 0xf4]"
| "encode_value N (Number n) = encode_number N n"
| "encode_value N (String s) = Inr (encode_text s)"
| "encode_value N (Array vs) =
     and_then (encode_items N vs) (\<lambda>body.
       Inr (encode_type_len 4 (of_nat (length vs)) @ body))"
| "encode_value N (Object m) =
     and_then (encode_entries N (sort_entries m)) (\<lambda>body.
       Inr (encode_type_len 5 (of_nat (length m)) @ body))"
| "encode_items N [] = Inr []"
| "encode_items N (v # vs) =
     and_then (encode_value N v) (\<lambda>x. and_then (encode_items N vs) (\<lambda>xs. Inr (x @ xs)))"
| "encode_entries N [] = Inr []"
| "encode_entries N ((k, v) # es) =
     and_then (encode_value N v) (\<lambda>x.
       and_then (encode_entries N es) (\<lambda>xs. Inr (encode_text k @ x @ xs)))"
  by pat_completeness auto
termination
  by (relation "measure (\<lambda>x. case x of
        Inl (N, v) \<Rightarrow> size v
      | Inr (Inl (N, vs)) \<Rightarrow> size_list size vs
      | Inr (Inr (N, es)) \<Rightarrow> size_list (\<lambda>e. Suc (size (snd e))) es)")
    (auto simp: size_prod_simp)

section \<open>Encoded length\<close>

definition encoded_type_len_len :: "u64 \<Rightarrow> nat" where
  "encoded_type_len_len len =
     (let n = unat len in
      if n \<le> 23 then 1
      else if n \<le> 0xff then 2
      else if n \<le> 0xffff then 3
      else if n \<le> 0xffffffff then 5
      else 9)"

definition checked_encoded_len_add :: "nat \<Rightarrow> nat \<Rightarrow> cbor_error + nat" where
  "checked_encoded_len_add left right = ok_or LengthOverflow (usize_checked_add left right)"

definition encoded_text_len :: "string \<Rightarrow> cbor_error + nat" where
  "encoded_text_len text =
     checked_encoded_len_add (encoded_type_len_len (of_nat (length text))) (length text)"

definition encoded_number_len :: "'n number_api \<Rightarrow> 'n \<Rightarrow> cbor_error + nat" where
  "encoded_number_len N n =
     (case as_u64 N n of
        Some v \<Rightarrow> Inr (encoded_type_len_len v)
      | None \<Rightarrow>
        (case as_i64 N n of
           Some v \<Rightarrow>
             Inr (encoded_type_len_len (if sint v \<ge> 0 then v else neg_magnitude v))
         | None \<Rightarrow>
           (case as_f64 N n of
              Some f \<Rightarrow> Inr 9
            | None \<Rightarrow> Inl UnsupportedNumber)))"

fun encoded_value_len :: "'n number_api \<Rightarrow> 'n json \<Rightarrow> cbor_error + nat"
  and encoded_items_len :: "'n number_api \<Rightarrow> nat \<Rightarrow> 'n json list \<Rightarrow> cbor_error + nat"
  and encoded_entries_len ::
    "'n number_api \<Rightarrow> nat \<Rightarrow> (string \<times> 'n json) list \<Rightarrow> cbor_error + nat" where
  "encoded_value_len N Null = Inr 1"
| "encoded_value_len N (Bool b) = Inr 1"
| "encoded_value_len N (Number n) = encoded_number_len N n"
| "encoded_value_len N (String s) = encoded_text_len s"
| "encoded_value_len N (Array vs) =
     encoded_items_len N (encoded_type_len_len (of_nat (length vs))) vs"
| "encoded_value_len N (Object m) =
     encoded_entries_len N (encoded_type_len_len (of_nat (length m))) m"
| "encoded_items_len N acc [] = Inr acc"
| "encoded_items_len N acc (v # vs) =
     and_then (encoded_value_len N v) (\<lambda>n.
     and_then (checked_encoded_len_add acc n) (\<lambda>acc'.
       encoded_items_len N acc' vs))"
| "encoded_entries_len N acc [] = Inr acc"
| "encoded_entries_len N acc ((k, v) # es) =
     and_then (encoded_text_len k) (\<lambda>n.
     and_then (checked_encoded_len_add acc n) (\<lambda>acc'.
     and_then (encoded_value_len N v) (\<lambda>n'.
     and_then (checked_encoded_len_add acc' n') (\<lambda>acc''.
       encoded_entries_len N acc'' es))))"

section \<open>Decoder\<close>

record decode_limits =
  max_bytes :: nat
  max_items :: nat
  max_depth :: nat

record decoder =
  payload :: bytes
  offset :: nat
  limits :: "decode_limits option"
  decoded_items :: nat

definition decoder_new :: "bytes \<Rightarrow> decoder" where
  "decoder_new p = \<lparr>payload = p, offset = 0, limits = None, decoded_items = 0\<rparr>"

definition decoder_new_bounded :: "bytes \<Rightarrow> decode_limits \<Rightarrow> decoder" where
  "decoder_new_bounded p l = \<lparr>payload = p, offset = 0, limits = Some l, decoded_items = 0\<rparr>"

definition finish :: "decoder \<Rightarrow> cbor_error + unit" where
  "finish d = (if offset d = length (payload d) then Inr ()
     else Inl (TrailingBytes (length (payload d) - offset d)))"

definition read_u8 :: "decoder \<Rightarrow> cbor_error + (byte \<times> decoder)" where
  "read_u8 d = (if offset d < length (payload d)
     then Inr (payload d ! offset d, d\<lparr>offset := offset d + 1\<rparr>)
     else Inl UnexpectedEnd)"

definition read_bytes :: "nat \<Rightarrow> decoder \<Rightarrow> cbor_error + (bytes \<times> decoder)" where
  "read_bytes n d =
     (case usize_checked_add (offset d) n of
        None \<Rightarrow> Inl OffsetOverflow
      | Some e \<Rightarrow>
          if e > length (payload d) then Inl UnexpectedEnd
          else Inr (take n (drop (offset d) (payload d)), d\<lparr>offset := e\<rparr>))"

definition read_len :: "byte \<Rightarrow> decoder \<Rightarrow> cbor_error + (u64 \<times> decoder)" where
  "read_len additional d =
     (if additional \<le> 23 then Inr (ucast additional, d)
      else if additional = 24 then
        and_then (read_u8 d) (\<lambda>(b, d'). Inr (ucast b, d'))
      else if additional = 25 then
        and_then (read_bytes 2 d) (\<lambda>(bs, d'). Inr (of_nat (be_nat bs), d'))
      else if additional = 26 then
        and_then (read_bytes 4 d) (\<lambda>(bs, d'). Inr (of_nat (be_nat bs), d'))
      else if additional = 27 then
        and_then (read_bytes 8 d) (\<lambda>(bs, d'). Inr (of_nat (be_nat bs), d'))
      else if additional = 31 then Inl IndefiniteLength
      else Inl (InvalidLengthDiscriminator additional))"

definition note_item :: "nat \<Rightarrow> decoder \<Rightarrow> cbor_error + decoder" where
  "note_item depth d =
     (case limits d of
        None \<Rightarrow> Inr d
      | Some l \<Rightarrow>
          if depth > max_depth l then Inl (DepthExceeded depth (max_depth l))
          else and_then (ok_or ItemCounterOverflow (usize_checked_add (decoded_items d) 1)) (\<lambda>n.
            if n > max_items l then Inl (ItemsExceeded (max_items l))
            else Inr (d\<lparr>decoded_items := n\<rparr>)))"

definition reserve_embedded_items :: "nat \<Rightarrow> decoder \<Rightarrow> cbor_error + decoder" where
  "reserve_embedded_items n_items d =
     (case limits d of
        None \<Rightarrow> Inr d
      | Some l \<Rightarrow>
          and_then (ok_or ItemCounterOverflow (usize_checked_add (decoded_items d) n_items)) (\<lambda>n.
            if n > max_items l then Inl (ItemsExceeded (max_items l))
            else Inr (d\<lparr>decoded_items := n\<rparr>)))"

definition read_sized_len :: "byte \<Rightarrow> nat \<Rightarrow> decoder \<Rightarrow> cbor_error + (nat \<times> decoder)" where
  "read_sized_len additional minimum_bytes_per_item d =
     and_then (read_len additional d) (\<lambda>(raw, d').
       let len = unat raw;
           remaining = length (payload d') - offset d';
           maximum_from_input = remaining div minimum_bytes_per_item in
       if len > maximum_from_input then Inl (DeclaredTooLong len maximum_from_input)
       else case limits d' of
         None \<Rightarrow> Inr (len, d')
       | Some l \<Rightarrow>
           let remaining_items = max_items l - decoded_items d' in
           if len > remaining_items then Inl (ItemBudgetExceeded len remaining_items)
           else Inr (len, d'))"

text \<open>\<open>f64::is_finite\<close>: the exponent field is not all ones.\<close>

definition f64_is_finite :: "f64 \<Rightarrow> bool" where
  "f64_is_finite f \<longleftrightarrow> (unat f div 2 ^ 52) mod 2 ^ 11 \<noteq> 2047"

text \<open>
  The conversion \<open>f32 as f64\<close> on bit patterns. It is exact: a normal number keeps its
  fraction and rebases its exponent, a subnormal \<open>m * 2^-149\<close> is normalised around the
  highest bit of \<open>m\<close>, and an infinity or NaN keeps an all-ones exponent.
\<close>

fun highest_bit :: "nat \<Rightarrow> nat" where
  "highest_bit n = (if n \<le> 1 then 0 else Suc (highest_bit (n div 2)))"

declare highest_bit.simps [simp del]

definition f32_to_f64 :: "u32 \<Rightarrow> f64" where
  "f32_to_f64 w =
     (let n = unat w; s = n div 2 ^ 31; e = (n div 2 ^ 23) mod 2 ^ 8; m = n mod 2 ^ 23;
          pack = (\<lambda>e' m'. of_nat (s * 2 ^ 63 + e' * 2 ^ 52 + m'))
      in if e = 255 then pack 2047 (m * 2 ^ 29)
         else if e = 0 then
           (if m = 0 then pack 0 0
            else let k = highest_bit m in pack (k + 874) ((m - 2 ^ k) * 2 ^ (52 - k)))
         else pack (e + 896) (m * 2 ^ 29))"

definition number_from_f64 :: "'n number_api \<Rightarrow> f64 \<Rightarrow> cbor_error + 'n json" where
  "number_from_f64 N f = (case from_f64 N f of None \<Rightarrow> Inl NonFinite | Some n \<Rightarrow> Inr (Number n))"

definition decode_simple ::
  "'n number_api \<Rightarrow> byte \<Rightarrow> decoder \<Rightarrow> cbor_error + ('n json \<times> decoder)" where
  "decode_simple N additional d =
     (if additional = 20 then Inr (Bool False, d)
      else if additional = 21 then Inr (Bool True, d)
      else if additional = 22 then Inr (Null, d)
      else if additional = 26 then
        and_then (read_bytes 4 d) (\<lambda>(bs, d').
        and_then (number_from_f64 N (f32_to_f64 (of_nat (be_nat bs)))) (\<lambda>v. Inr (v, d')))
      else if additional = 27 then
        and_then (read_bytes 8 d) (\<lambda>(bs, d').
        and_then (number_from_f64 N (of_nat (be_nat bs))) (\<lambda>v. Inr (v, d')))
      else Inl (UnsupportedSimple additional))"

text \<open>\<open>-1_i128 - raw as i128\<close> converted to \<open>i64\<close>.\<close>

definition negative_value :: "u64 \<Rightarrow> cbor_error + i64" where
  "negative_value raw =
     (let v = - 1 - uint raw in
      if - (2 ^ 63) \<le> v then Inr (of_int v) else Inl NegativeOutOfRange)"

text \<open>\<open>Map::insert\<close> of an insertion-ordered map: an existing key keeps its place.\<close>

fun map_insert :: "string \<Rightarrow> 'v \<Rightarrow> (string \<times> 'v) list \<Rightarrow> (string \<times> 'v) list" where
  "map_insert k v [] = [(k, v)]"
| "map_insert k v ((k', v') # es) =
     (if k' = k then (k, v) # es else (k', v') # map_insert k v es)"

text \<open>The bytes still to be read; every successful read keeps or lowers it.\<close>

definition unread :: "decoder \<Rightarrow> nat" where
  "unread d = length (payload d) - offset d"

lemma read_u8_unread: "read_u8 d = Inr (b, d') \<Longrightarrow> unread d' < unread d"
  by (auto simp: read_u8_def unread_def split: if_splits)

lemma read_bytes_unread: "read_bytes n d = Inr (bs, d') \<Longrightarrow> unread d' \<le> unread d"
  by (auto simp: read_bytes_def unread_def split: if_splits option.splits)

lemma read_len_unread: "read_len a d = Inr (n, d') \<Longrightarrow> unread d' \<le> unread d"
  by (auto simp: read_len_def res_simps split: if_splits
      dest!: read_u8_unread read_bytes_unread)

lemma read_sized_len_unread: "read_sized_len a k d = Inr (n, d') \<Longrightarrow> unread d' \<le> unread d"
  by (auto simp: read_sized_len_def Let_def res_simps split: if_splits option.splits
      dest!: read_len_unread)

lemma note_item_unread: "note_item depth d = Inr d' \<Longrightarrow> unread d' = unread d"
  by (auto simp: note_item_def unread_def res_simps split: if_splits option.splits)

lemma reserve_embedded_items_unread: "reserve_embedded_items n d = Inr d' \<Longrightarrow> unread d' = unread d"
  by (auto simp: reserve_embedded_items_def unread_def res_simps split: if_splits option.splits)

lemma decode_simple_unread: "decode_simple N a d = Inr (v, d') \<Longrightarrow> unread d' \<le> unread d"
  by (auto simp: decode_simple_def res_simps split: if_splits dest!: read_bytes_unread)

lemmas unread_dests = read_u8_unread read_bytes_unread read_len_unread read_sized_len_unread
  note_item_unread reserve_embedded_items_unread decode_simple_unread

text \<open>The arms of the match on the major type that do not recurse.\<close>

definition decode_leaf ::
  "'n number_api \<Rightarrow> byte \<Rightarrow> byte \<Rightarrow> decoder \<Rightarrow> cbor_error + ('n json \<times> decoder)" where
  "decode_leaf N major additional d =
     (if major = 0 then
        and_then (read_len additional d) (\<lambda>(n, d1). Inr (Number (from_u64 N n), d1))
      else if major = 1 then
        and_then (read_len additional d) (\<lambda>(raw, d1).
        and_then (negative_value raw) (\<lambda>v. Inr (Number (from_i64 N v), d1)))
      else if major = 2 then
        and_then (read_sized_len additional 1 d) (\<lambda>(len, d1).
        and_then (reserve_embedded_items len d1) (\<lambda>d2.
        and_then (read_bytes len d2) (\<lambda>(bs, d3).
          Inr (Array (map (\<lambda>b. Number (from_u64 N (ucast b))) bs), d3))))
      else if major = 3 then
        and_then (read_sized_len additional 1 d) (\<lambda>(len, d1).
        and_then (read_bytes len d1) (\<lambda>(bs, d2).
        and_then (ok_or InvalidUtf8 (from_utf8 bs)) (\<lambda>text. Inr (String text, d2))))
      else if major = 7 then decode_simple N additional d
      else Inl (UnsupportedMajor major))"

lemma decode_leaf_unread: "decode_leaf N m a d = Inr (v, d') \<Longrightarrow> unread d' \<le> unread d"
  by (auto simp: decode_leaf_def res_simps split: if_splits dest!: unread_dests)

fun map_key :: "'n json \<Rightarrow> cbor_error + string" where
  "map_key (String k) = Inr k"
| "map_key _ = Inl MapKeyNotText"

lemma map_key_Inr_iff [res_simps]: "map_key v = Inr k \<longleftrightarrow> v = String k"
  by (cases v) auto

text \<open>The item accounting and the initial byte, split into major type and additional bits.\<close>

definition decode_head :: "nat \<Rightarrow> decoder \<Rightarrow> cbor_error + (byte \<times> byte \<times> decoder)" where
  "decode_head depth d =
     and_then (note_item depth d) (\<lambda>d0.
     and_then (read_u8 d0) (\<lambda>(initial, d1).
       Inr (drop_bit 5 initial, initial AND 0x1f, d1)))"

lemma decode_head_unread: "decode_head depth d = Inr (m, a, d') \<Longrightarrow> unread d' < unread d"
  by (auto simp: decode_head_def res_simps dest!: unread_dests)

function (sequential) decode_value_at_depth ::
    "'n number_api \<Rightarrow> nat \<Rightarrow> decoder \<Rightarrow> cbor_error + ('n json \<times> decoder)"
  and decode_items ::
    "'n number_api \<Rightarrow> nat \<Rightarrow> nat \<Rightarrow> decoder \<Rightarrow> cbor_error + ('n json list \<times> decoder)"
  and decode_entries ::
    "'n number_api \<Rightarrow> nat \<Rightarrow> nat \<Rightarrow> (string \<times> 'n json) list \<Rightarrow> decoder \<Rightarrow>
     cbor_error + ((string \<times> 'n json) list \<times> decoder)" where
  "decode_value_at_depth N depth d =
     and_then (decode_head depth d) (\<lambda>(major, additional, d1).
       if major = 4 then
         and_then (read_sized_len additional 1 d1) (\<lambda>(len, d2).
         and_then (decode_items N (usize_saturating_add depth 1) len d2) (\<lambda>(vs, d3).
           Inr (Array vs, d3)))
       else if major = 5 then
         and_then (read_sized_len additional 2 d1) (\<lambda>(len, d2).
         and_then (decode_entries N (usize_saturating_add depth 1) len [] d2) (\<lambda>(m, d3).
           Inr (Object m, d3)))
       else decode_leaf N major additional d1)"
| "decode_items N depth 0 d = Inr ([], d)"
| "decode_items N depth (Suc n) d =
     and_then (decode_value_at_depth N depth d) (\<lambda>(v, d1).
     and_then (decode_items N depth n d1) (\<lambda>(vs, d2). Inr (v # vs, d2)))"
| "decode_entries N depth 0 m d = Inr (m, d)"
| "decode_entries N depth (Suc n) m d =
     and_then (decode_value_at_depth N depth d) (\<lambda>(key, d1).
     and_then (map_key key) (\<lambda>k.
     and_then (decode_value_at_depth N depth d1) (\<lambda>(v, d2).
       decode_entries N depth n (map_insert k v m) d2)))"
  by pat_completeness auto

text \<open>
  Termination rests on a fact about the function itself, proved on its domain first: a
  decoded value has consumed at least one byte.
\<close>

lemma decode_dom_unread:
  "decode_value_at_depth_decode_items_decode_entries_dom (Inl (N, depth, d)) \<Longrightarrow>
     (\<forall>v d'. decode_value_at_depth N depth d = Inr (v, d') \<longrightarrow> unread d' < unread d)"
  "decode_value_at_depth_decode_items_decode_entries_dom (Inr (Inl (N, depth, n, d))) \<Longrightarrow>
     (\<forall>vs d'. decode_items N depth n d = Inr (vs, d') \<longrightarrow> unread d' \<le> unread d)"
  "decode_value_at_depth_decode_items_decode_entries_dom (Inr (Inr (N, depth, n, m, d))) \<Longrightarrow>
     (\<forall>m' d'. decode_entries N depth n m d = Inr (m', d') \<longrightarrow> unread d' \<le> unread d)"
proof (induction N depth d and N depth n d and N depth n m d
    rule: decode_value_at_depth_decode_items_decode_entries.pinduct)
  case (1 N depth d)
  show ?case
  proof (intro allI impI)
    fix v d'
    assume "decode_value_at_depth N depth d = Inr (v, d')"
    with 1(1) obtain major additional d1 where
      h: "decode_head depth d = Inr (major, additional, d1)"
      and rest: "(if major = 4 then
         and_then (read_sized_len additional 1 d1) (\<lambda>(len, d2).
         and_then (decode_items N (usize_saturating_add depth 1) len d2) (\<lambda>(vs, d3).
           Inr (Array vs, d3)))
       else if major = 5 then
         and_then (read_sized_len additional 2 d1) (\<lambda>(len, d2).
         and_then (decode_entries N (usize_saturating_add depth 1) len [] d2) (\<lambda>(m, d3).
           Inr (Object m, d3)))
       else decode_leaf N major additional d1) = Inr (v, d')"
      by (auto simp: decode_value_at_depth.psimps and_then_Inr_iff split: prod.splits)
    have "unread d' \<le> unread d1"
      using rest 1(2)[OF h refl refl] 1(3)[OF h refl refl]
      by (fastforce simp: res_simps split: if_splits dest: read_sized_len_unread decode_leaf_unread)
    with decode_head_unread [OF h] show "unread d' < unread d" by simp
  qed
next
  case (2 N depth d)
  then show ?case by (auto simp: decode_items.psimps)
next
  case (3 N depth n d)
  show ?case
  proof (intro allI impI)
    fix vs d'
    assume "decode_items N depth (Suc n) d = Inr (vs, d')"
    with 3(1) show "unread d' \<le> unread d"
      using 3(2) by (fastforce simp: decode_items.psimps res_simps dest: 3(3))
  qed
next
  case (4 N depth m d)
  then show ?case by (auto simp: decode_entries.psimps)
next
  case (5 N depth n m d)
  show ?case
  proof (intro allI impI)
    fix m' d'
    assume "decode_entries N depth (Suc n) m d = Inr (m', d')"
    with 5(1) obtain k v d1 d2 where
      *: "decode_value_at_depth N depth d = Inr (String k, d1)"
         "decode_value_at_depth N depth d1 = Inr (v, d2)"
         "decode_entries N depth n (map_insert k v m) d2 = Inr (m', d')"
      by (auto simp: decode_entries.psimps res_simps )
    then show "unread d' \<le> unread d"
      using 5(2) 5(3) [OF *(1) refl] 5(4) [OF *(1) refl _ *(2) refl] by fastforce
  qed
qed

termination decode_value_at_depth
proof (relation "measures [\<lambda>x. case x of
      Inl (N, depth, d) \<Rightarrow> unread d
    | Inr (Inl (N, depth, n, d)) \<Rightarrow> unread d
    | Inr (Inr (N, depth, n, m, d)) \<Rightarrow> unread d,
    \<lambda>x. case x of
      Inl (N, depth, d) \<Rightarrow> 0
    | Inr (Inl (N, depth, n, d)) \<Rightarrow> Suc n
    | Inr (Inr (N, depth, n, m, d)) \<Rightarrow> Suc n]", goal_cases)
qed (auto dest!: decode_dom_unread decode_head_unread read_sized_len_unread)

declare decode_value_at_depth.simps [simp del]

definition decode_value :: "'n number_api \<Rightarrow> decoder \<Rightarrow> cbor_error + ('n json \<times> decoder)" where
  "decode_value N d = decode_value_at_depth N 0 d"

section \<open>Entry points\<close>

text \<open>
  \<open>serde_json::to_value\<close> and \<open>from_value\<close> are the message type's own serialisation, outside
  the sources; the entry points take them as arguments.
\<close>

definition encode :: "'n number_api \<Rightarrow> ('t \<Rightarrow> 'n json option) \<Rightarrow> 't \<Rightarrow> cbor_error + bytes" where
  "encode N to_value message =
     and_then (ok_or LowerFailed (to_value message)) (\<lambda>value. encode_value N value)"

definition encoded_len :: "'n number_api \<Rightarrow> ('t \<Rightarrow> 'n json option) \<Rightarrow> 't \<Rightarrow> cbor_error + nat" where
  "encoded_len N to_value message =
     and_then (ok_or LowerFailed (to_value message)) (\<lambda>value. encoded_value_len N value)"

definition decode :: "'n number_api \<Rightarrow> ('n json \<Rightarrow> 't option) \<Rightarrow> bytes \<Rightarrow> cbor_error + 't" where
  "decode N from_value p =
     and_then (decode_value N (decoder_new p)) (\<lambda>(value, d).
     and_then (finish d) (\<lambda>_. ok_or LiftFailed (from_value value)))"

definition decode_bounded ::
  "'n number_api \<Rightarrow> ('n json \<Rightarrow> 't option) \<Rightarrow> decode_limits \<Rightarrow> bytes \<Rightarrow> cbor_error + 't" where
  "decode_bounded N from_value l p =
     (if length p > max_bytes l then Inl (PayloadTooLarge (length p) (max_bytes l))
      else and_then (decode_value N (decoder_new_bounded p l)) (\<lambda>(value, d).
           and_then (finish d) (\<lambda>_. ok_or LiftFailed (from_value value))))"

definition signing_preimage :: "bytes \<Rightarrow> bytes \<Rightarrow> cbor_error + bytes" where
  "signing_preimage domain body =
     (if length body \<ge> 2 ^ 64 then Inl PreimageTooLarge
      else case usize_checked_add (length domain) 8 of
        None \<Rightarrow> Inl PreimageTooLarge
      | Some n \<Rightarrow>
        (case usize_checked_add n (length body) of
           None \<Rightarrow> Inl PreimageTooLarge
         | Some capacity \<Rightarrow> Inr (domain @ be_bytes 8 (length body) @ body)))"

section \<open>Heads: the type and length prefix\<close>

lemma nat_cases_below:
  "(n :: nat) < k \<Longrightarrow> (\<forall>i \<in> set [0..<k]. P i) \<Longrightarrow> P n"
  by simp

lemma head_bits_small:
  assumes "n < 32"
  shows "m \<in> {0, 1, 3, 4, 5} \<Longrightarrow> drop_bit 5 (push_bit 5 m OR of_nat n :: byte) = m"
    and "m \<in> {0, 1, 3, 4, 5} \<Longrightarrow> (push_bit 5 m OR of_nat n :: byte) AND 0x1f = of_nat n"
proof -
  have *: "\<forall>i \<in> set [0..<32].
      (\<forall>m \<in> {0, 1, 3, 4, 5 :: byte}. drop_bit 5 (push_bit 5 m OR of_nat i) = m \<and>
       (push_bit 5 m OR of_nat i) AND 0x1f = of_nat i)"
    by code_simp
  show "m \<in> {0, 1, 3, 4, 5} \<Longrightarrow> drop_bit 5 (push_bit 5 m OR of_nat n :: byte) = m"
    and "m \<in> {0, 1, 3, 4, 5} \<Longrightarrow> (push_bit 5 m OR of_nat n :: byte) AND 0x1f = of_nat n"
    using nat_cases_below [OF assms *] by blast+
qed

end
