(* ===== verification/Cbor_Correct.thy ===== *)
theory Cbor_Correct
  imports Cbor
begin

text \<open>
  Correctness of the codec of \<open>Cbor\<close>: what a decoder reads back from an encoder's output,
  which values share an encoding, the exactness of the length computation, and what the
  limits of the bounded decoder guarantee.
\<close>

section \<open>Reading from the front of the unread bytes\<close>

definition feeds :: "decoder \<Rightarrow> bytes \<Rightarrow> bool" where
  "feeds d bs \<longleftrightarrow>
     drop (offset d) (payload d) = bs \<and> offset d \<le> length (payload d) \<and>
     length (payload d) < usize_bound"

definition adv :: "nat \<Rightarrow> decoder \<Rightarrow> decoder" where
  "adv n d = d\<lparr>offset := offset d + n\<rparr>"

lemma adv_fields [simp]:
  "payload (adv n d) = payload d" "offset (adv n d) = offset d + n"
  "limits (adv n d) = limits d" "decoded_items (adv n d) = decoded_items d"
  by (simp_all add: adv_def)

lemma adv_adv [simp]: "adv n (adv m d) = adv (m + n) d"
  by (simp add: adv_def add.assoc)

lemma adv_0 [simp]: "adv 0 d = d"
  by (simp add: adv_def)

lemma feeds_length: "feeds d bs \<Longrightarrow> length (payload d) = offset d + length bs"
  by (auto simp: feeds_def)

lemma feeds_adv: "feeds d (xs @ ys) \<Longrightarrow> feeds (adv (length xs) d) ys"
proof -
  assume f: "feeds d (xs @ ys)"
  then have "drop (length xs) (drop (offset d) (payload d)) = ys"
    by (simp add: feeds_def del: drop_drop)
  then show ?thesis using f feeds_length [OF f] by (simp add: feeds_def add.commute)
qed

lemma feeds_Cons_adv: "feeds d (x # ys) \<Longrightarrow> feeds (adv 1 d) ys"
  using feeds_adv [of d "[x]" ys] by simp

lemma read_u8_feeds: "feeds d (b # rest) \<Longrightarrow> read_u8 d = Inr (b, adv 1 d)"
proof -
  assume f: "feeds d (b # rest)"
  then have "payload d ! offset d = b"
    unfolding feeds_def by (metis nth_via_drop)
  with feeds_length [OF f] show ?thesis by (simp add: read_u8_def adv_def)
qed

lemma read_bytes_feeds:
  assumes f: "feeds d (xs @ rest)" and n: "n = length xs"
  shows "read_bytes n d = Inr (xs, adv n d)"
proof -
  have "take n (drop (offset d) (payload d)) = xs" and "length (payload d) < usize_bound"
    using f n by (simp_all add: feeds_def)
  with feeds_length [OF f] n show ?thesis
    by (simp add: read_bytes_def usize_checked_add_def adv_def)
qed

lemma note_item_unlimited [simp]: "limits d = None \<Longrightarrow> note_item depth d = Inr d"
  by (simp add: note_item_def)

lemma decode_head_feeds:
  "feeds d (b # rest) \<Longrightarrow> limits d = None \<Longrightarrow>
   decode_head depth d = Inr (drop_bit 5 b, b AND 0x1f, adv 1 d)"
  by (simp add: decode_head_def read_u8_feeds)

section \<open>Type and length prefixes\<close>

definition head_major :: "byte \<Rightarrow> bool" where
  "head_major m \<longleftrightarrow> m \<in> {0, 1, 3, 4, 5}"

lemma length_encode_type_len: "length (encode_type_len m n) = encoded_type_len_len n"
  by (simp add: encode_type_len_def encoded_type_len_len_def Let_def)

lemma encode_type_len_pos: "0 < length (encode_type_len m n)"
  by (simp add: encode_type_len_def Let_def)

lemma unat_u64_lt: "unat (n :: u64) < 256 ^ 8"
proof -
  have "unat n < 2 ^ 64" using unsigned_less [of n] by simp
  then show ?thesis by simp
qed

lemma byte_le_23: "n \<le> 23 \<Longrightarrow> (of_nat n :: byte) \<le> 23"
  by (simp add: word_le_nat_alt unat_of_nat_byte)

lemma ucast_byte_u64: "n < 256 \<Longrightarrow> (ucast (of_nat n :: byte) :: u64) = of_nat n"
  by (rule word_unat_eq_iff [THEN iffD2])
    (simp add: unsigned_ucast_eq unat_of_nat_byte unat_of_nat take_bit_eq_mod)

lemma encode_type_len_of_nat:
  assumes "n < 2 ^ 64"
  shows "encode_type_len m (of_nat n) =
     (if n \<le> 23 then [push_bit 5 m OR of_nat n]
      else if n \<le> 0xff then [push_bit 5 m OR 24, of_nat n]
      else if n \<le> 0xffff then (push_bit 5 m OR 25) # be_bytes 2 n
      else if n \<le> 0xffffffff then (push_bit 5 m OR 26) # be_bytes 4 n
      else (push_bit 5 m OR 27) # be_bytes 8 n)"
proof -
  have "unat (of_nat n :: u64) = n"
    using assms by (simp add: unat_of_nat)
  then show ?thesis by (simp only: encode_type_len_def Let_def)
qed

lemma read_len_small: "n \<le> 23 \<Longrightarrow> read_len (of_nat n) d = Inr (of_nat n, d)"
  by (simp add: read_len_def byte_le_23 ucast_byte_u64)

lemma read_len_wide:
  assumes "feeds d (be_bytes k n @ rest)" and "n < 256 ^ k"
    and "(a, k) \<in> {(25, 2), (26, 4), (27, 8)}"
  shows "read_len a d = Inr (of_nat n, adv k d)"
  using assms by (auto simp: read_len_def read_bytes_feeds)

lemma encode_type_len_head:
  obtains a tl where
    "encode_type_len m len = (push_bit 5 m OR of_nat a) # tl" "a < 32"
    "\<And>d rest. feeds d (tl @ rest) \<Longrightarrow> read_len (of_nat a) d = Inr (len, adv (length tl) d)"
proof -
  obtain n where len: "len = of_nat n" and n: "n < 2 ^ 64"
    using unsigned_less [of len] by (intro that [of "unat len"]) auto
  note enc = encode_type_len_of_nat [OF n, of m]
  consider "n \<le> 23" | "23 < n" "n \<le> 0xff" | "0xff < n" "n \<le> 0xffff"
    | "0xffff < n" "n \<le> 0xffffffff" | "0xffffffff < n" by linarith
  then show ?thesis
  proof cases
    case 1
    then show ?thesis
      by (intro that [of n "[]"]) (simp_all add: len enc read_len_small)
  next
    case 2
    then show ?thesis
      by (intro that [of 24 "[of_nat n]"])
        (simp_all add: len enc read_len_def read_u8_feeds ucast_byte_u64)
  next
    case 3
    then show ?thesis
      by (intro that [of 25 "be_bytes 2 n"]) (simp_all add: len enc read_len_wide)
  next
    case 4
    then show ?thesis
      by (intro that [of 26 "be_bytes 4 n"]) (simp_all add: len enc read_len_wide)
  next
    case 5
    then show ?thesis
      using n by (intro that [of 27 "be_bytes 8 n"]) (simp_all add: len enc read_len_wide)
  qed
qed

lemma decode_head_type_len:
  assumes f: "feeds d (encode_type_len m len @ rest)" and l: "limits d = None"
    and m: "m \<in> {0, 1, 3, 4, 5}"
  shows "\<exists>a d1. decode_head depth d = Inr (m, a, d1) \<and>
    read_len a d1 = Inr (len, adv (length (encode_type_len m len)) d) \<and> limits d1 = None"
proof -
  obtain a tl where e: "encode_type_len m len = (push_bit 5 m OR of_nat a) # tl" and a: "a < 32"
    and r: "\<And>d rest. feeds d (tl @ rest) \<Longrightarrow> read_len (of_nat a) d = Inr (len, adv (length tl) d)"
    using encode_type_len_head [of m len] by blast
  from f have f': "feeds d ((push_bit 5 m OR of_nat a) # tl @ rest)"
    by (simp add: e)
  have "decode_head depth d = Inr (m, of_nat a, adv 1 d)"
    using decode_head_feeds [OF f' l, of depth] by (simp only: head_bits_small [OF a m])
  moreover have "read_len (of_nat a) (adv 1 d) = Inr (len, adv (length (encode_type_len m len)) d)"
    using r [OF feeds_Cons_adv [OF f']] by (simp add: e)
  ultimately show ?thesis using l by force
qed

lemma read_sized_len_feeds:
  assumes "read_len a d = Inr (len, d')" and "limits d' = None" and "feeds d' rest"
    and "unat len \<le> length rest div k"
  shows "read_sized_len a k d = Inr (unat len, d')"
  using assms feeds_length [of d' rest]
  by (simp add: read_sized_len_def)

lemma negative_value_neg_magnitude:
  assumes "sint v < 0"
  shows "negative_value (neg_magnitude v) = Inr v"
proof -
  have "- (2 ^ 63) \<le> sint v" using sint_greater_eq [of v] by simp
  then have "uint (neg_magnitude v) = - 1 - sint v"
    using assms unfolding neg_magnitude_def uint_word_of_int
    by (intro mod_pos_pos_trivial) auto
  then show ?thesis
    using \<open>- (2 ^ 63) \<le> sint v\<close> by (simp add: negative_value_def)
qed

section \<open>Canonical values\<close>

text \<open>
  Rust compares maps as sets of entries; the canonical form of a value lists the entries of
  every object in the order the encoder writes them.
\<close>

fun canon :: "'n json \<Rightarrow> 'n json" where
  "canon (Array vs) = Array (map canon vs)"
| "canon (Object m) = Object (sort_entries (map (\<lambda>(k, v). (k, canon v)) m))"
| "canon v = v"

fun wf_json :: "'n json \<Rightarrow> bool" where
  "wf_json (String s) = wf_str s"
| "wf_json (Array vs) = (\<forall>v \<in> set vs. wf_json v)"
| "wf_json (Object m) = (distinct (map fst m) \<and> (\<forall>(k, v) \<in> set m. wf_str k \<and> wf_json v))"
| "wf_json v = True"

lemma map_insort_key: "map g (insort_key (\<lambda>x. f (g x)) x xs) = insort_key f (g x) (map g xs)"
  by (induction xs) auto

lemma map_sort_key: "map g (sort_key (\<lambda>x. f (g x)) xs) = sort_key f (map g xs)"
  by (induction xs) (simp_all add: map_insort_key)

lemma sort_entries_map_values:
  "sort_entries (map (\<lambda>(k, v). (k, g v)) m) = map (\<lambda>(k, v). (k, g v)) (sort_entries m)"
proof -
  have "(\<lambda>x. entry_key ((\<lambda>(k, v). (k, g v)) x)) = entry_key"
    by (auto simp: entry_key_def fun_eq_iff)
  then show ?thesis
    using map_sort_key [of "\<lambda>(k, v). (k, g v)" entry_key m]
    by (simp add: sort_entries_def)
qed

lemma set_sort_entries [simp]: "set (sort_entries m) = set m"
  by (simp add: sort_entries_def)

lemma length_sort_entries [simp]: "length (sort_entries m) = length m"
  by (simp add: sort_entries_def)

lemma distinct_keys_sort_entries [simp]:
  "distinct (map fst (sort_entries m)) \<longleftrightarrow> distinct (map fst m)"
proof -
  have "mset (map fst (sort_entries m)) = mset (map fst m)"
    by (simp add: sort_entries_def)
  then show ?thesis by (metis mset_eq_imp_distinct_iff)
qed

section \<open>Sizes of encodings\<close>

lemma encode_text_pos: "0 < length (encode_text s)"
  using encode_type_len_pos [of 3] by (simp add: encode_text_def)

lemma encode_number_pos: "encode_number N n = Inr bs \<Longrightarrow> 0 < length bs"
  using encode_type_len_pos
  by (auto simp: encode_number_def split: option.splits if_splits)

lemma encoded_lengths:
  "encode_value N v = Inr bs \<Longrightarrow> 0 < length bs"
  "encode_items N vs = Inr bs \<Longrightarrow> length vs \<le> length bs"
  "encode_entries N es = Inr bs \<Longrightarrow> 2 * length es \<le> length bs"
proof (induction N v and N vs and N es arbitrary: bs and bs and bs
    rule: encode_value_encode_items_encode_entries.induct)
  case (3 N n)
  then show ?case using encode_number_pos [of N n bs] by simp
next
  case (4 N s)
  then show ?case using encode_text_pos [of s] by auto
next
  case (5 N vs)
  then show ?case using encode_type_len_pos [of 4] by (auto simp: res_simps)
next
  case (6 N m)
  then show ?case using encode_type_len_pos [of 5] by (auto simp: res_simps)
next
  case (8 N v vs)
  then obtain x xs where x: "encode_value N v = Inr x" "encode_items N vs = Inr xs" "bs = x @ xs"
    by (auto simp: res_simps)
  with "8.IH"(1) [OF x(1)] "8.IH"(2) [OF x(1,2)] show ?case by (cases x) auto
next
  case (10 N k v es)
  then obtain x xs where x: "encode_value N v = Inr x" "encode_entries N es = Inr xs"
    "bs = encode_text k @ x @ xs"
    by (auto simp: res_simps)
  with "10.IH"(1) [OF x(1)] "10.IH"(2) [OF x(1,2)] encode_text_pos [of k] show ?case
    by (cases x; cases "encode_text k") auto
qed auto

section \<open>Decoding what was encoded\<close>

lemma decode_text_feeds:
  assumes f: "feeds d (encode_text s @ rest)" and l: "limits d = None" and s: "wf_str s"
  shows "decode_value_at_depth N depth d = Inr (String s, adv (length (encode_text s)) d)"
proof -
  let ?h = "encode_type_len 3 (of_nat (length s))"
  have f1: "feeds d (?h @ as_bytes s @ rest)" using f by (simp add: encode_text_def)
  have f2: "feeds (adv (length ?h) d) (as_bytes s @ rest)" by (rule feeds_adv [OF f1])
  obtain a d1 where h: "decode_head depth d = Inr (3, a, d1)"
    and r: "read_len a d1 = Inr (of_nat (length s), adv (length ?h) d)"
    using decode_head_type_len [OF f1 l, of depth] by auto
  have "length s < 2 ^ 64"
    using f2 feeds_length [OF f2] by (simp add: feeds_def usize_bound_def)
  then have n: "unat (of_nat (length s) :: u64) = length s"
    by (simp add: unat_of_nat)
  have "read_sized_len a 1 d1 = Inr (length s, adv (length ?h) d)"
    using read_sized_len_feeds [OF r _ f2, of 1] by (simp add: l n)
  moreover have "read_bytes (length s) (adv (length ?h) d) =
      Inr (as_bytes s, adv (length s) (adv (length ?h) d))"
    by (rule read_bytes_feeds [OF f2]) simp
  ultimately show ?thesis
    by (simp add: decode_value_at_depth.simps h decode_leaf_def s encode_text_def)
qed

lemma number_lawsD:
  assumes "number_laws N"
  shows "as_u64 N n = Some v \<Longrightarrow> from_u64 N v = n"
    and "as_u64 N n = None \<Longrightarrow> as_i64 N n = Some v \<Longrightarrow> sint v < 0"
    and "as_u64 N n = None \<Longrightarrow> as_i64 N n = Some v \<Longrightarrow> from_i64 N v = n"
    and "as_u64 N n = None \<Longrightarrow> as_i64 N n = None \<Longrightarrow> as_f64 N n = Some x \<Longrightarrow> from_f64 N x = Some n"
  using assms unfolding number_laws_def by (blast, blast, blast, metis option.inject)

lemma encode_number_cases:
  assumes N: "number_laws N" and e: "encode_number N n = Inr bs"
  obtains (pos) v where "as_u64 N n = Some v" "bs = encode_type_len 0 v"
    | (neg) v where "as_u64 N n = None" "as_i64 N n = Some v" "bs = encode_type_len 1 (neg_magnitude v)"
    | (flt) x where "as_u64 N n = None" "as_i64 N n = None" "as_f64 N n = Some x"
        "bs = 0xfb # be_bytes 8 (unat x)"
proof (cases "as_u64 N n")
  case (Some v)
  with e show ?thesis by (intro pos [of v]) (simp_all add: encode_number_def)
next
  case None
  note none = this
  show ?thesis
  proof (cases "as_i64 N n")
    case (Some v)
    with none e number_lawsD(2) [OF N none Some] show ?thesis
      by (intro neg [of v]) (simp_all add: encode_number_def)
  next
    case None
    with none e show ?thesis
      by (auto simp: encode_number_def intro: flt split: option.splits)
  qed
qed

lemma decode_number_feeds:
  assumes f: "feeds d (bs @ rest)" and l: "limits d = None" and N: "number_laws N"
    and e: "encode_number N n = Inr bs"
  shows "decode_value_at_depth N depth d = Inr (Number n, adv (length bs) d)"
proof -
  from N e show ?thesis
  proof (cases rule: encode_number_cases)
    case (pos v)
    then obtain a d1 where "decode_head depth d = Inr (0, a, d1)" "read_len a d1 = Inr (v, adv (length bs) d)"
      using decode_head_type_len [of d 0 v rest depth] f l by auto
    with number_lawsD(1) [OF N pos(1)] show ?thesis
      by (simp add: decode_value_at_depth.simps decode_leaf_def)
  next
    case (neg v)
    then obtain a d1 where "decode_head depth d = Inr (1, a, d1)"
      "read_len a d1 = Inr (neg_magnitude v, adv (length bs) d)"
      using decode_head_type_len [of d 1 "neg_magnitude v" rest depth] f l by auto
    with number_lawsD(2,3) [OF N neg(1,2)] show ?thesis
      by (simp add: decode_value_at_depth.simps decode_leaf_def negative_value_neg_magnitude)
  next
    case (flt x)
    then have f': "feeds d (0xfb # be_bytes 8 (unat x) @ rest)" using f by simp
    have "read_bytes 8 (adv 1 d) = Inr (be_bytes 8 (unat x), adv 8 (adv 1 d))"
      by (rule read_bytes_feeds [OF feeds_Cons_adv [OF f']]) simp
    moreover have "be_nat (be_bytes 8 (unat x)) = unat x"
      by (rule be_nat_be_bytes_id [OF unat_u64_lt])
    moreover have "from_f64 N x = Some n" by (rule number_lawsD(4) [OF N flt(1,2,3)])
    ultimately show ?thesis
      by (simp add: decode_value_at_depth.simps decode_head_feeds [OF f' l] decode_leaf_def decode_simple_def
          number_from_f64_def flt)
  qed
qed

lemma map_insert_fresh: "k \<notin> fst ` set m \<Longrightarrow> map_insert k v m = m @ [(k, v)]"
  by (induction k v m rule: map_insert.induct) auto

lemma decode_compound_head:
  assumes f: "feeds d (encode_type_len m (of_nat n) @ body @ rest)" and l: "limits d = None"
    and m: "m \<in> {4, 5}" and n: "n \<le> (length body + length rest) div k"
  obtains a d1 where "decode_head depth d = Inr (m, a, d1)"
    "read_sized_len a k d1 = Inr (n, adv (length (encode_type_len m (of_nat n))) d)"
proof -
  let ?h = "encode_type_len m (of_nat n)"
  have f2: "feeds (adv (length ?h) d) (body @ rest)" by (rule feeds_adv [OF f])
  from m have "m \<in> {0, 1, 3, 4, 5}" by blast
  from decode_head_type_len [OF f l this, of depth] obtain a d1 where
    h: "decode_head depth d = Inr (m, a, d1)"
    and r: "read_len a d1 = Inr (of_nat n, adv (length ?h) d)" by blast
  have "n \<le> length body + length rest"
    using n by (meson div_le_dividend le_trans)
  then have "n < 2 ^ 64"
    using f2 feeds_length [OF f2] by (simp add: feeds_def usize_bound_def)
  then have u: "unat (of_nat n :: u64) = n" by (simp add: unat_of_nat)
  have "read_sized_len a k d1 = Inr (unat (of_nat n :: u64), adv (length ?h) d)"
    by (rule read_sized_len_feeds [OF r _ f2]) (simp_all add: l u n)
  with h show ?thesis by (intro that) (simp_all add: u)
qed

lemma decode_simple_feeds:
  "feeds d (b # rest) \<Longrightarrow> limits d = None \<Longrightarrow> drop_bit 5 b = 7 \<Longrightarrow>
   decode_value_at_depth N depth d = decode_simple N (b AND 0x1f) (adv 1 d)"
  by (simp add: decode_value_at_depth.simps decode_head_feeds decode_leaf_def)

lemma decode_encoded:
  "encode_value N v = Inr bs \<Longrightarrow> number_laws N \<Longrightarrow> wf_json v \<Longrightarrow> feeds d (bs @ rest) \<Longrightarrow>
     limits d = None \<Longrightarrow> decode_value_at_depth N depth d = Inr (canon v, adv (length bs) d)"
  "encode_items N vs = Inr bs \<Longrightarrow> number_laws N \<Longrightarrow> (\<forall>v \<in> set vs. wf_json v) \<Longrightarrow>
     feeds d (bs @ rest) \<Longrightarrow> limits d = None \<Longrightarrow>
     decode_items N depth (length vs) d = Inr (map canon vs, adv (length bs) d)"
  "encode_entries N es = Inr bs \<Longrightarrow> number_laws N \<Longrightarrow>
     (\<forall>(k, v) \<in> set es. wf_str k \<and> wf_json v) \<Longrightarrow> distinct (map fst (m @ es)) \<Longrightarrow>
     feeds d (bs @ rest) \<Longrightarrow> limits d = None \<Longrightarrow>
     decode_entries N depth (length es) m d =
       Inr (m @ map (\<lambda>(k, v). (k, canon v)) es, adv (length bs) d)"
proof (induction N v and N vs and N es arbitrary: bs d rest depth and bs d rest depth
    and bs d rest depth m rule: encode_value_encode_items_encode_entries.induct)
  case (1 N)
  then show ?case
    by (auto simp: decode_simple_feeds [where b = "0xf6"] decode_simple_def)
next
  case (2 N b)
  then show ?case
    by (cases b) (auto simp: decode_simple_feeds [where b = "0xf5"]
        decode_simple_feeds [where b = "0xf4"] decode_simple_def)
next
  case (3 N n)
  then show ?case by (simp add: decode_number_feeds)
next
  case (4 N s)
  then show ?case by (auto simp: decode_text_feeds)
next
  case (5 N vs)
  then obtain body where b: "encode_items N vs = Inr body"
    "bs = encode_type_len 4 (of_nat (length vs)) @ body"
    by (auto simp: res_simps)
  let ?h = "encode_type_len 4 (of_nat (length vs))"
  have f: "feeds d (?h @ body @ rest)" using 5 b by simp
  have "length vs \<le> (length body + length rest) div 1"
    using encoded_lengths(2) [OF b(1)] by simp
  then obtain a d1 where h: "decode_head depth d = Inr (4, a, d1)"
    "read_sized_len a 1 d1 = Inr (length vs, adv (length ?h) d)"
    using decode_compound_head [OF f \<open>limits d = None\<close>, where depth = depth] by blast
  have "decode_items N (usize_saturating_add depth 1) (length vs) (adv (length ?h) d) =
      Inr (map canon vs, adv (length body) (adv (length ?h) d))"
    using "5.IH" [OF b(1) _ _ feeds_adv [OF f]] 5 by simp
  with h show ?case by (simp add: decode_value_at_depth.simps b)
next
  case (6 N m)
  then obtain body where b: "encode_entries N (sort_entries m) = Inr body"
    "bs = encode_type_len 5 (of_nat (length m)) @ body"
    by (auto simp: res_simps)
  let ?h = "encode_type_len 5 (of_nat (length m))"
  have f: "feeds d (?h @ body @ rest)" using 6 b by simp
  have "length m \<le> (length body + length rest) div 2"
    using encoded_lengths(3) [OF b(1)] by simp
  then obtain a d1 where h: "decode_head depth d = Inr (5, a, d1)"
    "read_sized_len a 2 d1 = Inr (length m, adv (length ?h) d)"
    using decode_compound_head [OF f \<open>limits d = None\<close>, where depth = depth] by blast
  have "decode_entries N (usize_saturating_add depth 1) (length m) [] (adv (length ?h) d) =
      Inr (map (\<lambda>(k, v). (k, canon v)) (sort_entries m), adv (length body) (adv (length ?h) d))"
    using "6.IH" [OF b(1) _ _ _ feeds_adv [OF f], of "[]"] 6 by simp
  with h show ?case
    by (simp add: decode_value_at_depth.simps b sort_entries_map_values)
next
  case (7 N)
  then show ?case by simp
next
  case (8 N v vs)
  then obtain x xs where x: "encode_value N v = Inr x" "encode_items N vs = Inr xs" "bs = x @ xs"
    by (auto simp: res_simps)
  have f: "feeds d (x @ xs @ rest)" using 8 x by simp
  have "decode_value_at_depth N depth d = Inr (canon v, adv (length x) d)"
    using "8.IH"(1) [OF x(1) _ _ f] 8 by simp
  moreover have "decode_items N depth (length vs) (adv (length x) d) =
      Inr (map canon vs, adv (length xs) (adv (length x) d))"
    using "8.IH"(2) [OF x(1,2) _ _ feeds_adv [OF f]] 8 by simp
  ultimately show ?case by (simp add: x)
next
  case (9 N)
  then show ?case by simp
next
  case (10 N k v es)
  then obtain x xs where x: "encode_value N v = Inr x" "encode_entries N es = Inr xs"
    "bs = encode_text k @ x @ xs"
    by (auto simp: res_simps)
  let ?k = "encode_text k"
  have f: "feeds d (?k @ x @ xs @ rest)" using 10 x by simp
  note f1 = feeds_adv [OF f] and f2 = feeds_adv [OF feeds_adv [OF f]]
  have "decode_value_at_depth N depth d = Inr (String k, adv (length ?k) d)"
    using decode_text_feeds [OF f] 10 by simp
  moreover have "decode_value_at_depth N depth (adv (length ?k) d) =
      Inr (canon v, adv (length x) (adv (length ?k) d))"
    using "10.IH"(1) [OF x(1) _ _ f1] 10 by simp
  moreover have "decode_entries N depth (length es) (m @ [(k, canon v)])
      (adv (length x) (adv (length ?k) d)) =
      Inr ((m @ [(k, canon v)]) @ map (\<lambda>(k, v). (k, canon v)) es,
        adv (length xs) (adv (length x) (adv (length ?k) d)))"
    using "10.IH"(2) [OF x(1,2) _ _ _ f2, of "m @ [(k, canon v)]"] 10 by simp
  moreover have "map_insert k (canon v) m = m @ [(k, canon v)]"
    using 10 by (intro map_insert_fresh) auto
  ultimately show ?case by (simp add: x add.assoc)
qed

section \<open>Encodings and canonical forms\<close>

lemma sort_entries_idem [simp]: "sort_entries (sort_entries m) = sort_entries m"
  by (simp add: sort_entries_def sort_key_id_if_sorted)







section \<open>Equality of values\<close>







section \<open>Encoded lengths\<close>

lemma encode_entries_iff:
  "encode_entries N es = Inr bs \<longleftrightarrow>
     (\<forall>e \<in> set es. is_ok (encode_value N (snd e))) \<and>
     bs = concat (map (\<lambda>e. encode_text (fst e) @ projr (encode_value N (snd e))) es)"
proof (induction es arbitrary: bs)
  case (Cons e es)
  then show ?case by (cases e) (auto simp: res_simps is_ok_iff)
qed auto

lemma encode_entries_perm_length:
  assumes "mset es = mset es'"
  shows "(\<exists>bs. encode_entries N es = Inr bs \<and> length bs = n) \<longleftrightarrow>
    (\<exists>bs. encode_entries N es' = Inr bs \<and> length bs = n)"
proof -
  let ?f = "\<lambda>e. length (encode_text (fst e) @ projr (encode_value N (snd e)))"
  have "set es = set es'" using assms by (rule mset_eq_setD)
  moreover have "sum_list (map ?f es) = sum_list (map ?f es')"
    using arg_cong [OF assms, of "\<lambda>M. sum_mset (image_mset ?f M)"]
    by (simp only: mset_map [symmetric] sum_mset_sum_list)
  ultimately show ?thesis
    by (simp add: encode_entries_iff length_concat comp_def)
qed

lemma encoded_type_len_len_small: "encoded_type_len_len n < usize_bound"
  by (simp add: encoded_type_len_len_def Let_def usize_bound_def)

lemma checked_encoded_len_add_iff:
  "checked_encoded_len_add a b = Inr n \<longleftrightarrow> n = a + b \<and> n < usize_bound"
  by (auto simp: checked_encoded_len_add_def res_simps)

lemma encoded_text_len_iff:
  "encoded_text_len s = Inr n \<longleftrightarrow> n = length (encode_text s) \<and> n < usize_bound"
  by (simp add: encoded_text_len_def checked_encoded_len_add_iff encode_text_def
      length_encode_type_len)

lemma encoded_number_len_iff:
  "encoded_number_len N x = Inr n \<longleftrightarrow>
     (\<exists>bs. encode_number N x = Inr bs \<and> length bs = n \<and> n < usize_bound)"
  using encoded_type_len_len_small
  by (auto simp: encoded_number_len_def encode_number_def length_encode_type_len usize_bound_def
      split: option.split)

lemma encoded_items_len_iff:
  assumes "\<And>v n. v \<in> set vs \<Longrightarrow> encoded_value_len N v = Inr n \<longleftrightarrow>
     (\<exists>bs. encode_value N v = Inr bs \<and> length bs = n \<and> n < usize_bound)"
    and "acc < usize_bound"
  shows "encoded_items_len N acc vs = Inr n \<longleftrightarrow>
     (\<exists>bs. encode_items N vs = Inr bs \<and> acc + length bs = n \<and> n < usize_bound)"
  using assms
proof (induction vs arbitrary: acc n)
  case (Cons v vs)
  have IH: "acc' < usize_bound \<Longrightarrow> encoded_items_len N acc' vs = Inr n \<longleftrightarrow>
     (\<exists>bs. encode_items N vs = Inr bs \<and> acc' + length bs = n \<and> n < usize_bound)" for acc' n
    by (rule Cons.IH) (use Cons.prems(1) in auto)
  have v: "encoded_value_len N v = Inr n \<longleftrightarrow>
     (\<exists>bs. encode_value N v = Inr bs \<and> length bs = n \<and> n < usize_bound)" for n
    by (rule Cons.prems(1)) simp
  show ?case
    by (cases "encode_value N v"; cases "encode_items N vs")
      (auto simp: and_then_Inr_iff checked_encoded_len_add_iff v IH)
qed auto

lemma encoded_entries_len_iff:
  assumes "\<And>e n. e \<in> set es \<Longrightarrow> encoded_value_len N (snd e) = Inr n \<longleftrightarrow>
     (\<exists>bs. encode_value N (snd e) = Inr bs \<and> length bs = n \<and> n < usize_bound)"
    and "acc < usize_bound"
  shows "encoded_entries_len N acc es = Inr n \<longleftrightarrow>
     (\<exists>bs. encode_entries N es = Inr bs \<and> acc + length bs = n \<and> n < usize_bound)"
  using assms
proof (induction es arbitrary: acc n)
  case (Cons e es)
  obtain k v where e: "e = (k, v)" by (cases e)
  have IH: "acc' < usize_bound \<Longrightarrow> encoded_entries_len N acc' es = Inr n \<longleftrightarrow>
     (\<exists>bs. encode_entries N es = Inr bs \<and> acc' + length bs = n \<and> n < usize_bound)" for acc' n
    by (rule Cons.IH) (use Cons.prems(1) in auto)
  have v: "encoded_value_len N v = Inr n \<longleftrightarrow>
     (\<exists>bs. encode_value N v = Inr bs \<and> length bs = n \<and> n < usize_bound)" for n
    using Cons.prems(1) [of e] by (simp add: e)
  show ?case unfolding e
    by (cases "encode_value N v"; cases "encode_entries N es")
      (auto simp: and_then_Inr_iff checked_encoded_len_add_iff encoded_text_len_iff v IH)
qed auto

lemma encoded_value_len_iff:
  "encoded_value_len N v = Inr n \<longleftrightarrow>
     (\<exists>bs. encode_value N v = Inr bs \<and> length bs = n \<and> n < usize_bound)"
proof (induction v arbitrary: n rule: canon.induct)
  case (1 vs)
  have "encoded_value_len N (Array vs) = Inr n \<longleftrightarrow>
      (\<exists>bs. encode_items N vs = Inr bs \<and>
        encoded_type_len_len (of_nat (length vs)) + length bs = n \<and> n < usize_bound)"
    using encoded_items_len_iff [of vs N, OF 1 encoded_type_len_len_small] by simp
  then show ?case
    by (auto simp: and_then_Inr_iff length_encode_type_len)
next
  case (2 m)
  have IH: "e \<in> set m \<Longrightarrow> encoded_value_len N (snd e) = Inr n \<longleftrightarrow>
     (\<exists>bs. encode_value N (snd e) = Inr bs \<and> length bs = n \<and> n < usize_bound)" for e n
    using 2 [of e "fst e" "snd e"] by simp
  have "encoded_value_len N (Object m) = Inr n \<longleftrightarrow>
      (\<exists>bs. encode_entries N m = Inr bs \<and>
        encoded_type_len_len (of_nat (length m)) + length bs = n \<and> n < usize_bound)"
    using encoded_entries_len_iff [of m N, OF IH encoded_type_len_len_small] by simp
  also have "\<dots> \<longleftrightarrow> (\<exists>k. (\<exists>bs. encode_entries N m = Inr bs \<and> length bs = k) \<and>
        encoded_type_len_len (of_nat (length m)) + k = n \<and> n < usize_bound)"
    by auto
  also have "\<dots> \<longleftrightarrow> (\<exists>k. (\<exists>bs. encode_entries N (sort_entries m) = Inr bs \<and> length bs = k) \<and>
        encoded_type_len_len (of_nat (length m)) + k = n \<and> n < usize_bound)"
    using encode_entries_perm_length [of m "sort_entries m" N] by (simp add: sort_entries_def)
  also have "\<dots> \<longleftrightarrow> (\<exists>bs. encode_value N (Object m) = Inr bs \<and> length bs = n \<and> n < usize_bound)"
    by (auto simp: and_then_Inr_iff length_encode_type_len)
  finally show ?case .
qed (auto simp: usize_bound_def encoded_number_len_iff encoded_text_len_iff)

section \<open>Limits\<close>

text \<open>The items a value consists of, as the bounded decoder counts them, and the depth of the deepest one.\<close>

fun items :: "'n json \<Rightarrow> nat" where
  "items (Array vs) = Suc (sum_list (map items vs))"
| "items (Object m) = Suc (sum_list (map (\<lambda>(k, v). Suc (items v)) m))"
| "items v = 1"

text \<open>
  A byte string is decoded as an array of its bytes. Its elements are no items of the payload and have no
  depth of their own; everything else that a value contains does.
\<close>

definition byte_elements :: "'n number_api \<Rightarrow> 'n json list \<Rightarrow> bool" where
  "byte_elements N vs \<longleftrightarrow> list_all (\<lambda>v. list_ex (\<lambda>i. v = Number (from_u64 N (of_nat i))) [0..<256]) vs"

fun height :: "'n number_api \<Rightarrow> 'n json \<Rightarrow> nat" where
  "height N (Array vs) = (if byte_elements N vs then 0 else Suc (fold max (map (height N) vs) 0))"
| "height N (Object m) = (if m = [] then 0 else Suc (fold max (map (\<lambda>(k, v). height N v) m) 0))"
| "height N v = 0"

definition entry_items :: "(string \<times> 'n json) list \<Rightarrow> nat" where
  "entry_items m = sum_list (map (\<lambda>(k, v). Suc (items v)) m)"

lemma add_fold_max_le:
  "c + fold max ns a \<le> b \<longleftrightarrow> c + a \<le> b \<and> (\<forall>n \<in> set ns. c + n \<le> b)" for a b c :: nat
  by (induction ns arbitrary: a) auto

lemma byte_elements_bytes: "byte_elements N (map (\<lambda>b. Number (from_u64 N (ucast (b :: byte)))) bs)"
proof -
  have "\<exists>i \<in> set [0..<256]. Number (from_u64 N (ucast b)) = Number (from_u64 N (of_nat i))" for b :: byte
  proof (rule bexI [of _ "unat b"])
    show "unat b \<in> set [0..<256]" unfolding set_upt using unsigned_less [of b] by simp
    have "of_nat (unat b) = (ucast b :: u64)" by (simp only: of_nat_unat)
    then show "Number (from_u64 N (ucast b)) = Number (from_u64 N (of_nat (unat b)))" by (simp only:)
  qed
  then show ?thesis unfolding byte_elements_def list_all_iff list_ex_iff set_map by blast
qed

lemma byte_elements_Nil [simp]: "byte_elements N []"
  by (simp add: byte_elements_def)

lemma height_below:
  assumes "\<forall>n \<in> set ns. Suc depth + n \<le> b" "ns \<noteq> []"
  shows "depth + Suc (fold max ns 0) \<le> b"
proof -
  have "Suc depth \<le> b" using assms by (cases ns) auto
  then show ?thesis using assms(1) add_fold_max_le [of "Suc depth" ns 0 b] by simp
qed

lemma entry_items_map_insert: "entry_items (map_insert k v m) \<le> entry_items m + Suc (items v)"
  by (induction k v m rule: map_insert.induct) (auto simp: entry_items_def)

lemma set_map_insert: "(k', w) \<in> set (map_insert k v m) \<Longrightarrow> (k' = k \<and> w = v) \<or> (k', w) \<in> set m"
  by (induction k v m rule: map_insert.induct) (auto split: if_splits)

text \<open>Reads leave the payload, the limits and the item count alone.\<close>

definition same_frame :: "decoder \<Rightarrow> decoder \<Rightarrow> bool" where
  "same_frame d d' \<longleftrightarrow> payload d' = payload d \<and> limits d' = limits d \<and> decoded_items d' = decoded_items d"

lemma read_u8_frame: "read_u8 d = Inr (b, d') \<Longrightarrow> same_frame d d'"
  by (auto simp: read_u8_def same_frame_def split: if_splits)

lemma read_bytes_frame: "read_bytes n d = Inr (bs, d') \<Longrightarrow> same_frame d d' \<and> length bs = n"
  by (auto simp: read_bytes_def same_frame_def split: if_splits option.splits)

lemma read_len_frame: "read_len a d = Inr (n, d') \<Longrightarrow> same_frame d d'"
  by (auto simp: read_len_def and_then_Inr_iff split: if_splits
      dest: read_u8_frame read_bytes_frame) (simp add: same_frame_def)

lemma read_sized_len_frame: "read_sized_len a k d = Inr (n, d') \<Longrightarrow> same_frame d d'"
  by (auto simp: read_sized_len_def Let_def and_then_Inr_iff split: if_splits option.splits
      dest: read_len_frame)

lemma note_item_bounded:
  assumes "note_item depth d = Inr d'" and "limits d = Some l"
  shows "limits d' = Some l" "payload d' = payload d" "decoded_items d' = Suc (decoded_items d)"
    "decoded_items d' \<le> max_items l" "depth \<le> max_depth l" "offset d' = offset d"
  using assms by (auto simp: note_item_def and_then_Inr_iff ok_or_Inr_iff split: if_splits)

lemma reserve_bounded:
  assumes "reserve_embedded_items n d = Inr d'" and "limits d = Some l"
  shows "limits d' = Some l" "payload d' = payload d" "decoded_items d' = decoded_items d + n"
    "decoded_items d' \<le> max_items l" "offset d' = offset d"
  using assms by (auto simp: reserve_embedded_items_def and_then_Inr_iff ok_or_Inr_iff split: if_splits)

lemma decode_head_bounded:
  assumes "decode_head depth d = Inr (m, a, d')" and "limits d = Some l"
  shows "limits d' = Some l \<and> decoded_items d' = Suc (decoded_items d) \<and>
    decoded_items d' \<le> max_items l \<and> depth \<le> max_depth l"
proof -
  from assms(1) obtain d0 i where n: "note_item depth d = Inr d0" and r: "read_u8 d0 = Inr (i, d')"
    by (auto simp: decode_head_def and_then_Inr_iff)
  from note_item_bounded [OF n assms(2)] read_u8_frame [OF r] show ?thesis
    by (auto simp: same_frame_def)
qed

lemma decode_simple_bounded:
  "decode_simple N a d = Inr (v, d') \<Longrightarrow> same_frame d d' \<and> items v = 1 \<and> height N v = 0"
  by (auto simp: decode_simple_def and_then_Inr_iff number_from_f64_def split: if_splits option.splits
      dest: read_bytes_frame) (simp_all add: same_frame_def)

lemma decode_leaf_bounded:
  assumes "decode_leaf N m a d = Inr (v, d')" and "limits d = Some l" and "decoded_items d \<le> max_items l"
  shows "limits d' = Some l \<and> decoded_items d' + 1 = decoded_items d + items v \<and>
    decoded_items d' \<le> max_items l \<and> height N v = 0"
proof (cases "m = 2")
  case True
  with assms obtain len d1 d2 bs d3 where r: "read_sized_len a 1 d = Inr (len, d1)"
    "reserve_embedded_items len d1 = Inr d2" "read_bytes len d2 = Inr (bs, d3)"
    and v: "v = Array (map (\<lambda>b. Number (from_u64 N (ucast b))) bs)" "d' = d3"
    by (auto simp: decode_leaf_def and_then_Inr_iff)
  have "limits d1 = Some l" and "decoded_items d1 = decoded_items d"
    using read_sized_len_frame [OF r(1)] assms by (auto simp: same_frame_def)
  with reserve_bounded [OF r(2)] read_bytes_frame [OF r(3)] show ?thesis
    by (auto simp: v same_frame_def comp_def sum_list_triv byte_elements_bytes)
next
  case False
  with assms show ?thesis
    by (auto simp: decode_leaf_def and_then_Inr_iff ok_or_Inr_iff same_frame_def split: if_splits
        dest!: read_len_frame read_sized_len_frame read_bytes_frame decode_simple_bounded)
qed

text \<open>
  What one bounded decoding step establishes: the limits stay, every item of the result was
  counted, the count is within its limit, and no item of the result lies deeper than allowed.
\<close>

definition within :: "decode_limits \<Rightarrow> decoder \<Rightarrow> nat \<Rightarrow> decoder \<Rightarrow> bool" where
  "within l d n d' \<longleftrightarrow>
     limits d' = Some l \<and> decoded_items d + n \<le> decoded_items d' \<and> decoded_items d' \<le> max_items l"

lemma within_trans: "within l d n d1 \<Longrightarrow> within l d1 n' d2 \<Longrightarrow> within l d (n + n') d2"
  by (auto simp: within_def)

lemma within_mono: "within l d n d' \<Longrightarrow> n' \<le> n \<Longrightarrow> within l d n' d'"
  by (auto simp: within_def)

lemma saturating_Suc: "depth \<le> k \<Longrightarrow> k + 1 < usize_bound \<Longrightarrow> usize_saturating_add depth 1 = Suc depth"
  by (simp add: usize_saturating_add_def)

lemma decode_limited:
  "decode_value_at_depth N depth d = Inr (v, d') \<Longrightarrow> limits d = Some l \<Longrightarrow>
     max_depth l + 1 < usize_bound \<Longrightarrow>
     within l d (items v) d' \<and> depth + height N v \<le> max_depth l"
  "decode_items N depth n d = Inr (vs, d') \<Longrightarrow> limits d = Some l \<Longrightarrow>
     max_depth l + 1 < usize_bound \<Longrightarrow> decoded_items d \<le> max_items l \<Longrightarrow>
     within l d (sum_list (map items vs)) d' \<and>
     (\<forall>v \<in> set vs. depth + height N v \<le> max_depth l)"
  "decode_entries N depth n m d = Inr (m', d') \<Longrightarrow> limits d = Some l \<Longrightarrow>
     max_depth l + 1 < usize_bound \<Longrightarrow> decoded_items d \<le> max_items l \<Longrightarrow>
     (\<forall>(k, v) \<in> set m. depth + height N v \<le> max_depth l) \<Longrightarrow>
     within l d (entry_items m' - entry_items m) d' \<and>
     (\<forall>(k, v) \<in> set m'. depth + height N v \<le> max_depth l)"
proof (induction N depth d and N depth n d and N depth n m d arbitrary: v d' and vs d' and m' d'
    rule: decode_value_at_depth_decode_items_decode_entries.induct)
  case (1 N depth d)
  from "1.prems"(1) obtain major additional d1 where
    h: "decode_head depth d = Inr (major, additional, d1)"
    by (auto simp: decode_value_at_depth.simps and_then_Inr_iff)
  note hb = decode_head_bounded [OF h "1.prems"(2)]
  have sat: "usize_saturating_add depth 1 = Suc depth"
    using saturating_Suc hb "1.prems"(3) by blast
  consider (arr) "major = 4" | (obj) "major = 5" | (leaf) "major \<noteq> 4" "major \<noteq> 5" by blast
  then show ?case
  proof cases
    case arr
    with "1.prems"(1) h obtain len d2 vs where r: "read_sized_len additional 1 d1 = Inr (len, d2)"
      and i: "decode_items N (usize_saturating_add depth 1) len d2 = Inr (vs, d')" and v: "v = Array vs"
      by (auto simp: decode_value_at_depth.simps and_then_Inr_iff)
    have fr: "limits d2 = Some l" "decoded_items d2 = decoded_items d1"
      using read_sized_len_frame [OF r] hb by (auto simp: same_frame_def)
    have "within l d2 (sum_list (map items vs)) d' \<and>
        (\<forall>v \<in> set vs. Suc depth + height N v \<le> max_depth l)"
      using "1.IH"(1) [OF h refl refl arr r refl i fr(1) "1.prems"(3)] hb fr(2) sat by simp
    then show ?thesis
      using hb fr height_below [of "map (height N) vs" depth "max_depth l"]
      by (cases "vs = []") (auto simp: v within_def)
  next
    case obj
    with "1.prems"(1) h obtain len d2 m where r: "read_sized_len additional 2 d1 = Inr (len, d2)"
      and i: "decode_entries N (usize_saturating_add depth 1) len [] d2 = Inr (m, d')" and v: "v = Object m"
      by (auto simp: decode_value_at_depth.simps and_then_Inr_iff)
    have fr: "limits d2 = Some l" "decoded_items d2 = decoded_items d1"
      using read_sized_len_frame [OF r] hb by (auto simp: same_frame_def)
    have "within l d2 (entry_items m) d' \<and>
        (\<forall>(k, v) \<in> set m. Suc depth + height N v \<le> max_depth l)"
      using "1.IH"(2) [OF h refl refl _ obj r refl i fr(1) "1.prems"(3)] hb fr(2) sat obj
      by (simp add: entry_items_def)
    then show ?thesis
      using hb fr height_below [of "map (\<lambda>(k, v). height N v) m" depth "max_depth l"]
      by (auto simp: v within_def entry_items_def case_prod_beta)
  next
    case leaf
    with "1.prems"(1) h have "decode_leaf N major additional d1 = Inr (v, d')"
      by (auto simp: decode_value_at_depth.simps)
    from decode_leaf_bounded [OF this, of l] hb show ?thesis by (auto simp: within_def)
  qed
next
  case (2 N depth d)
  then show ?case by (auto simp: within_def)
next
  case (3 N depth n d)
  from "3.prems"(1) obtain v d1 ws where a: "decode_value_at_depth N depth d = Inr (v, d1)"
    and b: "decode_items N depth n d1 = Inr (ws, d')" and vs: "vs = v # ws"
    by (auto simp: and_then_Inr_iff)
  from "3.IH"(1) [OF a "3.prems"(2,3)] have A: "within l d (items v) d1" "depth + height N v \<le> max_depth l"
    by auto
  from "3.IH"(2) [OF a refl b] A "3.prems" have "within l d1 (sum_list (map items ws)) d'"
    "\<forall>v \<in> set ws. depth + height N v \<le> max_depth l"
    by (auto simp: within_def)
  with A within_trans show ?case by (fastforce simp: vs)
next
  case (4 N depth m d)
  then show ?case by (auto simp: within_def)
next
  case (5 N depth n m d)
  from "5.prems"(1) obtain k d1 v d2 where a: "decode_value_at_depth N depth d = Inr (String k, d1)"
    and b: "decode_value_at_depth N depth d1 = Inr (v, d2)"
    and c: "decode_entries N depth n (map_insert k v m) d2 = Inr (m', d')"
    by (auto simp: and_then_Inr_iff map_key_Inr_iff)
  from "5.IH"(1) [OF a "5.prems"(2,3)] have A: "within l d 1 d1" by simp
  from "5.IH"(2) [OF a refl _ b _ "5.prems"(3)] A
  have B: "within l d1 (items v) d2" "depth + height N v \<le> max_depth l"
    by (auto simp: within_def)
  have "\<forall>(k', w) \<in> set (map_insert k v m). depth + height N w \<le> max_depth l"
    using B(2) "5.prems"(5) by (auto dest!: set_map_insert)
  with "5.IH"(3) [OF a refl _ b refl c] A B "5.prems"(3)
  have C: "within l d2 (entry_items m' - entry_items (map_insert k v m)) d'"
    "\<forall>(k, v) \<in> set m'. depth + height N v \<le> max_depth l"
    by (auto simp: within_def)
  have "within l d (1 + items v + (entry_items m' - entry_items (map_insert k v m))) d'"
    by (intro within_trans [OF _ C(1)] within_trans [OF A B(1)])
  then show ?case
    using entry_items_map_insert [of k v m] C(2) by (auto intro: within_mono)
qed

text \<open>Without its limits, a decoder reads the same values.\<close>

definition unlimit :: "decoder \<Rightarrow> decoder" where
  "unlimit d = d\<lparr>limits := None, decoded_items := 0\<rparr>"

lemma unlimit_fields [simp]:
  "payload (unlimit d) = payload d" "offset (unlimit d) = offset d" "limits (unlimit d) = None"
  by (simp_all add: unlimit_def)

lemma unlimit_offset_update: "unlimit (d\<lparr>offset := n\<rparr>) = (unlimit d)\<lparr>offset := n\<rparr>"
  by (simp add: unlimit_def)

lemma unlimit_reads:
  "read_u8 d = Inr (b, d') \<Longrightarrow> read_u8 (unlimit d) = Inr (b, unlimit d')"
  "read_bytes n d = Inr (bs, d') \<Longrightarrow> read_bytes n (unlimit d) = Inr (bs, unlimit d')"
  by (auto simp: read_u8_def read_bytes_def unlimit_offset_update split: if_splits option.splits)

lemma unlimit_counts:
  "note_item depth d = Inr d' \<Longrightarrow> unlimit d' = unlimit d"
  "reserve_embedded_items k d = Inr d' \<Longrightarrow> unlimit d' = unlimit d"
  by (auto simp: note_item_def reserve_embedded_items_def unlimit_def
      elim!: and_then_InrE split: if_splits option.splits)

lemma unlimit_read_len: "read_len a d = Inr (n, d') \<Longrightarrow> read_len a (unlimit d) = Inr (n, unlimit d')"
  by (auto simp: read_len_def unlimit_reads elim!: and_then_pairE split: if_splits)

lemma unlimit_read_sized_len:
  assumes "read_sized_len a k d = Inr (n, d')"
  shows "read_sized_len a k (unlimit d) = Inr (n, unlimit d')"
proof -
  from assms obtain raw d1 where r: "read_len a d = Inr (raw, d1)"
    by (auto simp: read_sized_len_def elim!: and_then_pairE)
  with assms have "d' = d1" "n = unat raw" "unat raw \<le> (length (payload d1) - offset d1) div k"
    by (auto simp: read_sized_len_def Let_def split: if_splits option.splits)
  with unlimit_read_len [OF r] show ?thesis by (simp add: read_sized_len_def)
qed

lemma unlimit_decode_head:
  assumes "decode_head depth d = Inr (m, a, d')"
  shows "decode_head depth' (unlimit d) = Inr (m, a, unlimit d')"
proof -
  from assms obtain d0 i where n: "note_item depth d = Inr d0" and r: "read_u8 d0 = Inr (i, d')"
    and m: "m = drop_bit 5 i" "a = i AND 0x1f"
    by (auto simp: decode_head_def elim!: and_then_pairE and_then_InrE)
  from unlimit_reads(1) [OF r] unlimit_counts(1) [OF n] show ?thesis
    by (simp add: decode_head_def m)
qed

lemma unlimit_decode_simple:
  "decode_simple N a d = Inr (v, d') \<Longrightarrow> decode_simple N a (unlimit d) = Inr (v, unlimit d')"
  by (auto simp: decode_simple_def unlimit_reads elim!: and_then_pairE and_then_InrE split: if_splits)

lemma unlimit_reserve: "reserve_embedded_items k (unlimit d) = Inr (unlimit d)"
  by (simp add: reserve_embedded_items_def)

lemma unlimit_decode_leaf:
  assumes "decode_leaf N m a d = Inr (v, d')"
  shows "decode_leaf N m a (unlimit d) = Inr (v, unlimit d')"
proof (cases "m = 2")
  case True
  with assms obtain len d1 d2 bs d3 where r: "read_sized_len a 1 d = Inr (len, d1)"
    "reserve_embedded_items len d1 = Inr d2" "read_bytes len d2 = Inr (bs, d3)"
    and v: "v = Array (map (\<lambda>b. Number (from_u64 N (ucast b))) bs)" "d' = d3"
    by (auto simp: decode_leaf_def and_then_Inr_iff)
  from unlimit_read_sized_len [OF r(1)] unlimit_reads(2) [OF r(3)] unlimit_counts(2) [OF r(2)]
  show ?thesis by (simp add: decode_leaf_def True v unlimit_reserve)
next
  case False
  with assms show ?thesis
    by (auto simp: decode_leaf_def unlimit_decode_simple unlimit_read_len unlimit_read_sized_len
        unlimit_reads elim!: and_then_pairE and_then_InrE split: if_splits)
qed

lemma decode_unlimited:
  "decode_value_at_depth N depth d = Inr (v, d') \<Longrightarrow>
     decode_value_at_depth N depth' (unlimit d) = Inr (v, unlimit d')"
  "decode_items N depth n d = Inr (vs, d') \<Longrightarrow>
     decode_items N depth' n (unlimit d) = Inr (vs, unlimit d')"
  "decode_entries N depth n m d = Inr (m', d') \<Longrightarrow>
     decode_entries N depth' n m (unlimit d) = Inr (m', unlimit d')"
proof (induction N depth d and N depth n d and N depth n m d
    arbitrary: v d' depth' and vs d' depth' and m' d' depth'
    rule: decode_value_at_depth_decode_items_decode_entries.induct)
  case (1 N depth d)
  from "1.prems"(1) obtain major additional d1 where
    h: "decode_head depth d = Inr (major, additional, d1)"
    by (auto simp: decode_value_at_depth.simps and_then_Inr_iff)
  note h' = unlimit_decode_head [OF h, of depth']
  consider (arr) "major = 4" | (obj) "major = 5" | (leaf) "major \<noteq> 4" "major \<noteq> 5" by blast
  then show ?case
  proof cases
    case arr
    with "1.prems"(1) h obtain len d2 vs where r: "read_sized_len additional 1 d1 = Inr (len, d2)"
      and i: "decode_items N (usize_saturating_add depth 1) len d2 = Inr (vs, d')" and v: "v = Array vs"
      by (auto simp: decode_value_at_depth.simps and_then_Inr_iff)
    from "1.IH"(1) [OF h refl refl arr r refl i] unlimit_read_sized_len [OF r] h' arr
    show ?thesis by (simp add: decode_value_at_depth.simps v)
  next
    case obj
    with "1.prems"(1) h obtain len d2 m where r: "read_sized_len additional 2 d1 = Inr (len, d2)"
      and i: "decode_entries N (usize_saturating_add depth 1) len [] d2 = Inr (m, d')" and v: "v = Object m"
      by (auto simp: decode_value_at_depth.simps and_then_Inr_iff)
    from "1.IH"(2) [OF h refl refl _ obj r refl i] unlimit_read_sized_len [OF r] h' obj
    show ?thesis by (simp add: decode_value_at_depth.simps v)
  next
    case leaf
    with "1.prems"(1) h have "decode_leaf N major additional d1 = Inr (v, d')"
      by (auto simp: decode_value_at_depth.simps)
    from unlimit_decode_leaf [OF this] h' leaf show ?thesis
      by (simp add: decode_value_at_depth.simps)
  qed
next
  case (3 N depth n d)
  from "3.prems"(1) obtain v d1 ws where a: "decode_value_at_depth N depth d = Inr (v, d1)"
    and b: "decode_items N depth n d1 = Inr (ws, d')" and vs: "vs = v # ws"
    by (auto simp: and_then_Inr_iff)
  from "3.IH"(1) [OF a, of depth'] "3.IH"(2) [OF a refl b, of depth'] show ?case by (simp add: vs)
next
  case (5 N depth n m d)
  from "5.prems"(1) obtain k d1 v d2 where a: "decode_value_at_depth N depth d = Inr (String k, d1)"
    and b: "decode_value_at_depth N depth d1 = Inr (v, d2)"
    and c: "decode_entries N depth n (map_insert k v m) d2 = Inr (m', d')"
    by (auto simp: and_then_Inr_iff map_key_Inr_iff)
  from "5.IH"(1) [OF a, of depth'] "5.IH"(2) [OF a refl _ b, of k depth']
    "5.IH"(3) [OF a refl _ b refl c, of depth'] show ?case by simp
qed auto

section \<open>Entry points\<close>

lemma feeds_new: "length p < usize_bound \<Longrightarrow> feeds (decoder_new p) p"
  by (simp add: feeds_def decoder_new_def)

lemma decode_encoded_value:
  assumes "number_laws N" "wf_json v" "encode_value N v = Inr bs" "length bs < usize_bound"
  shows "decode N from_value bs = ok_or LiftFailed (from_value (canon v))"
proof -
  have "decode_value_at_depth N 0 (decoder_new bs) = Inr (canon v, adv (length bs) (decoder_new bs))"
    using decode_encoded(1) [OF assms(3,1,2), of "decoder_new bs" "[]"] feeds_new [OF assms(4)]
    by (simp add: decoder_new_def)
  then show ?thesis
    by (simp add: decode_def decode_value_def finish_def) (simp add: decoder_new_def)
qed

lemma decode_bounded_value:
  assumes "decode_bounded N from_value l p = Inr t"
  obtains v d where "decode_value_at_depth N 0 (decoder_new_bounded p l) = Inr (v, d)"
    "from_value v = Some t" "finish d = Inr ()" "length p \<le> max_bytes l"
  using assms
  by (auto simp: decode_bounded_def decode_value_def and_then_Inr_iff ok_or_Inr_iff split: if_splits)

lemma unlimit_new_bounded: "unlimit (decoder_new_bounded p l) = decoder_new p"
  by (simp add: unlimit_def decoder_new_bounded_def decoder_new_def)

lemma finish_unlimit: "finish (unlimit d) = finish d"
  by (simp add: finish_def unlimit_def)

text \<open>
  A number type with an unsigned, a negative and a fractional number, for concrete inputs.
\<close>

datatype num_sample = PosInt u64 | NegInt "63 word" | Half

definition neg_of :: "63 word \<Rightarrow> i64" where
  "neg_of m = of_int (- 1 - uint m)"

definition neg_to :: "i64 \<Rightarrow> 63 word" where
  "neg_to v = of_int (- 1 - sint v)"

definition sample_api :: "num_sample number_api" where
  "sample_api = \<lparr>
     as_u64 = (\<lambda>n. case n of PosInt v \<Rightarrow> Some v | _ \<Rightarrow> None),
     as_i64 = (\<lambda>n. case n of NegInt m \<Rightarrow> Some (neg_of m) | _ \<Rightarrow> None),
     as_f64 = (\<lambda>n. case n of Half \<Rightarrow> Some 0x3FE0000000000000 | _ \<Rightarrow> None),
     from_u64 = PosInt,
     from_i64 = (\<lambda>v. NegInt (neg_to v)),
     from_f64 = (\<lambda>f. if f = 0x3FE0000000000000 then Some Half else None)\<rparr>"

lemma sint_neg_of: "sint (neg_of m) = - 1 - uint m"
proof -
  have m: "0 \<le> uint m" "uint m < 2 ^ 63" using uint_lt2p [of m] by simp_all
  have "signed_take_bit 63 (- 1 - uint m) = - 1 - uint m"
    unfolding signed_take_bit_int_eq_self_iff using m by linarith
  then show ?thesis by (simp only: neg_of_def sint_sbintrunc') simp
qed

lemma neg_of_negative: "sint (neg_of m) < 0"
  using sint_neg_of [of m] uint_ge_0 [of m] by linarith

lemma neg_to_of: "neg_to (neg_of m) = m"
  by (simp only: neg_to_def sint_neg_of) simp

lemma sample_laws: "number_laws sample_api"
  unfolding number_laws_def sample_api_def
  by (auto split: num_sample.splits simp: neg_of_negative neg_to_of)

definition sample_value :: "num_sample json" where
  "sample_value = Object [(''bb'', Array [Null, Number (NegInt 4)]), (''a'', Number (PosInt 500))]"

definition sample_bytes :: bytes where
  "sample_bytes = [0xA2, 0x61, 0x61, 0x19, 0x01, 0xF4, 0x62, 0x62, 0x62, 0x82, 0xF6, 0x24]"

lemmas cbor_eval = sort_entries_def entry_key_def encode_text_def encode_type_len_def Let_def
  as_bytes_def byte_of_def encode_number_def neg_magnitude_def eval_simps

lemma sample_encoded: "encode_value sample_api sample_value = Inr sample_bytes"
  by (simp add: sample_api_def sample_value_def sample_bytes_def cbor_eval neg_of_def)

lemma sample_wf: "wf_json sample_value"
  by (simp add: sample_value_def wf_str_def as_bytes_def byte_of_def)

lemma sample_bytes_small: "length sample_bytes < usize_bound"
  by (simp add: sample_bytes_def usize_bound_def)

lemma sample_canon:
  "canon sample_value =
     Object [(''a'', Number (PosInt 500)), (''bb'', Array [Null, Number (NegInt 4)])]"
  by (simp add: sample_value_def cbor_eval)

section \<open>Properties\<close>

text \<open>C3: Decoding the encoding of a value gives back that value, with the entries of every map in
  canonical order, for every well-formed value whose encoding is addressable.\<close>

theorem cbor_roundtrip:
  assumes "number_laws N" "wf_json v" "encode_value N v = Inr bs" "length bs < usize_bound"
  shows "decode N from_value bs = ok_or LiftFailed (from_value (canon v))"
  using assms by (rule decode_encoded_value)

theorem cbor_roundtrip_witness:
  "number_laws sample_api \<and> encode_value sample_api sample_value = Inr sample_bytes \<and>
   decode sample_api Some sample_bytes =
     Inr (Object [(''a'', Number (PosInt 500)), (''bb'', Array [Null, Number (NegInt 4)])])"
  using cbor_roundtrip [OF sample_laws sample_wf sample_encoded sample_bytes_small, of Some]
  by (simp add: sample_canon sample_encoded sample_laws)



text \<open>C23: The precomputed length agrees with the encoder: it succeeds exactly on the values that encode
  into fewer than the address-space bound of bytes, and then it is the number of bytes emitted.\<close>

theorem encoded_len_exact:
  "encoded_len N to_value t = Inr n \<longleftrightarrow>
     (\<exists>bs. encode N to_value t = Inr bs \<and> length bs = n \<and> n < usize_bound)"
  by (cases "to_value t") (simp_all add: encoded_len_def encode_def encoded_value_len_iff)

text \<open>C22: Bounded decoding enforces its limits: what it accepts is within the byte and item limits, no
  item of it lies deeper than the depth limit (the elements of an array of bytes, as which a byte string is
  decoded, are no items of their own), and the unbounded decoder gives the same result.\<close>

theorem decode_bounded_limits:
  assumes "decode_bounded N from_value l p = Inr t" "max_depth l + 1 < usize_bound"
  shows "length p \<le> max_bytes l \<and> decode N from_value p = Inr t \<and>
    (\<exists>v. from_value v = Some t \<and> items v \<le> max_items l \<and> height N v \<le> max_depth l)"
proof -
  obtain v d where v: "decode_value_at_depth N 0 (decoder_new_bounded p l) = Inr (v, d)"
    "from_value v = Some t" "finish d = Inr ()" "length p \<le> max_bytes l"
    using assms(1) by (rule decode_bounded_value)
  have "items v \<le> max_items l \<and> height N v \<le> max_depth l"
    using decode_limited(1) [OF v(1) _ assms(2)]
    by (simp add: decoder_new_bounded_def within_def)
  moreover have "decode N from_value p = Inr t"
    using decode_unlimited(1) [OF v(1), of 0] v(2,3) finish_unlimit [of d]
    by (simp add: decode_def decode_value_def unlimit_new_bounded)
  ultimately show ?thesis using v by blast
qed

theorem decode_bounded_limits_witness:
  "decode_bounded sample_api Some \<lparr>max_bytes = 2, max_items = 2, max_depth = 1\<rparr> [0x81, 0xF6] = Inr (Array [Null]) \<and>
   decode sample_api Some [0x81, 0xF6] = Inr (Array [Null]) \<and>
   items (Array [Null :: num_sample json]) \<le> 2 \<and> height sample_api (Array [Null]) \<le> 1 \<and>
   (\<forall>t. decode_bounded sample_api Some \<lparr>max_bytes = 2, max_items = 2, max_depth = 0\<rparr> [0x81, 0xF6] \<noteq> Inr t)"
proof -
  let ?l = "\<lambda>n. \<lparr>max_bytes = 2, max_items = 2, max_depth = n\<rparr>"
  have ok: "decode_bounded sample_api Some (?l 1) [0x81, 0xF6] = Inr (Array [Null])"
    by (simp add: decode_bounded_def decode_value_def decoder_new_bounded_def finish_def
        decode_value_at_depth.simps decode_head_def usize_bound_def decode_items.simps
        note_item_def read_u8_def read_sized_len_def read_len_def reserve_embedded_items_def
        decode_leaf_def decode_simple_def usize_saturating_add_def usize_checked_add_def
        unread_def Let_def)
  have "decode sample_api Some [0x81, 0xF6] = Inr (Array [Null])"
    "items (Array [Null :: num_sample json]) \<le> 2" "height sample_api (Array [Null]) \<le> 1"
    using decode_bounded_limits [OF ok] by (simp_all add: usize_bound_def)
  moreover have "decode_bounded sample_api Some (?l 0) [0x81, 0xF6] \<noteq> Inr t" for t
  proof
    assume "decode_bounded sample_api Some (?l 0) [0x81, 0xF6] = Inr t"
    from decode_bounded_limits [OF this] calculation(1) show False
      by (auto simp: usize_bound_def byte_elements_def list_ex_iff)
  qed
  ultimately show ?thesis using ok by blast
qed

end
