(* ===== verification/Wire.thy ===== *)
theory Wire
  imports Cbor_Correct
begin

text \<open>
  The backend wire protocol of \<^verbatim>\<open>crates/ostadix-api/src/wire.rs\<close>: a frame is a four-byte
  big-endian length followed by one canonical CBOR message. A reader is the sequence of results
  that its \<open>read\<close> calls give: \<open>Chunk bs\<close> when up to \<open>length bs\<close> bytes are ready, \<open>ReadError\<close> when the
  call fails; the empty sequence and an empty chunk are the end of the stream. A read into a
  smaller buffer leaves the rest of the chunk for the next call, so every way in which an operating
  system may split the stream is a reader. The writer is a \<open>Vec<u8>\<close>, whose writes do not fail.
  The codec is an interface (locale \<open>frame_codec\<close>) that the CBOR codec implements.
\<close>

section \<open>Streams\<close>

datatype wire_error =
    PayloadExceededU32
  | FrameTooLong nat nat
  | LengthReadFailed
  | ClosedInLength
  | PayloadReadFailed
  | Codec cbor_error

datatype read_event = Chunk bytes | ReadError

type_synonym reader = "read_event list"

text \<open>\<open>Read::read\<close> into a buffer of \<open>k\<close> bytes.\<close>

fun read_some :: "nat \<Rightarrow> reader \<Rightarrow> (bytes \<times> reader) option" where
  "read_some k [] = Some ([], [])"
| "read_some k (ReadError # r) = None"
| "read_some k (Chunk c # r) =
     (if length c \<le> k then Some (c, r) else Some (take k c, Chunk (drop k c) # r))"

lemma read_some_length: "read_some k r = Some (c, r') \<Longrightarrow> length c \<le> k"
  by (induction k r rule: read_some.induct) (auto split: if_splits)

text \<open>\<open>Read::read_exact\<close>: read until the buffer is full; an end of stream before that is an error.\<close>

function read_exact :: "nat \<Rightarrow> reader \<Rightarrow> (bytes \<times> reader) option" where
  "read_exact k r =
     (if k = 0 then Some ([], r)
      else case read_some k r of
        None \<Rightarrow> None
      | Some (c, r') \<Rightarrow>
          if c = [] then None
          else map_option (\<lambda>(bs, r''). (c @ bs, r'')) (read_exact (k - length c) r'))"
  by auto
termination
  by (relation "measure fst") auto

declare read_exact.simps [simp del]

section \<open>Frames\<close>

definition MAX_FRAME_LEN :: nat where
  "MAX_FRAME_LEN = 128 * 1024 * 1024"

definition write_frame_payload :: "bytes \<Rightarrow> bytes \<Rightarrow> wire_error + bytes" where
  "write_frame_payload writer p =
     (if length p \<ge> 2 ^ 32 then Inl PayloadExceededU32
      else Inr (writer @ be_bytes 4 (length p) @ p))"

lemma progress_4: "\<not> 4 \<le> n \<Longrightarrow> c \<noteq> [] \<Longrightarrow> 4 - (n + length c) < 4 - n"
  by (cases c) auto

text \<open>The loop that fills \<open>len_buf\<close>; \<open>buf\<close> is the part read so far, \<open>None\<close> a clean end of stream.\<close>

function read_len_buf :: "bytes \<Rightarrow> reader \<Rightarrow> wire_error + (bytes option \<times> reader)" where
  "read_len_buf buf r =
     (if length buf \<ge> 4 then Inr (Some buf, r)
      else case read_some (4 - length buf) r of
        None \<Rightarrow> Inl LengthReadFailed
      | Some (c, r') \<Rightarrow>
          if c = [] then (if buf = [] then Inr (None, r') else Inl ClosedInLength)
          else read_len_buf (buf @ c) r')"
  by auto
termination
  by (relation "measure (\<lambda>(buf, r). 4 - length buf)") (auto simp: progress_4)

declare read_len_buf.simps [simp del]

definition read_frame_payload :: "reader \<Rightarrow> nat \<Rightarrow> wire_error + (bytes option \<times> reader)" where
  "read_frame_payload r max_frame_len =
     and_then (read_len_buf [] r) (\<lambda>(len_buf, r').
       case len_buf of
         None \<Rightarrow> Inr (None, r')
       | Some buf \<Rightarrow>
         (let len = be_nat buf in
          if len > max_frame_len then Inl (FrameTooLong len max_frame_len)
          else case read_exact len r' of
            None \<Rightarrow> Inl PayloadReadFailed
          | Some (p, r'') \<Rightarrow> Inr (Some p, r'')))"

definition lift_codec :: "cbor_error + 'a \<Rightarrow> wire_error + 'a" where
  "lift_codec x = (case x of Inl e \<Rightarrow> Inl (Codec e) | Inr v \<Rightarrow> Inr v)"

lemma lift_codec_simps [simp]:
  "lift_codec (Inl e) = Inl (Codec e)" "lift_codec (Inr v) = Inr v"
  by (simp_all add: lift_codec_def)

definition write_frame :: "('t \<Rightarrow> cbor_error + bytes) \<Rightarrow> bytes \<Rightarrow> 't \<Rightarrow> wire_error + bytes" where
  "write_frame encode_message writer message =
     and_then (lift_codec (encode_message message)) (\<lambda>p. write_frame_payload writer p)"

definition write_frame_with_max ::
  "('t \<Rightarrow> cbor_error + bytes) \<Rightarrow> bytes \<Rightarrow> 't \<Rightarrow> nat \<Rightarrow> wire_error + bytes" where
  "write_frame_with_max encode_message writer message max_frame_len =
     and_then (lift_codec (encode_message message)) (\<lambda>p.
       if length p > max_frame_len then Inl (FrameTooLong (length p) max_frame_len)
       else write_frame_payload writer p)"

definition read_frame_with_max ::
  "(bytes \<Rightarrow> cbor_error + 't) \<Rightarrow> reader \<Rightarrow> nat \<Rightarrow> wire_error + ('t option \<times> reader)" where
  "read_frame_with_max decode_message r max_frame_len =
     and_then (read_frame_payload r max_frame_len) (\<lambda>(p, r').
       case p of
         None \<Rightarrow> Inr (None, r')
       | Some bs \<Rightarrow> and_then (lift_codec (decode_message bs)) (\<lambda>m. Inr (Some m, r')))"

definition read_frame :: "(bytes \<Rightarrow> cbor_error + 't) \<Rightarrow> reader \<Rightarrow> wire_error + ('t option \<times> reader)" where
  "read_frame decode_message r = read_frame_with_max decode_message r MAX_FRAME_LEN"

section \<open>What a reader delivers\<close>

text \<open>The bytes of a stream that ends without an error, whatever the sizes of its chunks.\<close>

fun delivers :: "reader \<Rightarrow> bytes option" where
  "delivers [] = Some []"
| "delivers (ReadError # r) = None"
| "delivers (Chunk c # r) = (if c = [] then None else map_option (\<lambda>bs. c @ bs) (delivers r))"

lemma read_some_delivers:
  assumes "delivers r = Some bs" "0 < k"
  obtains c r' bs' where "read_some k r = Some (c, r')" "bs = c @ bs'" "delivers r' = Some bs'"
    "length c \<le> k" "c = [] \<longleftrightarrow> bs = []"
  using assms
proof (induction k r arbitrary: thesis rule: read_some.induct)
  case (3 k c r)
  then obtain bs' where bs: "delivers r = Some bs'" "c \<noteq> []" "bs = c @ bs'"
    by (auto split: if_splits)
  show ?case
  proof (cases "length c \<le> k")
    case True
    then show ?thesis using bs by (intro 3(1)) auto
  next
    case False
    then show ?thesis
      using bs \<open>0 < k\<close> append_take_drop_id [of k c]
      by (intro 3(1) [of "take k c" "Chunk (drop k c) # r" "drop k c @ bs'"]) auto
  qed
qed auto

lemma read_exact_delivers:
  assumes "delivers r = Some bs"
  shows "(if length bs < k then read_exact k r = None
    else \<exists>r'. read_exact k r = Some (take k bs, r') \<and> delivers r' = Some (drop k bs))"
  using assms
proof (induction k arbitrary: r bs rule: less_induct)
  case (less k)
  show ?case
  proof (cases "k = 0")
    case True
    then show ?thesis using less.prems by (simp add: read_exact.simps)
  next
    case False
    obtain c r' bs' where c: "read_some k r = Some (c, r')" "bs = c @ bs'" "delivers r' = Some bs'"
      "length c \<le> k" "c = [] \<longleftrightarrow> bs = []"
      using read_some_delivers [OF less.prems] False by blast
    show ?thesis
    proof (cases "c = []")
      case True
      moreover have "read_exact k r = None"
        using True c(1) False by (subst read_exact.simps) simp
      ultimately show ?thesis using c(5) False by simp
    next
      case nonempty: False
      then have "k - length c < k" using False by (cases c) auto
      moreover have "read_exact k r =
          map_option (\<lambda>(bs, r''). (c @ bs, r'')) (read_exact (k - length c) r')"
        by (subst read_exact.simps) (simp add: c(1) nonempty False)
      ultimately show ?thesis
        using less.IH [OF _ c(3), of "k - length c"] c(2,4) by (auto split: if_splits)
    qed
  qed
qed

lemma read_len_buf_delivers:
  assumes "delivers r = Some bs" "length buf \<le> 4"
  shows "(if length buf + length bs < 4
      then if buf = [] \<and> bs = [] then \<exists>r'. read_len_buf buf r = Inr (None, r') \<and> delivers r' = Some []
           else read_len_buf buf r = Inl ClosedInLength
      else \<exists>r'. read_len_buf buf r = Inr (Some (buf @ take (4 - length buf) bs), r') \<and>
             delivers r' = Some (drop (4 - length buf) bs))" (is "?P buf bs r")
  using assms
proof (induction "4 - length buf" arbitrary: r bs buf rule: less_induct)
  case (less buf)
  show ?case
  proof (cases "length buf = 4")
    case True
    moreover from this have "read_len_buf buf r = Inr (Some buf, r)"
      by (subst read_len_buf.simps) simp
    ultimately show ?thesis using less.prems by simp
  next
    case False
    then have pos: "0 < 4 - length buf" using less.prems(2) by simp
    obtain c r' bs' where c: "read_some (4 - length buf) r = Some (c, r')" "bs = c @ bs'"
      "delivers r' = Some bs'" "length c \<le> 4 - length buf" "c = [] \<longleftrightarrow> bs = []"
      using read_some_delivers [OF less.prems(1) pos] by blast
    show ?thesis
    proof (cases "c = []")
      case True
      moreover have "read_len_buf buf r = (if buf = [] then Inr (None, r') else Inl ClosedInLength)"
        using True c(1) pos by (subst read_len_buf.simps) simp
      moreover have "bs = []" "delivers r' = Some []" using True c(2,3,5) by (blast, force)
      ultimately show ?thesis using pos by auto
    next
      case nonempty: False
      have "4 - length (buf @ c) < 4 - length buf"
        using progress_4 [OF _ nonempty, of "length buf"] pos by simp
      moreover have "length (buf @ c) \<le> 4" using c(4) pos by simp
      ultimately have IH: "?P (buf @ c) bs' r'" using less.hyps c(3) by blast
      have step: "read_len_buf buf r = read_len_buf (buf @ c) r'"
        using pos by (subst read_len_buf.simps) (simp add: c(1) nonempty)
      show ?thesis
        unfolding step using IH c(2,4) pos nonempty by (simp add: add.assoc split: if_splits)
    qed
  qed
qed

section \<open>The reader against its specification\<close>

text \<open>
  The frame reader on the bytes of the stream, without chunks: the clean end of the stream, a stream
  cut inside the length, a length above the limit, a stream cut inside the payload, and a frame.
\<close>

definition frame_spec :: "bytes \<Rightarrow> nat \<Rightarrow> wire_error + (bytes option \<times> bytes)" where
  "frame_spec bs max_frame_len =
     (if bs = [] then Inr (None, [])
      else if length bs < 4 then Inl ClosedInLength
      else let len = be_nat (take 4 bs); rest = drop 4 bs in
        if len > max_frame_len then Inl (FrameTooLong len max_frame_len)
        else if length rest < len then Inl PayloadReadFailed
        else Inr (Some (take len rest), drop len rest))"

lemma read_frame_payload_spec:
  assumes "delivers r = Some bs"
  shows "case frame_spec bs m of
      Inl e \<Rightarrow> read_frame_payload r m = Inl e
    | Inr (p, rest) \<Rightarrow> \<exists>r'. read_frame_payload r m = Inr (p, r') \<and> delivers r' = Some rest"
proof (cases "length bs < 4")
  case True
  then show ?thesis
    using read_len_buf_delivers [OF assms, of "[]"]
    by (auto simp: frame_spec_def read_frame_payload_def)
next
  case False
  then obtain r' where r': "read_len_buf [] r = Inr (Some (take 4 bs), r')"
    "delivers r' = Some (drop 4 bs)"
    using read_len_buf_delivers [OF assms, of "[]"] by auto
  show ?thesis
    using False r' read_exact_delivers [OF r'(2), of "be_nat (take 4 bs)"]
    by (auto simp: frame_spec_def read_frame_payload_def Let_def split: if_splits)
qed

lemma frame_spec_written:
  assumes "length p < 2 ^ 32" "length p \<le> m"
  shows "frame_spec (be_bytes 4 (length p) @ p @ rest) m = Inr (Some p, rest)"
proof -
  have "be_bytes 4 (length p) \<noteq> []"
    by (metis length_be_bytes length_0_conv zero_neq_numeral)
  then show ?thesis using assms by (simp add: frame_spec_def Let_def)
qed

section \<open>The codec a frame carries\<close>

text \<open>A conversation: messages written one after the other, and as many frames read.\<close>

fun write_frames :: "('t \<Rightarrow> cbor_error + bytes) \<Rightarrow> nat \<Rightarrow> bytes \<Rightarrow> 't list \<Rightarrow> wire_error + bytes" where
  "write_frames enc k w [] = Inr w"
| "write_frames enc k w (m # ms) =
     and_then (write_frame_with_max enc w m k) (\<lambda>w'. write_frames enc k w' ms)"

fun read_frames ::
  "(bytes \<Rightarrow> cbor_error + 't) \<Rightarrow> nat \<Rightarrow> nat \<Rightarrow> reader \<Rightarrow> wire_error + ('t option list \<times> reader)" where
  "read_frames dec k 0 r = Inr ([], r)"
| "read_frames dec k (Suc n) r =
     and_then (read_frame_with_max dec r k) (\<lambda>(m, r').
     and_then (read_frames dec k n r') (\<lambda>(ms, r''). Inr (m # ms, r'')))"

lemma write_frame_extends: "write_frame_with_max enc w m k = Inr w' \<Longrightarrow> \<exists>more. w' = w @ more"
  by (cases "enc m") (auto simp: write_frame_with_max_def write_frame_payload_def split: if_splits)

lemma write_frames_extends: "write_frames enc k w ms = Inr w' \<Longrightarrow> \<exists>more. w' = w @ more"
proof (induction ms arbitrary: w)
  case (Cons m ms)
  then obtain w1 where "write_frame_with_max enc w m k = Inr w1" "write_frames enc k w1 ms = Inr w'"
    by (auto elim!: and_then_InrE)
  then show ?case using write_frame_extends [of enc w m k w1] Cons.IH [of w1] by auto
qed auto

text \<open>
  What the frames promise over any codec whose decoder inverts its encoder on the \<open>good\<close> messages.
\<close>

locale frame_codec =
  fixes encode_message :: "'t \<Rightarrow> cbor_error + bytes"
    and decode_message :: "bytes \<Rightarrow> cbor_error + 't"
    and good :: "'t \<Rightarrow> bool"
  assumes decode_encode:
    "good m \<Longrightarrow> encode_message m = Inr p \<Longrightarrow> length p < usize_bound \<Longrightarrow> decode_message p = Inr m"
begin

lemma write_frame_with_max_iff:
  "write_frame_with_max encode_message w m k = Inr w' \<longleftrightarrow>
     (\<exists>p. encode_message m = Inr p \<and> length p \<le> k \<and> length p < 2 ^ 32 \<and>
        w' = w @ be_bytes 4 (length p) @ p)"
  by (cases "encode_message m") (auto simp: write_frame_with_max_def write_frame_payload_def)

lemma read_written_frame:
  assumes "good m" "write_frame_with_max encode_message w m k = Inr (w @ frame)"
    and "delivers r = Some (frame @ rest)"
  shows "\<exists>r'. read_frame_with_max decode_message r k = Inr (Some m, r') \<and> delivers r' = Some rest"
proof -
  obtain p where p: "encode_message m = Inr p" "length p \<le> k" "length p < 2 ^ 32"
    "frame = be_bytes 4 (length p) @ p"
    using assms(2) by (auto simp: write_frame_with_max_iff)
  have "decode_message p = Inr m"
    using decode_encode [OF assms(1) p(1)] p(3) by (simp add: usize_bound_def)
  moreover have "frame_spec (frame @ rest) k = Inr (Some p, rest)"
    using frame_spec_written [OF p(3,2), of rest] p(4) by simp
  ultimately show ?thesis
    using read_frame_payload_spec [OF assms(3), of k]
    by (auto simp: read_frame_with_max_def)
qed

lemma read_written_frames:
  assumes "\<forall>m \<in> set ms. good m" "write_frames encode_message k w ms = Inr (w @ stream)"
    and "delivers r = Some (stream @ rest)"
  shows "\<exists>r'. read_frames decode_message k (length ms) r = Inr (map Some ms, r') \<and>
    delivers r' = Some rest"
  using assms
proof (induction ms arbitrary: w stream r)
  case (Cons m ms)
  obtain w' where w': "write_frame_with_max encode_message w m k = Inr w'"
    "write_frames encode_message k w' ms = Inr (w @ stream)"
    using Cons.prems(2) by (auto elim!: and_then_InrE)
  obtain frame where frame: "w' = w @ frame" using w'(1) by (auto simp: write_frame_with_max_iff)
  obtain more where more: "w @ stream = w' @ more"
    using write_frames_extends [OF w'(2)] by blast
  then have stream: "stream = frame @ more" using frame by simp
  obtain r1 where r1: "read_frame_with_max decode_message r k = Inr (Some m, r1)"
    "delivers r1 = Some (more @ rest)"
    using read_written_frame [of m w k frame r "more @ rest"] Cons.prems w'(1) frame stream by auto
  from Cons.IH [of w' more r1] Cons.prems(1) w'(2) more r1 show ?case by auto
qed auto

end

section \<open>Frames over canonical CBOR\<close>

text \<open>
  A message type whose \<open>serde\<close> lowering to a JSON value is undone by the lift, as derived
  implementations are; the map order of the lowered value is that of the encoder.
\<close>

definition serde_ok ::
  "'n number_api \<Rightarrow> ('t \<Rightarrow> 'n json option) \<Rightarrow> ('n json \<Rightarrow> 't option) \<Rightarrow> 't \<Rightarrow> bool" where
  "serde_ok N to_value from_value m \<longleftrightarrow> number_laws N \<and>
     (\<exists>v. to_value m = Some v \<and> wf_json v \<and> from_value (canon v) = Some m)"

interpretation cbor: frame_codec "encode N to_value" "decode N from_value" "serde_ok N to_value from_value"
  for N to_value from_value
proof
  fix m p assume "serde_ok N to_value from_value m" "encode N to_value m = Inr p" "length p < usize_bound"
  then show "decode N from_value p = Inr m"
    using decode_encoded_value [of N _ p from_value] by (auto simp: serde_ok_def encode_def)
qed

section \<open>Properties\<close>

text \<open>C7: The frame reader behaves on every stream as its specification does on the bytes the stream
  delivers, however those are split into reads: a clean end gives no frame, a stream cut inside the
  length or the payload and an oversized length are errors, and a frame is read with nothing after it.\<close>

theorem read_frame_payload_refines:
  assumes "delivers r = Some bs"
  shows "case frame_spec bs max_frame_len of
      Inl e \<Rightarrow> read_frame_payload r max_frame_len = Inl e
    | Inr (p, rest) \<Rightarrow>
        \<exists>r'. read_frame_payload r max_frame_len = Inr (p, r') \<and> delivers r' = Some rest"
  using assms by (rule read_frame_payload_spec)

theorem read_frame_payload_refines_witness:
  "\<exists>r'. read_frame_payload [Chunk [0, 0], Chunk [0, 2, 7], Chunk [8, 9]] 10 = Inr (Some [7, 8], r') \<and>
     delivers r' = Some [9]"
  using read_frame_payload_refines [of "[Chunk [0, 0], Chunk [0, 2, 7], Chunk [8, 9]]"
      "[0, 0, 0, 2, 7, 8, 9]" 10]
  by (simp add: frame_spec_def be_nat_def)

text \<open>C9: A conversation round trips: the messages written as consecutive frames are read back, in
  order and unchanged, from any stream that delivers those bytes, and the reader stops exactly at
  the first byte after them.\<close>

theorem frames_roundtrip:
  assumes "\<forall>m \<in> set ms. serde_ok N to_value from_value m"
    and "write_frames (encode N to_value) max_frame_len [] ms = Inr stream"
    and "delivers r = Some (stream @ rest)"
  shows "\<exists>r'. read_frames (decode N from_value) max_frame_len (length ms) r = Inr (map Some ms, r') \<and>
    delivers r' = Some rest"
  using cbor.read_written_frames [of ms N to_value from_value max_frame_len "[]" stream r rest] assms
  by simp

theorem frames_roundtrip_witness:
  "\<exists>r'. read_frames (decode sample_api Some) 9 2 [Chunk [0, 0, 0], Chunk [1, 0xF6, 0, 0, 0, 1, 0xF5]] =
      Inr ([Some Null, Some (Bool True)], r') \<and> delivers r' = Some []"
proof -
  have "\<forall>m \<in> set [Null, Bool True]. serde_ok sample_api Some Some m"
    by (simp add: serde_ok_def sample_laws)
  moreover have "write_frames (encode sample_api Some) 9 [] [Null, Bool True] =
      Inr [0, 0, 0, 1, 0xF6, 0, 0, 0, 1, 0xF5]"
    by (simp add: write_frame_with_max_def write_frame_payload_def encode_def eval_simps)
  ultimately show ?thesis
    using frames_roundtrip [of "[Null, Bool True]" sample_api Some Some 9
        "[0, 0, 0, 1, 0xF6, 0, 0, 0, 1, 0xF5]"
        "[Chunk [0, 0, 0], Chunk [1, 0xF6, 0, 0, 0, 1, 0xF5]]" "[]"]
    by (simp add: numeral_2_eq_2 del: read_frames.simps write_frames.simps)
qed

end
