(* ===== verification/Environment.thy ===== *)
theory Environment
  imports Prelude
begin

text \<open>
  Environment identities, \<^verbatim>\<open>crates/ostadix-api/src/environment.rs\<close>: the two reserved high values of
  the \<open>u32\<close> storage field and the persistent ones, with the marker they have in source text.
\<close>

definition EPHEMERAL_ENV_ID :: u32 where
  "EPHEMERAL_ENV_ID = - 1"

definition LINKER_ISOLATED_ENV_ID :: u32 where
  "LINKER_ISOLATED_ENV_ID = - 1 - 1"

definition MAX_PERSISTENT_ENV_ID :: u32 where
  "MAX_PERSISTENT_ENV_ID = - 1 - 2"

datatype EnvironmentRefV2 = Ephemeral | LinkerIsolated | Persistent u32

datatype EnvironmentIdError = Reserved u32

definition persistent :: "u32 \<Rightarrow> EnvironmentIdError + EnvironmentRefV2" where
  "persistent i = (if i > MAX_PERSISTENT_ENV_ID then Inl (Reserved i) else Inr (Persistent i))"

definition from_encoded :: "u32 \<Rightarrow> EnvironmentRefV2" where
  "from_encoded i =
     (if i = EPHEMERAL_ENV_ID then Ephemeral
      else if i = LINKER_ISOLATED_ENV_ID then LinkerIsolated
      else Persistent i)"

fun encoded :: "EnvironmentRefV2 \<Rightarrow> u32" where
  "encoded Ephemeral = EPHEMERAL_ENV_ID"
| "encoded LinkerIsolated = LINKER_ISOLATED_ENV_ID"
| "encoded (Persistent i) = i"

fun runtime_env_id :: "EnvironmentRefV2 \<Rightarrow> u32" where
  "runtime_env_id Ephemeral = EPHEMERAL_ENV_ID"
| "runtime_env_id LinkerIsolated = EPHEMERAL_ENV_ID"
| "runtime_env_id (Persistent i) = i"

fun is_fresh :: "EnvironmentRefV2 \<Rightarrow> bool" where
  "is_fresh (Persistent i) = False"
| "is_fresh _ = True"

fun is_persistent :: "EnvironmentRefV2 \<Rightarrow> bool" where
  "is_persistent (Persistent i) = True"
| "is_persistent _ = False"

fun source_marker :: "EnvironmentRefV2 \<Rightarrow> string option" where
  "source_marker Ephemeral = None"
| "source_marker LinkerIsolated = Some ''[*]''"
| "source_marker (Persistent i) = Some (''['' @ show_nat (unat i) @ '']'')"

section \<open>Laws\<close>

lemma env_ids_distinct [simp]:
  "EPHEMERAL_ENV_ID \<noteq> LINKER_ISOLATED_ENV_ID" "LINKER_ISOLATED_ENV_ID \<noteq> EPHEMERAL_ENV_ID"
  by (simp_all add: EPHEMERAL_ENV_ID_def LINKER_ISOLATED_ENV_ID_def)

lemma encoded_from_encoded [simp]: "encoded (from_encoded i) = i"
  by (simp add: from_encoded_def)

lemma persistent_not_reserved:
  "persistent i = Inr r \<longleftrightarrow> r = Persistent i \<and> i \<noteq> EPHEMERAL_ENV_ID \<and> i \<noteq> LINKER_ISOLATED_ENV_ID"
proof -
  have "i > MAX_PERSISTENT_ENV_ID \<longleftrightarrow> i = EPHEMERAL_ENV_ID \<or> i = LINKER_ISOLATED_ENV_ID"
  proof -
    have "unat i = 2 ^ 32 - 1 \<or> unat i = 2 ^ 32 - 2 \<or> unat i \<le> 2 ^ 32 - 3"
      using unsigned_less [of i, where 'a = nat] by auto
    moreover have "unat (- 1 :: u32) = 2 ^ 32 - 1"
      by (simp add: unsigned_minus_1_eq_mask mask_eq_exp_minus_1)
    ultimately show ?thesis
      by (auto simp: MAX_PERSISTENT_ENV_ID_def EPHEMERAL_ENV_ID_def LINKER_ISOLATED_ENV_ID_def
          word_less_nat_alt word_unat_eq_iff)
  qed
  then show ?thesis by (auto simp: persistent_def)
qed

lemma from_encoded_persistent: "persistent i = Inr r \<Longrightarrow> from_encoded (encoded r) = r"
  by (simp add: persistent_not_reserved from_encoded_def)

lemma runtime_env_id_fresh:
  "persistent i = Inr r \<Longrightarrow> runtime_env_id r \<noteq> EPHEMERAL_ENV_ID"
  by (auto simp: persistent_not_reserved)

section \<open>Properties\<close>

text \<open>The \<open>u32\<close> storage field and the typed reference are two views of the same identity: decoding
  and encoding gives back the field, the fresh references are exactly those that share the ephemeral
  registry key, and an authored number is accepted exactly when it denotes a persistent reference.\<close>

theorem environment_views:
  "encoded (from_encoded i) = i \<and>
   (is_fresh (from_encoded i) \<longleftrightarrow> runtime_env_id (from_encoded i) = EPHEMERAL_ENV_ID) \<and>
   (persistent i = Inr r \<longleftrightarrow> r = from_encoded i \<and> is_persistent r)"
  by (auto simp: from_encoded_def persistent_not_reserved)

end
