(* ===== verification/Placement_Digest.thy ===== *)
theory Placement_Digest
  imports Prelude
begin

text \<open>
  The vocabulary of the placement protocol, \<^verbatim>\<open>crates/ostadix-api/src/placement/protocol/digest.rs\<close> and
  \<^verbatim>\<open>error.rs\<close>: validation errors, domain-separated digests, generations, and the checks on tokens,
  labels and validity windows. SHA-256 with its hexadecimal spelling is the parameter \<open>sha256\<close>.
\<close>

section \<open>Errors\<close>

datatype PlacementValidationError =
    EmptyField string
  | TooLong string nat
  | InvalidToken string string
  | InvalidDigest string
  | ZeroField string
  | InvalidValidity string
  | LifetimeExceeded string u64
  | NotYetValid string
  | Expired string
  | Unauthenticated string
  | ScopeMismatch string string string
  | UnsupportedCapabilityModel
  | ConservativeUnknown "string list"
  | Unsatisfiable "string list"
  | UnsupportedRequirement string
  | NonCurrentBackendCatalog string string
  | NonCurrentBackendImplementation string string
  | InsufficientCapacity
  | InvalidStateQuota string
  | StateQuotaExceeded string u64 u64
  | EmptyPinnedStateResources
  | MissingWarrant string
  | MissingDischarge string
  | ExtraneousDischarge string
  | WarrantAssertionMismatch string
  | WarrantTierNotAllowed string
  | NegativeVeto string
  | InsufficientHistoricalObservations u32 u32
  | CanonicalSerialization string
  | Duplicate string string
  | PlanNodeOutOfBounds nat nat

section \<open>Digests\<close>

definition SHA256_HEX_BYTES :: nat where
  "SHA256_HEX_BYTES = 64"

definition MAX_TOKEN_BYTES :: nat where
  "MAX_TOKEN_BYTES = 128"

definition MAX_LABEL_BYTES :: nat where
  "MAX_LABEL_BYTES = 256"

datatype SemanticDigestV1 = SemanticDigestV1 string

fun as_sha256 :: "SemanticDigestV1 \<Rightarrow> string" where
  "as_sha256 (SemanticDigestV1 value) = value"

definition is_lower_hex :: "char \<Rightarrow> bool" where
  "is_lower_hex c \<longleftrightarrow> is_digit c \<or> 97 \<le> char_code c \<and> char_code c \<le> 102"

definition from_sha256 :: "string \<Rightarrow> PlacementValidationError + SemanticDigestV1" where
  "from_sha256 value =
     (if length value \<noteq> SHA256_HEX_BYTES \<or> \<not> list_all is_lower_hex value
      then Inl (InvalidDigest ''semantic digest'') else Inr (SemanticDigestV1 value))"

text \<open>The bytes fed to the hash: both parts carry their length.\<close>

definition digest_preimage :: "string \<Rightarrow> bytes \<Rightarrow> bytes" where
  "digest_preimage domain bs =
     be_bytes 8 (length domain) @ as_bytes domain @ be_bytes 8 (length bs) @ bs"

definition hash_bytes :: "(bytes \<Rightarrow> string) \<Rightarrow> string \<Rightarrow> bytes \<Rightarrow> SemanticDigestV1" where
  "hash_bytes sha256 domain bs = SemanticDigestV1 (sha256 (digest_preimage domain bs))"

section \<open>Generations and times\<close>

datatype GenerationV1 = GenerationV1 u64

definition generation_new :: "u64 \<Rightarrow> PlacementValidationError + GenerationV1" where
  "generation_new value = (if value = 0 then Inl (ZeroField ''generation'') else Inr (GenerationV1 value))"

definition unix_millis_checked_add :: "u64 \<Rightarrow> u64 \<Rightarrow> u64 option" where
  "unix_millis_checked_add t duration_ms =
     (if unat t + unat duration_ms < 2 ^ 64 then Some (t + duration_ms) else None)"

section \<open>Checks\<close>

definition is_ascii_alphanumeric :: "char \<Rightarrow> bool" where
  "is_ascii_alphanumeric c \<longleftrightarrow> is_digit c \<or>
     65 \<le> char_code c \<and> char_code c \<le> 90 \<or> 97 \<le> char_code c \<and> char_code c \<le> 122"

definition token_byte :: "char \<Rightarrow> bool" where
  "token_byte c \<longleftrightarrow> is_ascii_alphanumeric c \<or> c \<in> set ''._-+:/''"

definition validate_token :: "string \<Rightarrow> string \<Rightarrow> PlacementValidationError + unit" where
  "validate_token field value =
     (if value = [] then Inl (EmptyField field)
      else if length value > MAX_TOKEN_BYTES then Inl (TooLong field MAX_TOKEN_BYTES)
      else if value = ''.'' \<or> value = ''..'' \<or> \<not> list_all token_byte value
      then Inl (InvalidToken field value)
      else Inr ())"

text \<open>\<open>char::is_control\<close>: the control characters are the bytes below 0x20, 0x7F, and the two-byte
  encodings from C2 80 to C2 9F.\<close>

fun has_control :: "string \<Rightarrow> bool" where
  "has_control [] = False"
| "has_control [c] = (char_code c < 0x20 \<or> char_code c = 0x7F)"
| "has_control (c # d # cs) =
     (char_code c < 0x20 \<or> char_code c = 0x7F \<or>
      char_code c = 0xC2 \<and> 0x80 \<le> char_code d \<and> char_code d \<le> 0x9F \<or> has_control (d # cs))"

definition validate_label :: "string \<Rightarrow> string \<Rightarrow> PlacementValidationError + unit" where
  "validate_label field value =
     (if value = [] then Inl (EmptyField field)
      else if length value > MAX_LABEL_BYTES then Inl (TooLong field MAX_LABEL_BYTES)
      else if has_control value then Inl (InvalidToken field value)
      else Inr ())"

definition validate_window :: "string \<Rightarrow> u64 \<Rightarrow> u64 \<Rightarrow> u64 \<Rightarrow> PlacementValidationError + unit" where
  "validate_window rec issued_at expires_at maximum_ms =
     (if expires_at \<le> issued_at then Inl (InvalidValidity rec)
      else if expires_at - issued_at > maximum_ms then Inl (LifetimeExceeded rec maximum_ms)
      else Inr ())"

definition validate_fresh :: "string \<Rightarrow> u64 \<Rightarrow> u64 \<Rightarrow> u64 \<Rightarrow> PlacementValidationError + unit" where
  "validate_fresh rec issued_at expires_at now =
     (if now < issued_at then Inl (NotYetValid rec)
      else if now \<ge> expires_at then Inl (Expired rec)
      else Inr ())"

section \<open>Laws\<close>

lemma as_sha256_hash_bytes [simp]:
  "as_sha256 (hash_bytes sha256 domain bs) = sha256 (digest_preimage domain bs)"
  by (simp add: hash_bytes_def)

lemma from_sha256_Inr_iff:
  "from_sha256 value = Inr d \<longleftrightarrow>
     d = SemanticDigestV1 value \<and> length value = SHA256_HEX_BYTES \<and> list_all is_lower_hex value"
  by (auto simp: from_sha256_def)

lemma from_sha256_as_sha256: "from_sha256 value = Inr d \<Longrightarrow> as_sha256 d = value"
  by (simp add: from_sha256_Inr_iff)

text \<open>A record that passes both checks is used within its lifetime bound of its issue.\<close>

lemma fresh_within_lifetime:
  assumes "validate_window r issued expires maximum = Inr ()" "validate_fresh r issued expires now = Inr ()"
  shows "unat now - unat issued < unat maximum" "issued \<le> now"
proof -
  have a: "issued < expires" "expires - issued \<le> maximum" "issued \<le> now" "now < expires"
    using assms by (auto simp: validate_window_def validate_fresh_def split: if_splits)
  then have "unat (expires - issued) = unat expires - unat issued"
    by (simp add: unat_sub)
  then show "unat now - unat issued < unat maximum"
    using a by (auto simp: word_less_nat_alt word_le_nat_alt)
  show "issued \<le> now" by (rule a(3))
qed

end
