(* ===== verification/Catalog.thy ===== *)
theory Catalog
  imports Placement_Digest
begin

text \<open>
  The compiled backend catalog, \<^verbatim>\<open>crates/ostadix-api/src/backend_catalog.rs\<close> with its declarative table
  \<^verbatim>\<open>backend_catalog.inc.rs\<close>: the specifications and runtime requirements, lookup by tag, the byte
  strings that the catalog identities hash, and the minting and checking of backend implementation
  identities. SHA-256 is the parameter \<open>sha256\<close> and the JSON spelling of a record is the parameter
  \<open>json\<close>; shim paths on disk are left out.
\<close>

section \<open>Vocabulary\<close>

datatype BackendAuthority = FileRead | FileWrite | Network | Process

fun authority_name :: "BackendAuthority \<Rightarrow> string" where
  "authority_name FileRead = ''fs_read''"
| "authority_name FileWrite = ''fs_write''"
| "authority_name Network = ''network''"
| "authority_name Process = ''process''"

definition authority_parse :: "string \<Rightarrow> BackendAuthority option" where
  "authority_parse name =
     (if name = ''fs_read'' then Some FileRead
      else if name = ''fs_write'' then Some FileWrite
      else if name = ''network'' then Some Network
      else if name = ''process'' then Some Process
      else None)"

datatype ExecutionMode = InlineAst | InlineValue | Shim

fun execution_label :: "ExecutionMode \<Rightarrow> string" where
  "execution_label InlineAst = ''inline_ast''"
| "execution_label InlineValue = ''inline_value''"
| "execution_label Shim = ''shim''"

datatype IntegerExactness =
    UnknownExactness
  | ExactMagnitudeBits u16
  | TwosComplementBits u16
  | ExactRange int int
  | ArbitraryExactness

fun exactness_label :: "IntegerExactness \<Rightarrow> string" where
  "exactness_label UnknownExactness = ''unknown''"
| "exactness_label (ExactMagnitudeBits _) = ''exact-magnitude-bits''"
| "exactness_label (TwosComplementBits _) = ''twos-complement-bits''"
| "exactness_label (ExactRange _ _) = ''exact-range''"
| "exactness_label ArbitraryExactness = ''arbitrary''"

datatype RichNumberPreservation = RichUnknown | Preserved | Collapsed

fun rich_label :: "RichNumberPreservation \<Rightarrow> string" where
  "rich_label RichUnknown = ''unknown''"
| "rich_label Preserved = ''preserved''"
| "rich_label Collapsed = ''collapsed''"

record value_capabilities =
  integer_exactness :: IntegerExactness
  rich_numbers :: RichNumberPreservation

definition UNKNOWN_CAPABILITIES :: value_capabilities where
  "UNKNOWN_CAPABILITIES = \<lparr>integer_exactness = UnknownExactness, rich_numbers = RichUnknown\<rparr>"

datatype SpliceRenderer =
    PythonRenderer | HtmlRenderer | LatexRenderer | MarkdownRenderer | NixRenderer | DefaultRenderer

fun renderer_label :: "SpliceRenderer \<Rightarrow> string" where
  "renderer_label PythonRenderer = ''python''"
| "renderer_label HtmlRenderer = ''html''"
| "renderer_label LatexRenderer = ''latex''"
| "renderer_label MarkdownRenderer = ''markdown''"
| "renderer_label NixRenderer = ''nix''"
| "renderer_label DefaultRenderer = ''default''"

datatype BackendAdapterKind = InlineAdapter | NativeRust | LegacyPythonShim

fun adapter_name :: "BackendAdapterKind \<Rightarrow> string" where
  "adapter_name InlineAdapter = ''inline''"
| "adapter_name NativeRust = ''native-rust''"
| "adapter_name LegacyPythonShim = ''legacy-python-shim''"

datatype RuntimeRequirementPrecision = Exact | ConservativeAllSources

fun precision_name :: "RuntimeRequirementPrecision \<Rightarrow> string" where
  "precision_name Exact = ''exact''"
| "precision_name ConservativeAllSources = ''conservative-all-sources''"

text \<open>Alternatives are an ordered disjunction of ordered conjunctions of commands.\<close>

record runtime_requirement =
  req_key :: string
  req_builtin :: bool
  req_precision :: RuntimeRequirementPrecision
  req_alternatives :: "string list list"

datatype BackendMorphismProfileV1 = PythonPlainData | JavascriptBindingStdout | RustSourceConstantStdout

fun profile_name :: "BackendMorphismProfileV1 \<Rightarrow> string" where
  "profile_name PythonPlainData = ''python-plain-data''"
| "profile_name JavascriptBindingStdout = ''javascript-binding-stdout''"
| "profile_name RustSourceConstantStdout = ''rust-source-constant-stdout''"

datatype SnapshotCompatibilityV2 = ExactImplementation | CompatibilityClass SemanticDigestV1

datatype BackendStateSupportV2 =
    Stateless
  | SemanticSnapshot SemanticDigestV1 SnapshotCompatibilityV2
  | ExternalPinned SemanticDigestV1

record backend_spec =
  spec_name :: string
  spec_aliases :: "string list"
  spec_pure :: bool
  spec_renderer :: SpliceRenderer
  spec_execution :: ExecutionMode
  spec_required_authorities :: "BackendAuthority list"
  spec_adapter :: BackendAdapterKind
  spec_runtime_requirement_key :: string
  spec_value_capabilities :: value_capabilities
  spec_state_support :: BackendStateSupportV2

definition spec_matches :: "backend_spec \<Rightarrow> string \<Rightarrow> bool" where
  "spec_matches spec lang \<longleftrightarrow> spec_name spec = lang \<or> lang \<in> set (spec_aliases spec)"

section \<open>The table\<close>

definition BACKEND_CATALOG_SCHEMA_V3 :: string where
  "BACKEND_CATALOG_SCHEMA_V3 = ''ostadix.backend-catalog/v3''"

definition BACKEND_CATALOG_SCHEMA_V4 :: string where
  "BACKEND_CATALOG_SCHEMA_V4 = ''ostadix.backend-catalog/v4''"

definition BACKEND_CATALOG_SCHEMA_V5 :: string where
  "BACKEND_CATALOG_SCHEMA_V5 = ''ostadix.backend-catalog/v5''"

definition BACKEND_CATALOG_SCHEMA_V6 :: string where
  "BACKEND_CATALOG_SCHEMA_V6 = ''ostadix.backend-catalog/v6''"

abbreviation BACKEND_CATALOG_CURRENT_SCHEMA :: string where
  "BACKEND_CATALOG_CURRENT_SCHEMA \<equiv> BACKEND_CATALOG_SCHEMA_V6"

definition requirement ::
  "string \<Rightarrow> bool \<Rightarrow> RuntimeRequirementPrecision \<Rightarrow> string list list \<Rightarrow> runtime_requirement" where
  "requirement key builtin precision alternatives =
     \<lparr>req_key = key, req_builtin = builtin, req_precision = precision, req_alternatives = alternatives\<rparr>"

definition UNKNOWN_RUNTIME_REQUIREMENT :: runtime_requirement where
  "UNKNOWN_RUNTIME_REQUIREMENT =
     requirement ''unknown-legacy-python-shim'' False ConservativeAllSources [[''python3'']]"

text \<open>One row of the table expands to a specification and to a profile assignment.\<close>

type_synonym catalog_row = "backend_spec \<times> BackendMorphismProfileV1 option"

definition row ::
  "string \<Rightarrow> string list \<Rightarrow> bool \<Rightarrow> SpliceRenderer \<Rightarrow> ExecutionMode \<Rightarrow> BackendAuthority list \<Rightarrow>
   BackendAdapterKind \<Rightarrow> string \<Rightarrow> IntegerExactness \<Rightarrow> RichNumberPreservation \<Rightarrow> BackendStateSupportV2 \<Rightarrow>
   BackendMorphismProfileV1 option \<Rightarrow> catalog_row" where
  "row name aliases pure renderer execution authorities adapter runtime exactness rich state profile =
     (\<lparr>spec_name = name, spec_aliases = aliases, spec_pure = pure, spec_renderer = renderer,
       spec_execution = execution, spec_required_authorities = authorities, spec_adapter = adapter,
       spec_runtime_requirement_key = runtime,
       spec_value_capabilities = \<lparr>integer_exactness = exactness, rich_numbers = rich\<rparr>,
       spec_state_support = state\<rparr>, profile)"

definition snapshot_state ::
  "(bytes \<Rightarrow> string) \<Rightarrow> string \<Rightarrow> SnapshotCompatibilityV2 \<Rightarrow> BackendStateSupportV2" where
  "snapshot_state sha256 codec compatibility =
     SemanticSnapshot (hash_bytes sha256 ''ostadix/backend-state-codec-name/v2'' (as_bytes codec)) compatibility"

definition pinned_state :: "(bytes \<Rightarrow> string) \<Rightarrow> string \<Rightarrow> BackendStateSupportV2" where
  "pinned_state sha256 manifest_schema =
     ExternalPinned (hash_bytes sha256 ''ostadix/external-state-manifest-schema-name/v2'' (as_bytes manifest_schema))"

definition RUNTIME_REQUIREMENT_SPECS :: "runtime_requirement list" where
  "RUNTIME_REQUIREMENT_SPECS =
     [
      requirement ''builtin'' True Exact [],
      requirement ''python'' False Exact [[''python3'']],
      requirement ''bash'' False Exact [[''bash'']],
      requirement ''shell'' False Exact [[''sh'']],
      requirement ''javascript'' False Exact [[''node'']],
      requirement ''ruby'' False Exact [[''ruby'']],
      requirement ''rust'' False Exact [[''rustc'']],
      requirement ''c'' False Exact [[''cc'']],
      requirement ''cpp'' False Exact [[''g++'']],
      requirement ''java'' False Exact [[''javac'', ''java'']],
      requirement ''nix'' False Exact [[''nix'']],
      requirement ''nixos_test'' False ConservativeAllSources [[''python3'', ''nix'']],
      requirement ''sql'' False Exact [[''sqlite3'']],
      requirement ''haskell'' False Exact [[''runghc''], [''ghc'']],
      requirement ''ocaml'' False Exact [[''ocaml''], [''ocamlopt''], [''ocamlc'']],
      requirement ''racket'' False Exact [[''racket'']],
      requirement ''common_lisp'' False Exact [[''sbcl''], [''clisp'']],
      requirement ''csharp'' False Exact [[''dotnet''], [''mcs'', ''mono'']],
      requirement ''matlab'' False Exact [[''octave''], [''matlab'']],
      requirement ''mathematica'' False Exact [[''wolframscript'']],
      requirement ''webassembly'' False ConservativeAllSources [[''wat2wasm'', ''wasmtime''], [''wat2wasm'', ''wasmer''], [''wasm-tools'', ''wasmtime''], [''wasm-tools'', ''wasmer'']],
      requirement ''ubuntu_vm'' False Exact [[''python3'', ''multipass'']]]"

definition CATALOG_ROWS_A :: "(bytes \<Rightarrow> string) \<Rightarrow> catalog_row list" where
  "CATALOG_ROWS_A sha256 =
     [
      row ''O'' [''o''] False DefaultRenderer InlineAst []
        InlineAdapter ''builtin'' ArbitraryExactness Preserved Stateless None,
      row ''quote'' [] False DefaultRenderer InlineAst []
        InlineAdapter ''builtin'' UnknownExactness RichUnknown Stateless None,
      row ''nix'' [] False NixRenderer Shim [FileRead, FileWrite, Network, Process]
        NativeRust ''nix'' (TwosComplementBits 63) Collapsed Stateless None,
      row ''nix_expr'' [] True DefaultRenderer InlineValue []
        NativeRust ''builtin'' (TwosComplementBits 63) Collapsed Stateless None,
      row ''nix_store'' [] False NixRenderer Shim [FileRead, FileWrite, Network, Process]
        NativeRust ''nix'' (TwosComplementBits 63) Collapsed Stateless None,
      row ''nixos_test'' [] False NixRenderer Shim [FileRead, FileWrite, Network, Process]
        LegacyPythonShim ''nixos_test'' UnknownExactness RichUnknown Stateless None,
      row ''html'' [] True HtmlRenderer InlineValue []
        InlineAdapter ''builtin'' ArbitraryExactness Collapsed Stateless None,
      row ''markdown'' [''md''] True MarkdownRenderer InlineValue []
        InlineAdapter ''builtin'' ArbitraryExactness Collapsed Stateless None,
      row ''latex'' [''tex''] True LatexRenderer InlineValue []
        InlineAdapter ''builtin'' ArbitraryExactness Collapsed Stateless None,
      row ''text'' [''plain''] True DefaultRenderer InlineValue []
        InlineAdapter ''builtin'' ArbitraryExactness Collapsed Stateless None]"

definition CATALOG_ROWS_B :: "(bytes \<Rightarrow> string) \<Rightarrow> catalog_row list" where
  "CATALOG_ROWS_B sha256 =
     [
      row ''sql'' [] False DefaultRenderer Shim []
        NativeRust ''sql'' (TwosComplementBits 63) Collapsed (snapshot_state sha256 ''ostadix.sqlite-cli-main/v1'' ExactImplementation) None,
      row ''haskell'' [] False DefaultRenderer Shim [FileWrite, Process]
        NativeRust ''haskell'' ArbitraryExactness Preserved Stateless None,
      row ''ocaml'' [] False DefaultRenderer Shim [FileWrite, Process]
        NativeRust ''ocaml'' UnknownExactness RichUnknown Stateless None,
      row ''webassembly'' [] False DefaultRenderer Shim [FileWrite, Process]
        NativeRust ''webassembly'' (TwosComplementBits 63) Collapsed Stateless None,
      row ''python'' [''py''] False PythonRenderer Shim []
        LegacyPythonShim ''python'' ArbitraryExactness Preserved (snapshot_state sha256 ''ostadix.python-graph/v1'' ExactImplementation) (Some PythonPlainData),
      row ''ubuntu_vm'' [''ubuntu''] False DefaultRenderer Shim [Process]
        LegacyPythonShim ''ubuntu_vm'' UnknownExactness RichUnknown (pinned_state sha256 ''ostadix.multipass-resource/v1'') None,
      row ''bash'' [] False DefaultRenderer Shim [Process]
        NativeRust ''bash'' UnknownExactness RichUnknown Stateless None,
      row ''shell'' [] False DefaultRenderer Shim [Process]
        NativeRust ''shell'' UnknownExactness RichUnknown Stateless None,
      row ''rust'' [] False DefaultRenderer Shim [FileWrite, Process]
        NativeRust ''rust'' (TwosComplementBits 63) Collapsed Stateless (Some RustSourceConstantStdout),
      row ''racket'' [] False DefaultRenderer Shim [FileWrite, Process]
        NativeRust ''racket'' ArbitraryExactness Preserved Stateless None]"

definition CATALOG_ROWS_C :: "(bytes \<Rightarrow> string) \<Rightarrow> catalog_row list" where
  "CATALOG_ROWS_C sha256 =
     [
      row ''csharp'' [] False DefaultRenderer Shim [FileWrite, Process]
        NativeRust ''csharp'' (TwosComplementBits 63) Collapsed Stateless None,
      row ''c'' [] False DefaultRenderer Shim [FileWrite, Process]
        NativeRust ''c'' (TwosComplementBits 63) Collapsed Stateless None,
      row ''cpp'' [] False DefaultRenderer Shim [FileWrite, Process]
        NativeRust ''cpp'' (TwosComplementBits 63) Collapsed Stateless None,
      row ''lisp'' [] False DefaultRenderer Shim [FileWrite, Process]
        NativeRust ''common_lisp'' ArbitraryExactness Collapsed Stateless None,
      row ''common_lisp'' [] False DefaultRenderer Shim [FileWrite, Process]
        NativeRust ''common_lisp'' ArbitraryExactness Collapsed Stateless None,
      row ''ruby'' [] False DefaultRenderer Shim [FileWrite, Process]
        NativeRust ''ruby'' ArbitraryExactness Collapsed Stateless None,
      row ''matlab'' [] False DefaultRenderer Shim [FileWrite, Process]
        NativeRust ''matlab'' (ExactMagnitudeBits 53) Collapsed Stateless None,
      row ''mathematica'' [] False DefaultRenderer Shim [FileWrite, Process]
        NativeRust ''mathematica'' ArbitraryExactness Preserved Stateless None,
      row ''java'' [] False DefaultRenderer Shim [FileWrite, Process]
        NativeRust ''java'' (TwosComplementBits 63) Collapsed Stateless None,
      row ''javascript'' [] False DefaultRenderer Shim [FileWrite, Process]
        NativeRust ''javascript'' (ExactMagnitudeBits 53) Collapsed Stateless (Some JavascriptBindingStdout)]"

definition BACKEND_ROWS :: "(bytes \<Rightarrow> string) \<Rightarrow> catalog_row list" where
  "BACKEND_ROWS sha256 = CATALOG_ROWS_A sha256 @ CATALOG_ROWS_B sha256 @ CATALOG_ROWS_C sha256"

definition BACKEND_SPECS :: "(bytes \<Rightarrow> string) \<Rightarrow> backend_spec list" where
  "BACKEND_SPECS sha256 = map fst (BACKEND_ROWS sha256)"

definition PROFILE_ASSIGNMENTS :: "(bytes \<Rightarrow> string) \<Rightarrow> (string \<times> BackendMorphismProfileV1 option) list" where
  "PROFILE_ASSIGNMENTS sha256 = map (\<lambda>(spec, profile). (spec_name spec, profile)) (BACKEND_ROWS sha256)"

definition ARCHIVAL_WEBASSEMBLY_REQUIREMENT_V5 :: runtime_requirement where
  "ARCHIVAL_WEBASSEMBLY_REQUIREMENT_V5 =
     requirement ''webassembly'' False ConservativeAllSources
       [[''wat2wasm'', ''wasmtime''], [''wat2wasm'', ''wasmer'']]"

definition archival_runtime_requirement_v5 :: "runtime_requirement \<Rightarrow> runtime_requirement" where
  "archival_runtime_requirement_v5 r =
     (if req_key r = ''webassembly'' then ARCHIVAL_WEBASSEMBLY_REQUIREMENT_V5 else r)"

section \<open>What the identities hash\<close>

definition catalog_hash_field :: "bytes \<Rightarrow> bytes" where
  "catalog_hash_field bs = be_bytes 8 (length bs) @ bs"

definition catalog_hash_count :: "nat \<Rightarrow> bytes" where
  "catalog_hash_count n = be_bytes 8 n"

abbreviation hash_str :: "string \<Rightarrow> bytes" where
  "hash_str s \<equiv> catalog_hash_field (as_bytes s)"

definition hash_list :: "('a \<Rightarrow> bytes) \<Rightarrow> 'a list \<Rightarrow> bytes" where
  "hash_list f xs = catalog_hash_count (length xs) @ concat (map f xs)"

definition hash_runtime_requirement :: "runtime_requirement \<Rightarrow> bytes" where
  "hash_runtime_requirement r =
     hash_str (req_key r) @
     hash_str (if req_builtin r then ''builtin'' else ''external'') @
     hash_str (precision_name (req_precision r)) @
     hash_list (hash_list hash_str) (req_alternatives r)"

text \<open>\<open>to_str_radix(10)\<close> of a \<open>BigInt\<close>.\<close>

definition show_int :: "int \<Rightarrow> string" where
  "show_int i = (if i < 0 then CHR ''-'' # show_nat (nat (- i)) else show_nat (nat i))"

fun hash_exactness_arguments :: "IntegerExactness \<Rightarrow> bytes" where
  "hash_exactness_arguments (ExactMagnitudeBits bits) = catalog_hash_field (be_bytes 2 (unat bits))"
| "hash_exactness_arguments (TwosComplementBits bits) = catalog_hash_field (be_bytes 2 (unat bits))"
| "hash_exactness_arguments (ExactRange lo hi) = hash_str (show_int lo) @ hash_str (show_int hi)"
| "hash_exactness_arguments UnknownExactness = []"
| "hash_exactness_arguments ArbitraryExactness = []"

definition hash_backend_spec_v3 :: "backend_spec \<Rightarrow> runtime_requirement \<Rightarrow> bytes" where
  "hash_backend_spec_v3 spec r =
     hash_str (spec_name spec) @
     hash_list hash_str (spec_aliases spec) @
     hash_str (if spec_pure spec then ''pure'' else ''impure'') @
     hash_str (renderer_label (spec_renderer spec)) @
     hash_str (execution_label (spec_execution spec)) @
     hash_list (\<lambda>a. hash_str (authority_name a)) (spec_required_authorities spec) @
     hash_str (adapter_name (spec_adapter spec)) @
     hash_str (spec_runtime_requirement_key spec) @
     hash_str (exactness_label (integer_exactness (spec_value_capabilities spec))) @
     hash_exactness_arguments (integer_exactness (spec_value_capabilities spec)) @
     hash_str (rich_label (rich_numbers (spec_value_capabilities spec))) @
     hash_runtime_requirement r"

fun hash_state_support :: "BackendStateSupportV2 \<Rightarrow> bytes" where
  "hash_state_support Stateless = hash_str ''stateless''"
| "hash_state_support (SemanticSnapshot codec compatibility) =
     hash_str ''semantic-snapshot'' @ hash_str (as_sha256 codec) @
     (case compatibility of
        ExactImplementation \<Rightarrow> hash_str ''exact-implementation''
      | CompatibilityClass c \<Rightarrow> hash_str ''compatibility-class'' @ hash_str (as_sha256 c))"
| "hash_state_support (ExternalPinned manifest_schema) =
     hash_str ''external-pinned'' @ hash_str (as_sha256 manifest_schema)"

definition hash_backend_spec_v4 :: "backend_spec \<Rightarrow> runtime_requirement \<Rightarrow> bytes" where
  "hash_backend_spec_v4 spec r = hash_backend_spec_v3 spec r @ hash_state_support (spec_state_support spec)"

definition hash_profile :: "BackendMorphismProfileV1 option \<Rightarrow> bytes" where
  "hash_profile profile =
     (case profile of
        None \<Rightarrow> hash_str ''no-backend-morphism-profile''
      | Some p \<Rightarrow> hash_str ''backend-morphism-profile'' @ hash_str (profile_name p))"

definition hash_backend_spec_v5 ::
  "backend_spec \<Rightarrow> runtime_requirement \<Rightarrow> BackendMorphismProfileV1 option \<Rightarrow> bytes" where
  "hash_backend_spec_v5 spec r profile = hash_backend_spec_v4 spec r @ hash_profile profile"

definition hash_backend_spec_v6 ::
  "backend_spec \<Rightarrow> runtime_requirement \<Rightarrow> BackendMorphismProfileV1 option \<Rightarrow> bytes" where
  "hash_backend_spec_v6 spec r profile = hash_backend_spec_v5 spec r profile"

section \<open>The registry\<close>

definition DEFAULT_SPEC :: backend_spec where
  "DEFAULT_SPEC =
     \<lparr>spec_name = [], spec_aliases = [], spec_pure = False, spec_renderer = DefaultRenderer,
      spec_execution = Shim, spec_required_authorities = [FileRead, FileWrite, Network, Process],
      spec_adapter = LegacyPythonShim,
      spec_runtime_requirement_key = ''unknown-legacy-python-shim'',
      spec_value_capabilities = UNKNOWN_CAPABILITIES, spec_state_support = Stateless\<rparr>"

definition registry_get :: "backend_spec list \<Rightarrow> string \<Rightarrow> backend_spec option" where
  "registry_get specs lang = find (\<lambda>s. spec_matches s lang) specs"

definition registry_canonical :: "backend_spec list \<Rightarrow> string \<Rightarrow> string" where
  "registry_canonical specs lang =
     (case registry_get specs lang of Some s \<Rightarrow> spec_name s | None \<Rightarrow> lang)"

definition registry_spec_or_default :: "backend_spec list \<Rightarrow> string \<Rightarrow> backend_spec" where
  "registry_spec_or_default specs lang =
     (case registry_get specs lang of Some s \<Rightarrow> s | None \<Rightarrow> DEFAULT_SPEC)"

definition registry_execution :: "backend_spec list \<Rightarrow> string \<Rightarrow> ExecutionMode" where
  "registry_execution specs lang = spec_execution (registry_spec_or_default specs lang)"

definition runtime_requirements_for :: "backend_spec list \<Rightarrow> string \<Rightarrow> runtime_requirement" where
  "runtime_requirements_for specs lang =
     (let key = spec_runtime_requirement_key (registry_spec_or_default specs lang) in
      case find (\<lambda>r. req_key r = key) RUNTIME_REQUIREMENT_SPECS of
        Some r \<Rightarrow> r | None \<Rightarrow> UNKNOWN_RUNTIME_REQUIREMENT)"

definition runtime_requirements_for_v5 :: "backend_spec list \<Rightarrow> string \<Rightarrow> runtime_requirement" where
  "runtime_requirements_for_v5 specs lang = archival_runtime_requirement_v5 (runtime_requirements_for specs lang)"

definition adapter_for :: "backend_spec list \<Rightarrow> string \<Rightarrow> BackendAdapterKind" where
  "adapter_for specs lang = spec_adapter (registry_spec_or_default specs lang)"

definition value_capabilities_for :: "backend_spec list \<Rightarrow> string \<Rightarrow> value_capabilities" where
  "value_capabilities_for specs lang =
     (case registry_get specs lang of None \<Rightarrow> UNKNOWN_CAPABILITIES | Some s \<Rightarrow> spec_value_capabilities s)"

definition state_support_for :: "backend_spec list \<Rightarrow> string \<Rightarrow> BackendStateSupportV2 option" where
  "state_support_for specs lang = map_option spec_state_support (registry_get specs lang)"

definition is_pure :: "backend_spec list \<Rightarrow> string \<Rightarrow> bool" where
  "is_pure specs lang = (case registry_get specs lang of None \<Rightarrow> False | Some s \<Rightarrow> spec_pure s)"

definition renderer_for :: "backend_spec list \<Rightarrow> string \<Rightarrow> SpliceRenderer" where
  "renderer_for specs lang = spec_renderer (registry_spec_or_default specs lang)"

definition registered_backend_names :: "backend_spec list \<Rightarrow> string list" where
  "registered_backend_names specs = concat (map (\<lambda>s. spec_name s # spec_aliases s) specs)"

definition morphism_profile_for ::
  "(string \<times> BackendMorphismProfileV1 option) list \<Rightarrow> backend_spec list \<Rightarrow> string \<Rightarrow>
   BackendMorphismProfileV1 option" where
  "morphism_profile_for assignments specs lang =
     (case registry_get specs lang of
        None \<Rightarrow> None
      | Some s \<Rightarrow>
        (case find (\<lambda>(name, _). name = spec_name s) assignments of
           None \<Rightarrow> None | Some (_, profile) \<Rightarrow> profile))"

section \<open>Interfaces\<close>

record backend_interface =
  bi_canonical :: string
  bi_specification_sha256 :: "string option"
  bi_pure :: bool
  bi_renderer :: SpliceRenderer
  bi_execution :: ExecutionMode
  bi_value_capabilities :: value_capabilities
  bi_state_support :: "BackendStateSupportV2 option"
  bi_required_authorities :: "BackendAuthority list"

text \<open>
  The catalog as the registry sees it: its specifications, the profile assignments, and the hash.
\<close>

record catalog =
  cat_specs :: "backend_spec list"
  cat_profiles :: "(string \<times> BackendMorphismProfileV1 option) list"
  cat_sha256 :: "bytes \<Rightarrow> string"

definition global :: "(bytes \<Rightarrow> string) \<Rightarrow> catalog" where
  "global sha256 = \<lparr>cat_specs = BACKEND_SPECS sha256, cat_profiles = PROFILE_ASSIGNMENTS sha256,
     cat_sha256 = sha256\<rparr>"

definition specification_preimage_v3 :: "catalog \<Rightarrow> backend_spec \<Rightarrow> bytes" where
  "specification_preimage_v3 C spec =
     hash_str BACKEND_CATALOG_SCHEMA_V3 @
     hash_backend_spec_v3 spec (runtime_requirements_for_v5 (cat_specs C) (spec_name spec))"

definition specification_preimage_v4 :: "catalog \<Rightarrow> backend_spec \<Rightarrow> bytes" where
  "specification_preimage_v4 C spec =
     hash_str BACKEND_CATALOG_SCHEMA_V4 @
     hash_backend_spec_v4 spec (runtime_requirements_for_v5 (cat_specs C) (spec_name spec))"

definition specification_preimage_v5 :: "catalog \<Rightarrow> backend_spec \<Rightarrow> bytes" where
  "specification_preimage_v5 C spec =
     hash_str BACKEND_CATALOG_SCHEMA_V5 @
     hash_backend_spec_v5 spec (runtime_requirements_for_v5 (cat_specs C) (spec_name spec))
       (morphism_profile_for (cat_profiles C) (cat_specs C) (spec_name spec))"

definition specification_preimage_v6 :: "catalog \<Rightarrow> backend_spec \<Rightarrow> bytes" where
  "specification_preimage_v6 C spec =
     hash_str BACKEND_CATALOG_SCHEMA_V6 @
     hash_backend_spec_v6 spec (runtime_requirements_for (cat_specs C) (spec_name spec))
       (morphism_profile_for (cat_profiles C) (cat_specs C) (spec_name spec))"

definition specification_sha256_v3 :: "catalog \<Rightarrow> string \<Rightarrow> string option" where
  "specification_sha256_v3 C lang =
     map_option (\<lambda>spec. cat_sha256 C (specification_preimage_v3 C spec)) (registry_get (cat_specs C) lang)"

definition specification_sha256_v4 :: "catalog \<Rightarrow> string \<Rightarrow> string option" where
  "specification_sha256_v4 C lang =
     map_option (\<lambda>spec. cat_sha256 C (specification_preimage_v4 C spec)) (registry_get (cat_specs C) lang)"

definition specification_sha256_v5 :: "catalog \<Rightarrow> string \<Rightarrow> string option" where
  "specification_sha256_v5 C lang =
     map_option (\<lambda>spec. cat_sha256 C (specification_preimage_v5 C spec)) (registry_get (cat_specs C) lang)"

definition specification_sha256_v6 :: "catalog \<Rightarrow> string \<Rightarrow> string option" where
  "specification_sha256_v6 C lang =
     map_option (\<lambda>spec. cat_sha256 C (specification_preimage_v6 C spec)) (registry_get (cat_specs C) lang)"

abbreviation specification_sha256 :: "catalog \<Rightarrow> string \<Rightarrow> string option" where
  "specification_sha256 \<equiv> specification_sha256_v6"

definition contains_specification_sha256 :: "catalog \<Rightarrow> string \<Rightarrow> bool" where
  "contains_specification_sha256 C digest =
     list_ex (\<lambda>spec. specification_sha256 C (spec_name spec) = Some digest) (cat_specs C)"

definition interface_for :: "catalog \<Rightarrow> string \<Rightarrow> backend_interface" where
  "interface_for C lang =
     (let spec = registry_spec_or_default (cat_specs C) lang in
      \<lparr>bi_canonical = registry_canonical (cat_specs C) lang,
       bi_specification_sha256 = specification_sha256 C lang,
       bi_pure = spec_pure spec, bi_renderer = spec_renderer spec, bi_execution = spec_execution spec,
       bi_value_capabilities = spec_value_capabilities spec,
       bi_state_support = state_support_for (cat_specs C) lang,
       bi_required_authorities = spec_required_authorities spec\<rparr>)"

text \<open>The identities of the whole catalog, in its stable order.\<close>

definition catalog_preimage ::
  "string \<Rightarrow> (runtime_requirement \<Rightarrow> runtime_requirement) \<Rightarrow> (backend_spec \<Rightarrow> bytes) \<Rightarrow> backend_spec list \<Rightarrow>
   bytes" where
  "catalog_preimage schema archived hash_spec specs =
     hash_str schema @
     hash_list (\<lambda>r. hash_runtime_requirement (archived r)) RUNTIME_REQUIREMENT_SPECS @
     hash_list hash_spec specs"

definition catalog_sha256_v3 :: "catalog \<Rightarrow> string" where
  "catalog_sha256_v3 C = cat_sha256 C (catalog_preimage BACKEND_CATALOG_SCHEMA_V3 archival_runtime_requirement_v5
     (\<lambda>spec. hash_backend_spec_v3 spec (runtime_requirements_for_v5 (cat_specs C) (spec_name spec))) (cat_specs C))"

definition catalog_sha256_v4 :: "catalog \<Rightarrow> string" where
  "catalog_sha256_v4 C = cat_sha256 C (catalog_preimage BACKEND_CATALOG_SCHEMA_V4 archival_runtime_requirement_v5
     (\<lambda>spec. hash_backend_spec_v4 spec (runtime_requirements_for_v5 (cat_specs C) (spec_name spec))) (cat_specs C))"

definition catalog_sha256_v5 :: "catalog \<Rightarrow> string" where
  "catalog_sha256_v5 C = cat_sha256 C (catalog_preimage BACKEND_CATALOG_SCHEMA_V5 archival_runtime_requirement_v5
     (\<lambda>spec. hash_backend_spec_v5 spec (runtime_requirements_for_v5 (cat_specs C) (spec_name spec))
        (morphism_profile_for (cat_profiles C) (cat_specs C) (spec_name spec))) (cat_specs C))"

definition catalog_sha256_v6 :: "catalog \<Rightarrow> string" where
  "catalog_sha256_v6 C = cat_sha256 C (catalog_preimage BACKEND_CATALOG_SCHEMA_V6 id
     (\<lambda>spec. hash_backend_spec_v6 spec (runtime_requirements_for (cat_specs C) (spec_name spec))
        (morphism_profile_for (cat_profiles C) (cat_specs C) (spec_name spec))) (cat_specs C))"

section \<open>Lookup\<close>

lemma registry_get_Some:
  "registry_get specs lang = Some s \<Longrightarrow> s \<in> set specs \<and> spec_matches s lang"
  by (auto simp: registry_get_def find_Some_iff)

lemma registry_get_None:
  "registry_get specs lang = None \<longleftrightarrow> lang \<notin> set (registered_backend_names specs)"
  by (auto simp: registry_get_def find_None_iff registered_backend_names_def spec_matches_def)

text \<open>With distinct tags every tag of a row finds that row.\<close>

lemma registry_get_own:
  assumes "distinct (registered_backend_names specs)" "s \<in> set specs" "spec_matches s lang"
  shows "registry_get specs lang = Some s"
  using assms
proof (induction specs)
  case (Cons a specs)
  show ?case
  proof (cases "spec_matches a lang")
    case True
    have "s = a"
    proof (rule ccontr)
      assume "s \<noteq> a"
      then have "lang \<in> set (registered_backend_names specs)"
        using Cons.prems by (auto simp: registered_backend_names_def spec_matches_def)
      moreover have "lang \<in> set (spec_name a # spec_aliases a)" using True by (auto simp: spec_matches_def)
      ultimately show False using Cons.prems(1) by (auto simp: registered_backend_names_def)
    qed
    then show ?thesis using True by (simp add: registry_get_def)
  next
    case False
    then show ?thesis using Cons by (auto simp: registry_get_def registered_backend_names_def)
  qed
qed simp

text \<open>A tag and the canonical name it stands for have the same interface.\<close>

lemma registry_get_canonical:
  assumes "distinct (registered_backend_names specs)"
  shows "registry_get specs (registry_canonical specs lang) = registry_get specs lang"
proof (cases "registry_get specs lang")
  case (Some s)
  then have "s \<in> set specs" by (rule registry_get_Some [THEN conjunct1])
  then have "registry_get specs (spec_name s) = Some s"
    using assms by (intro registry_get_own) (simp_all add: spec_matches_def)
  then show ?thesis using Some by (simp add: registry_canonical_def)
qed (simp add: registry_canonical_def)

lemma interface_for_canonical:
  assumes "distinct (registered_backend_names (cat_specs C))"
  shows "interface_for C (registry_canonical (cat_specs C) lang) = interface_for C lang"
  using registry_get_canonical [OF assms, of lang]
  by (cases "registry_get (cat_specs C) lang")
    (simp_all add: interface_for_def registry_spec_or_default_def registry_canonical_def
      specification_sha256_v6_def state_support_for_def)

text \<open>The compiled table.\<close>

lemmas table_defs = BACKEND_SPECS_def BACKEND_ROWS_def CATALOG_ROWS_A_def CATALOG_ROWS_B_def
  CATALOG_ROWS_C_def row_def

lemma global_names:
  "registered_backend_names (BACKEND_SPECS sha256) =
     [''O'', ''o'', ''quote'', ''nix'', ''nix_expr'', ''nix_store'', ''nixos_test'', ''html'',
      ''markdown'', ''md'', ''latex'', ''tex'', ''text'', ''plain'', ''sql'', ''haskell'', ''ocaml'',
      ''webassembly'', ''python'', ''py'', ''ubuntu_vm'', ''ubuntu'', ''bash'', ''shell'', ''rust'',
      ''racket'', ''csharp'', ''c'', ''cpp'', ''lisp'', ''common_lisp'', ''ruby'', ''matlab'',
      ''mathematica'', ''java'', ''javascript'']"
  by (simp add: registered_backend_names_def table_defs)

lemma global_names_distinct: "distinct (registered_backend_names (BACKEND_SPECS sha256))"
  unfolding global_names by code_simp

end
