(* ===== verification/Syntax.thy ===== *)
theory Syntax
  imports Environment Catalog
begin

text \<open>
  The lexical layer of the parser, \<^verbatim>\<open>crates/ostadix-api/src/parser.rs\<close>, with the parser-facing view
  of the backend catalog, \<^verbatim>\<open>crates/ostadix-api/src/syntax_dialect.rs\<close>: character classes, syntax
  nodes, tags, the scan of one opener, closer matching, and escaping. A source is the list of its
  UTF-8 bytes, a position is a byte offset, and \<open>substr S a b\<close> is \<open>&source[a..b]\<close>.
\<close>

section \<open>Bytes and positions\<close>

definition is_ascii_alphabetic :: "char \<Rightarrow> bool" where
  "is_ascii_alphabetic c \<longleftrightarrow>
     65 \<le> char_code c \<and> char_code c \<le> 90 \<or> 97 \<le> char_code c \<and> char_code c \<le> 122"

definition is_ident_start :: "char \<Rightarrow> bool" where
  "is_ident_start c \<longleftrightarrow> is_ascii_alphabetic c \<or> c = CHR ''_''"

definition is_ident_continue :: "char \<Rightarrow> bool" where
  "is_ident_continue c \<longleftrightarrow> is_ascii_alphabetic c \<or> is_digit c \<or> c = CHR ''_''"

definition is_attribute_value_continue :: "char \<Rightarrow> bool" where
  "is_attribute_value_continue c \<longleftrightarrow>
     33 \<le> char_code c \<and> char_code c \<le> 126 \<and> c \<notin> {CHR ''{'', CHR ''}'', CHR '','', CHR ''=''}"

abbreviation newline :: char where
  "newline \<equiv> CHR 0x0A"

abbreviation tab :: char where
  "tab \<equiv> CHR 0x09"

abbreviation carriage_return :: char where
  "carriage_return \<equiv> CHR 0x0D"

abbreviation backslash :: char where
  "backslash \<equiv> CHR 0x5C"

definition byte_at :: "string \<Rightarrow> nat \<Rightarrow> char option" where
  "byte_at S i = (if i < length S then Some (S ! i) else None)"

definition substr :: "string \<Rightarrow> nat \<Rightarrow> nat \<Rightarrow> string" where
  "substr S a b = take (b - a) (drop a S)"

text \<open>\<open>while i < len && f(bytes[i]) { i += 1 }\<close>\<close>

definition scan :: "(char \<Rightarrow> bool) \<Rightarrow> string \<Rightarrow> nat \<Rightarrow> nat" where
  "scan f S i = i + length (takeWhile f (drop i S))"

definition starts_with :: "string \<Rightarrow> string \<Rightarrow> bool" where
  "starts_with s t \<longleftrightarrow> take (length t) s = t"

text \<open>The length of the character whose UTF-8 encoding starts with this byte.\<close>

definition utf8_len :: "char \<Rightarrow> nat" where
  "utf8_len c = (if char_code c < 0x80 then 1 else if char_code c < 0xE0 then 2
     else if char_code c < 0xF0 then 3 else 4)"

lemma utf8_len_pos [simp]: "0 < utf8_len c"
  by (simp add: utf8_len_def)

text \<open>
  \<open>char::is_whitespace\<close> on the last and on the first character of a string, over the UTF-8 encodings
  of the characters with the Unicode property White\_Space.
\<close>

definition whitespace_encodings :: "nat list list" where
  "whitespace_encodings =
     [[0x09], [0x0A], [0x0B], [0x0C], [0x0D], [0x20], [0xC2, 0x85], [0xC2, 0xA0],
      [0xE1, 0x9A, 0x80], [0xE2, 0x80, 0x80], [0xE2, 0x80, 0x81], [0xE2, 0x80, 0x82],
      [0xE2, 0x80, 0x83], [0xE2, 0x80, 0x84], [0xE2, 0x80, 0x85], [0xE2, 0x80, 0x86],
      [0xE2, 0x80, 0x87], [0xE2, 0x80, 0x88], [0xE2, 0x80, 0x89], [0xE2, 0x80, 0x8A],
      [0xE2, 0x80, 0xA8], [0xE2, 0x80, 0xA9], [0xE2, 0x80, 0xAF], [0xE2, 0x81, 0x9F],
      [0xE3, 0x80, 0x80]]"

definition starts_with_whitespace :: "string \<Rightarrow> bool" where
  "starts_with_whitespace s \<longleftrightarrow>
     list_ex (\<lambda>w. take (length w) (map char_code s) = w) whitespace_encodings"

definition ends_with_whitespace :: "string \<Rightarrow> bool" where
  "ends_with_whitespace s \<longleftrightarrow>
     list_ex (\<lambda>w. length w \<le> length s \<and> drop (length s - length w) (map char_code s) = w)
       whitespace_encodings"

section \<open>Syntax nodes and tags\<close>

datatype ONode =
    RawText string
  | VarRef string
  | LetBinding string ONode
  | TypedExpr string u32 "string option" "ONode list"
  | Call string "ONode list"

record tag =
  tag_start :: nat
  tag_lang :: string
  tag_env_id :: u32
  tag_attr :: "string option"
  tag_raw :: string

datatype parse_error =
    InvalidAttributeChar nat
  | EmptyAttribute nat
  | MalformedAttribute nat
  | EnvironmentNumber string
  | EnvironmentReserved EnvironmentIdError
  | UnclosedExpression nat string
  | LetNeedsExpression nat string
  | VariableExpected nat
  | CallArgument nat string
  | CallSeparator nat string
  | NativeDescriptor nat

definition SEQUENCING_LANGS :: "string list" where
  "SEQUENCING_LANGS = [''quote'', ''O'']"

definition NATIVE_LEAF_BUILTIN :: string where
  "NATIVE_LEAF_BUILTIN = ''ocore_i64''"

section \<open>The catalog view\<close>

record dialect =
  is_registered_syntax_tag :: "string \<Rightarrow> bool"
  match_registered_syntax_tag :: "string \<Rightarrow> string option"
  canonical_syntax_name :: "string \<Rightarrow> string"
  owns_quoted_syntax :: "string \<Rightarrow> bool"

text \<open>The default of \<open>match_registered_syntax_tag\<close>: the identifier at the start, when registered.\<close>

definition match_identifier_tag :: "(string \<Rightarrow> bool) \<Rightarrow> string \<Rightarrow> string option" where
  "match_identifier_tag registered source =
     (case source of
        [] \<Rightarrow> None
      | c # cs \<Rightarrow>
          if \<not> is_ident_start c then None
          else let candidate = c # takeWhile is_ident_continue cs in
            if registered candidate then Some candidate else None)"

text \<open>
  The dialect of a set of registered tags, the list being the order in which the hash set is
  iterated: a tag matches when it is an identifier, a prefix of the source, and ends at an
  identifier boundary.
\<close>

definition tag_is_identifier :: "string \<Rightarrow> bool" where
  "tag_is_identifier t = (case t of [] \<Rightarrow> False
     | c # cs \<Rightarrow> is_ident_start c \<and> list_all is_ident_continue cs)"

definition tag_match :: "string \<Rightarrow> string \<Rightarrow> bool" where
  "tag_match source t \<longleftrightarrow> starts_with source t \<and> tag_is_identifier t \<and>
     (case byte_at source (length t) of None \<Rightarrow> True | Some c \<Rightarrow> \<not> is_ident_continue c)"

definition hash_set_dialect :: "string list \<Rightarrow> backend_spec list \<Rightarrow> dialect" where
  "hash_set_dialect tags specs = \<lparr>
     is_registered_syntax_tag = (\<lambda>name. name \<in> set tags),
     match_registered_syntax_tag = (\<lambda>source. find (tag_match source) tags),
     canonical_syntax_name = registry_canonical specs,
     owns_quoted_syntax = (\<lambda>canonical_name.
       registry_execution specs canonical_name = InlineAst \<and>
       registry_canonical specs canonical_name = ''quote'')\<rparr>"

section \<open>Attributes\<close>

text \<open>\<open>str::split(sep)\<close>\<close>

fun split_on :: "char \<Rightarrow> string \<Rightarrow> string list" where
  "split_on sep [] = [[]]"
| "split_on sep (c # cs) =
     (if c = sep then [] # split_on sep cs
      else case split_on sep cs of [] \<Rightarrow> [[c]] | w # ws \<Rightarrow> (c # w) # ws)"

text \<open>\<open>str::trim\<close> of a text without non-ASCII characters, and \<open>join(",")\<close>.\<close>

definition is_ascii_space :: "char \<Rightarrow> bool" where
  "is_ascii_space c \<longleftrightarrow> char_code c \<in> {0x09, 0x0A, 0x0B, 0x0C, 0x0D, 0x20}"

definition trim :: "string \<Rightarrow> string" where
  "trim s = rev (dropWhile is_ascii_space (rev (dropWhile is_ascii_space s)))"

fun join_comma :: "string list \<Rightarrow> string" where
  "join_comma [] = []"
| "join_comma [s] = s"
| "join_comma (s # t # ss) = s @ '','' @ join_comma (t # ss)"

definition attribute_byte :: "char \<Rightarrow> bool" where
  "attribute_byte b \<longleftrightarrow> is_attribute_value_continue b \<or> b \<in> {CHR '','', CHR ''='', CHR '' '', tab}"

definition attribute_entry_ok :: "string \<Rightarrow> bool" where
  "attribute_entry_ok entry =
     (case split_on (CHR ''='') entry of
        [] \<Rightarrow> False
      | name # rest \<Rightarrow>
          length rest \<le> 1 \<and>
          (case name of [] \<Rightarrow> False | c # _ \<Rightarrow> is_ident_start c) \<and>
          list_all is_ident_continue name \<and>
          (case rest of [] \<Rightarrow> True
             | v # _ \<Rightarrow> v \<noteq> [] \<and> list_all is_attribute_value_continue v))"

text \<open>Whether the rest of the line closes the attribute list and opens a body.\<close>

definition attribute_suffix_closes_as_opener :: "string \<Rightarrow> nat \<Rightarrow> bool" where
  "attribute_suffix_closes_as_opener S start =
     (let close = scan (\<lambda>b. b \<notin> {newline, carriage_return, CHR ''}''}) S start in
      byte_at S close = Some (CHR ''}'') \<and> substr S (close + 1) (close + 3) = ''^('')"

section \<open>One opener\<close>

text \<open>
  The environment slot of a tag at offset \<open>i\<close>: \<open>Inr None\<close> when the text is not an opener, otherwise
  the encoded environment and the offset after the slot.
\<close>

definition opener_environment :: "string \<Rightarrow> nat \<Rightarrow> parse_error + (u32 \<times> nat) option" where
  "opener_environment S i =
     (if byte_at S i \<noteq> Some (CHR ''['') then Inr (Some (EPHEMERAL_ENV_ID, i))
      else if byte_at S (i + 1) = Some (CHR ''*'') then
        (if byte_at S (i + 2) = Some (CHR '']'')
         then Inr (Some (encoded LinkerIsolated, i + 3)) else Inr None)
      else let j = scan is_digit S (i + 1); digits = substr S (i + 1) j in
        if j = i + 1 then Inr None
        else if byte_at S j \<noteq> Some (CHR '']'') then Inr None
        else and_then (ok_or (EnvironmentNumber digits) (parse_u32 digits)) (\<lambda>numeric.
          case persistent numeric of
            Inl e \<Rightarrow> Inl (EnvironmentReserved e)
          | Inr r \<Rightarrow> Inr (Some (encoded r, j + 1))))"

text \<open>The attribute slot at offset \<open>i\<close>, on line \<open>ln\<close> of the source.\<close>

definition opener_attributes ::
  "string \<Rightarrow> nat \<Rightarrow> nat \<Rightarrow> parse_error + (string list option \<times> nat) option" where
  "opener_attributes S ln i =
     (if byte_at S i \<noteq> Some (CHR ''{'') then Inr (Some (None, i))
      else let j = scan attribute_byte S (i + 1);
               refuse = (\<lambda>e. if attribute_suffix_closes_as_opener S j then Inl e else Inr None) in
        case byte_at S j of
          None \<Rightarrow> Inr None
        | Some b \<Rightarrow>
          if b \<noteq> CHR ''}'' then refuse (InvalidAttributeChar ln)
          else let entries = map trim (split_on (CHR '','') (substr S (i + 1) j)) in
            if list_ex (\<lambda>e. e = []) entries then refuse (EmptyAttribute ln)
            else if \<not> list_all attribute_entry_ok entries then refuse (MalformedAttribute ln)
            else Inr (Some (Some entries, j + 1)))"

text \<open>\<open>try_parse_opener\<close> at offset \<open>start\<close>: the tag and the offset after \<open>^(\<close>.\<close>

definition scan_opener :: "string \<Rightarrow> dialect \<Rightarrow> nat \<Rightarrow> nat \<Rightarrow> parse_error + (tag \<times> nat) option" where
  "scan_opener S D ln start =
     (case byte_at S start of
        None \<Rightarrow> Inr None
      | Some c \<Rightarrow>
        if \<not> is_ident_start c then Inr None
        else case match_registered_syntax_tag D (drop start S) of
          None \<Rightarrow> Inr None
        | Some lang \<Rightarrow>
          and_then (opener_environment S (start + length lang)) (\<lambda>slot.
            case slot of None \<Rightarrow> Inr None
            | Some (env_id, i) \<Rightarrow>
              and_then (opener_attributes S ln i) (\<lambda>slot'.
                case slot' of None \<Rightarrow> Inr None
                | Some (entries, k) \<Rightarrow>
                  if substr S k (k + 2) = ''^('' then
                    Inr (Some (\<lparr>tag_start = start, tag_lang = canonical_syntax_name D lang,
                       tag_env_id = env_id, tag_attr = map_option join_comma entries,
                       tag_raw = substr S start k\<rparr>, k + 2))
                  else Inr None)))"

section \<open>Closers\<close>

definition exact_closer_len_at :: "string \<Rightarrow> nat \<Rightarrow> tag \<Rightarrow> nat option" where
  "exact_closer_len_at S position t =
     (let remaining = drop position S; closer = '')_'' @ tag_raw t;
          next = byte_at remaining (length closer) in
      if position > length S \<or> \<not> starts_with remaining closer then None
      else if (if tag_attr t \<noteq> None then False
               else if CHR ''['' \<in> set (tag_raw t) then next = Some (CHR ''{'')
               else (case next of None \<Rightarrow> False
                 | Some b \<Rightarrow> is_ident_continue b \<or> b \<in> {CHR ''['', CHR ''{''}))
      then None
      else Some (length closer))"

section \<open>Escaping\<close>

definition exact_escaped_closer_len_at :: "string \<Rightarrow> nat \<Rightarrow> string \<Rightarrow> nat option" where
  "exact_escaped_closer_len_at source position closer =
     (if \<not> starts_with closer '')_'' then None
      else let raw_tag = drop 2 closer; remaining = drop position source;
               next = byte_at remaining (length closer) in
        if position > length source \<or> \<not> starts_with remaining closer then None
        else if (if CHR ''{'' \<in> set raw_tag then False
                 else if CHR ''['' \<in> set (takeWhile (\<lambda>b. b \<noteq> CHR ''{'') raw_tag)
                 then next = Some (CHR ''{'')
                 else (case next of None \<Rightarrow> False
                   | Some b \<Rightarrow> is_ident_continue b \<or> b \<in> {CHR ''['', CHR ''{''}))
        then None
        else Some (length closer))"

text \<open>The optional slots that \<open>registered_opener_len\<close> skips; \<open>None\<close> when it gives up.\<close>

definition skip_environment_slot :: "string \<Rightarrow> nat \<Rightarrow> nat option" where
  "skip_environment_slot source position =
     (if byte_at source position \<noteq> Some (CHR ''['') then Some position
      else if byte_at source (position + 1) = Some (CHR ''*'') then
        Some (if byte_at source (position + 2) = Some (CHR '']'') then position + 3 else position)
      else let e = scan is_digit source (position + 1) in
        if e = position + 1 then None
        else Some (if byte_at source e = Some (CHR '']'') then e + 1 else position))"

definition skip_attribute_slot :: "string \<Rightarrow> nat \<Rightarrow> nat" where
  "skip_attribute_slot source position =
     (if byte_at source position \<noteq> Some (CHR ''{'') then position
      else let e = scan (\<lambda>b. b \<noteq> CHR ''}'') source (position + 1) in
        if e > position + 1 \<and> byte_at source e = Some (CHR ''}'') then e + 1 else position)"

definition registered_opener_len :: "string \<Rightarrow> (string \<Rightarrow> bool) \<Rightarrow> nat option" where
  "registered_opener_len source registered_backends =
     (case source of
        [] \<Rightarrow> None
      | c # cs \<Rightarrow>
        if \<not> is_ident_start c then None
        else let position = scan is_ident_continue source 1 in
          if \<not> registered_backends (take position source) then None
          else case skip_environment_slot source position of
            None \<Rightarrow> None
          | Some p1 \<Rightarrow>
            let p2 = skip_attribute_slot source p1 in
            if starts_with (drop p2 source) ''^('' then Some (p2 + 2) else None)"

lemma registered_opener_len_pos: "registered_opener_len source f = Some n \<Longrightarrow> 2 \<le> n"
  by (auto simp: registered_opener_len_def Let_def split: list.splits if_splits option.splits)

text \<open>The loop of \<open>escape_typed_body_literal\<close> on the text still to be escaped.\<close>

function escape_from :: "string \<Rightarrow> string \<Rightarrow> (string \<Rightarrow> bool) \<Rightarrow> string" where
  "escape_from [] closer registered = []"
| "escape_from (c # cs) closer registered =
     (if exact_escaped_closer_len_at (c # cs) 0 closer \<noteq> None then
        backslash # closer @ escape_from (drop (length closer) (c # cs)) closer registered
      else case registered_opener_len (c # cs) registered of
        Some n \<Rightarrow> backslash # take n (c # cs) @ escape_from (drop n (c # cs)) closer registered
      | None \<Rightarrow>
        if c = CHR ''$'' \<and> (case cs of [] \<Rightarrow> False | d # _ \<Rightarrow> is_ident_start d) then
          backslash # CHR ''$'' # escape_from cs closer registered
        else take (utf8_len c) (c # cs) @
          escape_from (drop (utf8_len c) (c # cs)) closer registered)"
  by pat_completeness auto
termination escape_from
proof (relation "measure (\<lambda>(s, closer, f). length s)")
  fix c cs closer f
  assume "exact_escaped_closer_len_at (c # cs) 0 closer \<noteq> None"
  then have "closer \<noteq> []"
    by (auto simp: exact_escaped_closer_len_at_def starts_with_def split: if_splits)
  then show "((drop (length closer) (c # cs), closer, f), (c # cs, closer, f))
      \<in> measure (\<lambda>(s, closer, f). length s)"
    by (cases closer) auto
next
  fix c cs closer f n
  assume "registered_opener_len (c # cs) f = Some n"
  then show "((drop n (c # cs), closer, f), (c # cs, closer, f))
      \<in> measure (\<lambda>(s, closer, f). length s)"
    using registered_opener_len_pos [of "c # cs" f n] by (cases n) auto
qed (auto simp: utf8_len_def)

definition escape_typed_body_literal :: "string \<Rightarrow> string \<Rightarrow> (string \<Rightarrow> bool) \<Rightarrow> string" where
  "escape_typed_body_literal body closer registered_backends =
     escape_from body closer registered_backends"

end
