(* ===== verification/Parser.thy ===== *)
theory Parser
  imports Syntax
begin

text \<open>
  The parser of \<^verbatim>\<open>crates/ostadix-api/src/parser.rs\<close>: its cursor, the source-origin sidecar, and the
  mutually recursive productions. The source and the dialect, which the Rust struct borrows, are
  arguments. Each turn of the loop of \<open>parse_until\<close> is one \<open>next_step\<close>, which tries the productions in
  the order of the code; the productions that descend (let binding, typed expression, call) are
  split where they commit, so that \<open>let_head\<close> and \<open>call_head\<close> are the speculative prefixes.
\<close>

section \<open>Cursor\<close>

record source_span =
  start_byte :: nat
  end_byte :: nat
  start_line :: nat
  start_column :: nat
  end_line :: nat
  end_column :: nat

record parser =
  pos :: nat
  line :: nat
  line_starts :: "nat list option"
  plan_origins :: "source_span list option"
  origin_suppression_depth :: nat

definition parser_new :: parser where
  "parser_new = \<lparr>pos = 0, line = 1, line_starts = None, plan_origins = None,
     origin_suppression_depth = 0\<rparr>"

definition current_byte :: "string \<Rightarrow> parser \<Rightarrow> char option" where
  "current_byte S p = byte_at S (pos p)"

definition advance_one_byte :: "string \<Rightarrow> parser \<Rightarrow> parser" where
  "advance_one_byte S p =
     (case byte_at S (pos p) of
        None \<Rightarrow> p
      | Some c \<Rightarrow> p\<lparr>line := (if c = newline then line p + 1 else line p), pos := pos p + utf8_len c\<rparr>)"

primrec advance_bytes :: "string \<Rightarrow> nat \<Rightarrow> parser \<Rightarrow> parser" where
  "advance_bytes S 0 p = p"
| "advance_bytes S (Suc n) p = advance_bytes S n (advance_one_byte S p)"

lemma byte_at_less: "byte_at S i = Some c \<Longrightarrow> i < length S"
  by (simp add: byte_at_def split: if_splits)

lemma byte_at_None_iff: "byte_at S i = None \<longleftrightarrow> length S \<le> i"
  by (simp add: byte_at_def)

lemma advance_one_byte_pos: "byte_at S (pos p) = Some c \<Longrightarrow> pos (advance_one_byte S p) = pos p + utf8_len c"
  by (simp add: advance_one_byte_def)

lemma advance_one_byte_less: "pos p < length S \<Longrightarrow> pos p < pos (advance_one_byte S p)"
  by (simp add: advance_one_byte_def byte_at_def)

lemma advance_one_byte_le: "pos p \<le> pos (advance_one_byte S p)"
  by (simp add: advance_one_byte_def split: option.splits)

lemma advance_bytes_le: "pos p \<le> pos (advance_bytes S n p)"
proof (induction n arbitrary: p)
  case (Suc n)
  then show ?case using advance_one_byte_le [of p S] by (auto intro: le_trans)
qed simp

text \<open>\<open>while f(current_byte) { advance_one_byte }\<close>\<close>

function advance_while :: "(char \<Rightarrow> bool) \<Rightarrow> string \<Rightarrow> parser \<Rightarrow> parser" where
  "advance_while f S p =
     (case byte_at S (pos p) of
        None \<Rightarrow> p
      | Some c \<Rightarrow> if f c then advance_while f S (advance_one_byte S p) else p)"
  by auto
termination advance_while
proof (relation "measure (\<lambda>(f, S, p). length S - pos p)")
  fix f S c and p :: parser assume "byte_at S (pos p) = Some c"
  then have "pos p < length S" by (rule byte_at_less)
  then show "((f, S, advance_one_byte S p), (f, S, p)) \<in> measure (\<lambda>(f, S, p). length S - pos p)"
    using advance_one_byte_less [of p S] by simp
qed auto

declare advance_while.simps [simp del]

definition skip_horizontal_whitespace :: "string \<Rightarrow> parser \<Rightarrow> parser" where
  "skip_horizontal_whitespace S p = advance_while (\<lambda>b. b \<in> {CHR '' '', tab}) S p"

definition skip_whitespace :: "string \<Rightarrow> parser \<Rightarrow> parser" where
  "skip_whitespace S p = advance_while (\<lambda>b. b \<in> {CHR '' '', tab, newline, carriage_return}) S p"

text \<open>Past the next newline, or to the end of the source.\<close>

definition skip_to_end_of_line :: "string \<Rightarrow> parser \<Rightarrow> parser" where
  "skip_to_end_of_line S p = advance_one_byte S (advance_while (\<lambda>b. b \<noteq> newline) S p)"

lemma advance_while_le: "pos p \<le> pos (advance_while f S p)"
proof (induction f S p rule: advance_while.induct)
  case (1 f S p)
  then show ?case
    using advance_one_byte_le [of p S]
    by (subst advance_while.simps) (auto split: option.splits intro: le_trans)
qed

lemma skip_whitespace_le: "pos p \<le> pos (skip_whitespace S p)"
  by (simp add: skip_whitespace_def advance_while_le)

lemma skip_to_end_of_line_le: "pos p \<le> pos (skip_to_end_of_line S p)"
  unfolding skip_to_end_of_line_def using advance_while_le advance_one_byte_le le_trans by metis

lemma skip_to_end_of_line_less:
  assumes "pos p < length S"
  shows "pos p < pos (skip_to_end_of_line S p)"
proof -
  let ?q = "advance_while (\<lambda>b. b \<noteq> newline) S p"
  have "pos p \<le> pos ?q" by (rule advance_while_le)
  moreover have "pos ?q \<le> pos (advance_one_byte S ?q)" by (rule advance_one_byte_le)
  moreover have "pos ?q < length S \<Longrightarrow> pos ?q < pos (advance_one_byte S ?q)"
    by (rule advance_one_byte_less)
  ultimately show ?thesis
    using assms by (cases "pos ?q < length S") (auto simp: skip_to_end_of_line_def)
qed

function skip_call_trivia :: "string \<Rightarrow> parser \<Rightarrow> parser" where
  "skip_call_trivia S p =
     (let q = skip_whitespace S p in
      if current_byte S q \<noteq> Some (CHR ''#'') then q
      else skip_call_trivia S (skip_to_end_of_line S q))"
  by auto
termination skip_call_trivia
proof (relation "measure (\<lambda>(S, p). length S - pos p)")
  fix S and p q :: parser assume q: "q = skip_whitespace S p" "\<not> current_byte S q \<noteq> Some (CHR ''#'')"
  then have "pos q < length S" by (auto simp: current_byte_def dest: byte_at_less)
  then show "((S, skip_to_end_of_line S q), (S, p)) \<in> measure (\<lambda>(S, p). length S - pos p)"
    using skip_to_end_of_line_less [of q S] skip_whitespace_le [of p S] q(1) by simp
qed auto

declare skip_call_trivia.simps [simp del]

lemma skip_call_trivia_le: "pos p \<le> pos (skip_call_trivia S p)"
proof (induction S p rule: skip_call_trivia.induct)
  case (1 S p)
  show ?case
    using 1 [OF refl] skip_whitespace_le [of p S]
      skip_to_end_of_line_le [of "skip_whitespace S p" S]
    by (subst skip_call_trivia.simps) (auto simp: Let_def)
qed

section \<open>Source origins\<close>

text \<open>\<open>chars().count()\<close>: the bytes that do not continue a character.\<close>

definition char_count :: "string \<Rightarrow> nat" where
  "char_count s = length (filter (\<lambda>c. \<not> (0x80 \<le> char_code c \<and> char_code c < 0xC0)) s)"

text \<open>
  Byte, line and column of an offset. The fields \<open>line_starts\<close> and \<open>plan_origins\<close> are set together,
  so the offset stands for itself when no line table is there.
\<close>

definition source_position :: "string \<Rightarrow> parser \<Rightarrow> nat \<Rightarrow> nat \<times> nat \<times> nat" where
  "source_position S p byte =
     (case line_starts p of
        None \<Rightarrow> (byte, 0, 0)
      | Some starts \<Rightarrow>
          let line_index = length (takeWhile (\<lambda>line_start. line_start \<le> byte) starts) - 1;
              line_start = starts ! line_index in
          (byte, line_index + 1, char_count (substr S line_start byte) + 1))"

definition source_span_of :: "string \<Rightarrow> parser \<Rightarrow> nat \<Rightarrow> nat \<Rightarrow> source_span" where
  "source_span_of S p start stop =
     (let (b1, l1, c1) = source_position S p start; (b2, l2, c2) = source_position S p stop in
      \<lparr>start_byte = b1, end_byte = b2, start_line = l1, start_column = c1,
       end_line = l2, end_column = c2\<rparr>)"

definition end_span :: "string \<Rightarrow> parser \<Rightarrow> nat \<Rightarrow> source_span \<Rightarrow> source_span" where
  "end_span S p stop origin =
     (let (b, l, c) = source_position S p stop in
      origin\<lparr>end_byte := stop, end_line := l, end_column := c\<rparr>)"

text \<open>The origins while they are recorded and not suppressed.\<close>

definition recording :: "parser \<Rightarrow> source_span list option" where
  "recording p = (if origin_suppression_depth p \<noteq> 0 then None else plan_origins p)"

definition origin_count :: "parser \<Rightarrow> nat" where
  "origin_count p = (case plan_origins p of None \<Rightarrow> 0 | Some os \<Rightarrow> length os)"

definition record_origin :: "string \<Rightarrow> nat \<Rightarrow> nat \<Rightarrow> parser \<Rightarrow> parser" where
  "record_origin S start stop p =
     (case recording p of
        None \<Rightarrow> p
      | Some os \<Rightarrow> p\<lparr>plan_origins := Some (os @ [source_span_of S p start stop])\<rparr>)"

definition begin_origin :: "string \<Rightarrow> nat \<Rightarrow> parser \<Rightarrow> nat option \<times> parser" where
  "begin_origin S start p =
     (case recording p of
        None \<Rightarrow> (None, p)
      | Some os \<Rightarrow>
          (Some (length os), p\<lparr>plan_origins := Some (os @ [source_span_of S p start start])\<rparr>))"

definition finish_origin :: "string \<Rightarrow> nat option \<Rightarrow> nat \<Rightarrow> parser \<Rightarrow> parser" where
  "finish_origin S index stop p =
     (case index of
        None \<Rightarrow> p
      | Some i \<Rightarrow>
          p\<lparr>plan_origins := map_option (\<lambda>os. os[i := end_span S p stop (os ! i)]) (plan_origins p)\<rparr>)"

definition extend_last_origin :: "string \<Rightarrow> nat \<Rightarrow> parser \<Rightarrow> parser" where
  "extend_last_origin S stop p =
     (case recording p of
        None \<Rightarrow> p
      | Some os \<Rightarrow>
          if os = [] then p
          else p\<lparr>plan_origins := Some (butlast os @ [end_span S p stop (last os)])\<rparr>)"

definition flush_text :: "string \<Rightarrow> ONode list \<Rightarrow> nat \<Rightarrow> nat \<Rightarrow> parser \<Rightarrow> ONode list \<times> parser" where
  "flush_text S nodes start stop p =
     (if stop > start then (nodes @ [RawText (substr S start stop)], record_origin S start stop p)
      else (nodes, p))"

definition flush_text_before_recorded ::
  "string \<Rightarrow> ONode list \<Rightarrow> nat \<Rightarrow> nat \<Rightarrow> nat \<Rightarrow> parser \<Rightarrow> ONode list \<times> parser" where
  "flush_text_before_recorded S nodes start stop checkpoint p =
     (if stop \<le> start then (nodes, p)
      else (nodes @ [RawText (substr S start stop)],
        case recording p of
          None \<Rightarrow> p
        | Some os \<Rightarrow> p\<lparr>plan_origins :=
            Some (take checkpoint os @ [source_span_of S p start stop] @ drop checkpoint os)\<rparr>))"

text \<open>Escaped syntax: pending text, then the literal on the last raw text or as a new node.\<close>

definition push_literal ::
  "string \<Rightarrow> string \<Rightarrow> nat \<Rightarrow> nat \<Rightarrow> ONode list \<times> parser \<Rightarrow> ONode list \<times> parser" where
  "push_literal S literal start stop r =
     (case r of (nodes, p) \<Rightarrow>
        case rev nodes of
          RawText s # before \<Rightarrow> (rev before @ [RawText (s @ literal)], extend_last_origin S stop p)
        | _ \<Rightarrow> (nodes @ [RawText literal], record_origin S start stop p))"

section \<open>Speculative prefixes\<close>

text \<open>\<open>parse_identifier\<close> at an offset: the name and the offset after it.\<close>

definition identifier_at :: "string \<Rightarrow> nat \<Rightarrow> (string \<times> nat) option" where
  "identifier_at S start =
     (case byte_at S start of
        None \<Rightarrow> None
      | Some c \<Rightarrow>
          if \<not> is_ident_start c then None
          else let stop = scan is_ident_continue S (start + 1) in Some (substr S start stop, stop))"

definition try_parse_var_ref :: "string \<Rightarrow> nat \<Rightarrow> (string \<times> nat) option" where
  "try_parse_var_ref S start =
     (if byte_at S start \<noteq> Some (CHR ''$'') then None else identifier_at S (start + 1))"

definition starts_with_let_keyword :: "string \<Rightarrow> nat \<Rightarrow> bool" where
  "starts_with_let_keyword S i \<longleftrightarrow>
     starts_with (drop i S) ''let'' \<and>
     (i = 0 \<or> ends_with_whitespace (take i S)) \<and>
     (i + 3 \<ge> length S \<or> starts_with_whitespace (drop (i + 3) S))"

text \<open>The let binding up to and including \<open>=\<close>; \<open>None\<close> leaves the cursor where it was.\<close>

definition let_head :: "string \<Rightarrow> parser \<Rightarrow> (string \<times> parser) option" where
  "let_head S p =
     (if \<not> starts_with_let_keyword S (pos p) then None
      else let p1 = skip_horizontal_whitespace S (advance_bytes S 3 p) in
        case identifier_at S (pos p1) of
          None \<Rightarrow> None
        | Some (name, stop) \<Rightarrow>
            let p2 = skip_horizontal_whitespace S (p1\<lparr>pos := stop\<rparr>) in
            if current_byte S p2 \<noteq> Some (CHR ''='') then None
            else Some (name, advance_one_byte S p2))"

text \<open>The name of a call, with the cursor at its open parenthesis.\<close>

definition call_head :: "string \<Rightarrow> dialect \<Rightarrow> parser \<Rightarrow> (string \<times> parser) option" where
  "call_head S D p =
     (case identifier_at S (pos p) of
        None \<Rightarrow> None
      | Some (name, stop) \<Rightarrow>
          if is_registered_syntax_tag D name \<or> byte_at S stop \<noteq> Some (CHR ''('') then None
          else Some (name, p\<lparr>pos := stop\<rparr>))"

definition try_parse_opener :: "string \<Rightarrow> dialect \<Rightarrow> parser \<Rightarrow> parse_error + (tag \<times> parser) option" where
  "try_parse_opener S D p =
     and_then (scan_opener S D (line p) (pos p)) (\<lambda>r.
       Inr (map_option (\<lambda>(t, stop). (t, p\<lparr>pos := stop\<rparr>)) r))"

section \<open>One turn of the loop\<close>

definition inside_sequencing :: "tag option \<Rightarrow> bool" where
  "inside_sequencing expected_closer =
     (case expected_closer of None \<Rightarrow> True | Some t \<Rightarrow> tag_lang t \<in> set SEQUENCING_LANGS)"

definition closer_at :: "string \<Rightarrow> tag option \<Rightarrow> nat \<Rightarrow> nat option" where
  "closer_at S expected_closer i =
     (case expected_closer of None \<Rightarrow> None | Some t \<Rightarrow> exact_closer_len_at S i t)"

text \<open>What a turn does: it ends the loop, goes on, or descends into a production.\<close>

datatype step =
    Finished "parse_error + (ONode list \<times> parser)"
  | Continue "ONode list" nat parser
  | LetAt string parser
  | OpenerAt tag parser
  | CallAt string parser

text \<open>The literal \<open>lit\<close> that ends at \<open>stop\<close> replaces the escape at the cursor.\<close>

definition escape_to ::
  "string \<Rightarrow> ONode list \<Rightarrow> nat \<Rightarrow> parser \<Rightarrow> string \<Rightarrow> nat \<Rightarrow> step" where
  "escape_to S nodes text_start p lit stop =
     (let (nodes', p') = push_literal S lit (pos p) stop
        (flush_text S nodes text_start (pos p) (p\<lparr>pos := stop\<rparr>)) in
      Continue nodes' stop p')"

text \<open>A backslash: an escaped opener, the escaped closer, or an escaped dollar sign.\<close>

definition escape_step ::
  "string \<Rightarrow> dialect \<Rightarrow> tag option \<Rightarrow> ONode list \<Rightarrow> nat \<Rightarrow> parser \<Rightarrow> parse_error + step option" where
  "escape_step S D expected_closer nodes text_start p =
     (let after_bs = pos p + 1 in
      if after_bs \<ge> length S then Inr None
      else and_then (scan_opener S D (line p) after_bs) (\<lambda>r.
        case r of
          Some (t, stop) \<Rightarrow> Inr (Some (escape_to S nodes text_start p (tag_raw t @ ''^('') stop))
        | None \<Rightarrow>
          (case closer_at S expected_closer after_bs of
             Some n \<Rightarrow> Inr (Some (escape_to S nodes text_start p
               (substr S after_bs (after_bs + n)) (after_bs + n)))
           | None \<Rightarrow>
             if byte_at S after_bs = Some (CHR ''$'')
             then Inr (Some (escape_to S nodes text_start p ''$'' (after_bs + 1)))
             else Inr None)))"

text \<open>The productions of a turn, from the last one tried to the first.\<close>

definition next_call ::
  "string \<Rightarrow> dialect \<Rightarrow> tag option \<Rightarrow> ONode list \<Rightarrow> nat \<Rightarrow> parser \<Rightarrow> step" where
  "next_call S D expected_closer nodes text_start p =
     (case if inside_sequencing expected_closer then call_head S D p else None of
        Some (name, p1) \<Rightarrow> CallAt name p1
      | None \<Rightarrow> Continue nodes text_start (advance_one_byte S p))"

definition next_opener ::
  "string \<Rightarrow> dialect \<Rightarrow> tag option \<Rightarrow> ONode list \<Rightarrow> nat \<Rightarrow> parser \<Rightarrow> step" where
  "next_opener S D expected_closer nodes text_start p =
     (case try_parse_opener S D p of
        Inl e \<Rightarrow> Finished (Inl e)
      | Inr (Some (t, p1)) \<Rightarrow> OpenerAt t p1
      | Inr None \<Rightarrow> next_call S D expected_closer nodes text_start p)"

definition next_var ::
  "string \<Rightarrow> dialect \<Rightarrow> tag option \<Rightarrow> ONode list \<Rightarrow> nat \<Rightarrow> parser \<Rightarrow> step" where
  "next_var S D expected_closer nodes text_start p =
     (case try_parse_var_ref S (pos p) of
        Some (name, stop) \<Rightarrow>
          (let (nodes', p') = flush_text S nodes text_start (pos p) (p\<lparr>pos := stop\<rparr>) in
           Continue (nodes' @ [VarRef name]) stop (record_origin S (pos p) stop p'))
      | None \<Rightarrow> next_opener S D expected_closer nodes text_start p)"

definition next_escape ::
  "string \<Rightarrow> dialect \<Rightarrow> tag option \<Rightarrow> ONode list \<Rightarrow> nat \<Rightarrow> parser \<Rightarrow> step" where
  "next_escape S D expected_closer nodes text_start p =
     (case if current_byte S p = Some backslash
           then escape_step S D expected_closer nodes text_start p else Inr None of
        Inl e \<Rightarrow> Finished (Inl e)
      | Inr (Some st) \<Rightarrow> st
      | Inr None \<Rightarrow> next_var S D expected_closer nodes text_start p)"

definition next_let ::
  "string \<Rightarrow> dialect \<Rightarrow> tag option \<Rightarrow> ONode list \<Rightarrow> nat \<Rightarrow> parser \<Rightarrow> step" where
  "next_let S D expected_closer nodes text_start p =
     (case if inside_sequencing expected_closer then let_head S p else None of
        Some (name, p1) \<Rightarrow> LetAt name p1
      | None \<Rightarrow> next_escape S D expected_closer nodes text_start p)"

definition next_step ::
  "string \<Rightarrow> dialect \<Rightarrow> tag option \<Rightarrow> ONode list \<Rightarrow> nat \<Rightarrow> parser \<Rightarrow> step" where
  "next_step S D expected_closer nodes text_start p =
     (if pos p \<ge> length S then
        Finished (case expected_closer of
            Some t \<Rightarrow> Inl (UnclosedExpression (line p) (tag_raw t))
          | None \<Rightarrow> Inr (flush_text S nodes text_start (pos p) p))
      else case closer_at S expected_closer (pos p) of
        Some n \<Rightarrow>
          (let (nodes', p') = flush_text S nodes text_start (pos p) p in
           Finished (Inr (nodes', advance_bytes S n p')))
      | None \<Rightarrow>
          if inside_sequencing expected_closer \<and> current_byte S p = Some (CHR ''#'') then
            (let (nodes', p') = flush_text S nodes text_start (pos p) p;
                 q = skip_to_end_of_line S p' in
             Continue nodes' (pos q) q)
          else next_let S D expected_closer nodes text_start p)"

section \<open>Progress\<close>

lemma pos_record_origin [simp]: "pos (record_origin S a b p) = pos p"
  by (simp add: record_origin_def split: option.splits)

lemma pos_begin_origin [simp]: "pos (snd (begin_origin S a p)) = pos p"
  by (simp add: begin_origin_def split: option.splits)

lemma pos_finish_origin [simp]: "pos (finish_origin S i b p) = pos p"
  by (simp add: finish_origin_def split: option.splits)

lemma pos_extend_last_origin [simp]: "pos (extend_last_origin S b p) = pos p"
  by (simp add: extend_last_origin_def split: option.splits)

lemma pos_flush_text [simp]: "pos (snd (flush_text S nodes a b p)) = pos p"
  by (simp add: flush_text_def)

lemma pos_flush_text_before_recorded [simp]:
  "pos (snd (flush_text_before_recorded S nodes a b k p)) = pos p"
  by (simp add: flush_text_before_recorded_def split: option.splits)

lemma pos_push_literal [simp]: "pos (snd (push_literal S lit a b r)) = pos (snd r)"
  by (simp add: push_literal_def split: prod.splits list.splits ONode.splits)

lemma opener_environment_le: "opener_environment S i = Inr (Some (e, j)) \<Longrightarrow> i \<le> j"
  by (auto simp: opener_environment_def Let_def scan_def elim!: and_then_InrE
      split: if_splits sum.splits)

lemma opener_attributes_le: "opener_attributes S ln i = Inr (Some (es, j)) \<Longrightarrow> i \<le> j"
  by (auto simp: opener_attributes_def Let_def scan_def split: if_splits option.splits)

lemma scan_opener_less:
  assumes "scan_opener S D ln start = Inr (Some (t, stop))"
  shows "start < length S \<and> start + 2 \<le> stop \<and> tag_start t = start"
proof -
  have "\<exists>c (lang :: string) e i es k. byte_at S start = Some c \<and>
      opener_environment S (start + length lang) = Inr (Some (e, i)) \<and>
      opener_attributes S ln i = Inr (Some (es, k)) \<and> stop = k + 2 \<and> tag_start t = start"
    using assms
    by (fastforce simp: scan_opener_def elim!: and_then_InrE split: option.splits if_splits)
  then show ?thesis
    using opener_environment_le opener_attributes_le byte_at_less by fastforce
qed

lemma try_parse_opener_less:
  "try_parse_opener S D p = Inr (Some (t, p1)) \<Longrightarrow>
     pos p < pos p1 \<and> pos p < length S \<and> tag_start t = pos p"
  by (auto simp: try_parse_opener_def elim!: and_then_InrE dest!: scan_opener_less)

lemma identifier_at_less:
  "identifier_at S start = Some (name, stop) \<Longrightarrow> start < stop \<and> start < length S"
  by (auto simp: identifier_at_def Let_def scan_def dest: byte_at_less split: option.splits if_splits)

lemma try_parse_var_ref_less:
  "try_parse_var_ref S start = Some (name, stop) \<Longrightarrow> start < stop \<and> start < length S"
  by (auto simp: try_parse_var_ref_def dest: identifier_at_less split: if_splits)

lemma call_head_less:
  "call_head S D p = Some (name, p1) \<Longrightarrow> pos p < pos p1 \<and> pos p < length S"
  by (auto simp: call_head_def dest!: identifier_at_less split: option.splits if_splits)

lemma let_head_less:
  assumes "let_head S p = Some (name, p1)"
  shows "pos p < pos p1 \<and> pos p < length S"
proof -
  let ?q = "skip_horizontal_whitespace S (advance_bytes S 3 p)"
  obtain stop where stop: "identifier_at S (pos ?q) = Some (name, stop)"
    and p1: "p1 = advance_one_byte S (skip_horizontal_whitespace S (?q\<lparr>pos := stop\<rparr>))"
    using assms by (auto simp: let_head_def Let_def split: if_splits option.splits)
  have "pos p \<le> pos ?q"
    using advance_bytes_le [of p S 3] advance_while_le le_trans
    unfolding skip_horizontal_whitespace_def by blast
  moreover have "pos (?q\<lparr>pos := stop\<rparr>) \<le> pos p1"
    unfolding p1 skip_horizontal_whitespace_def
    by (rule le_trans [OF advance_while_le advance_one_byte_le])
  moreover have "pos ?q < stop" "pos ?q < length S" using identifier_at_less [OF stop] by simp_all
  ultimately show ?thesis by simp
qed

lemma escape_to_Continue:
  "\<exists>nodes' p'. escape_to S nodes ts p lit stop = Continue nodes' stop p' \<and> pos p' = stop"
proof -
  obtain nodes' p' where *: "push_literal S lit (pos p) stop
      (flush_text S nodes ts (pos p) (p\<lparr>pos := stop\<rparr>)) = (nodes', p')" by fastforce
  then have "pos p' = stop" using pos_push_literal [of S lit "pos p" stop
      "flush_text S nodes ts (pos p) (p\<lparr>pos := stop\<rparr>)"] by simp
  then show ?thesis using * by (simp add: escape_to_def)
qed

lemma escape_step_less:
  assumes "escape_step S D ec nodes ts p = Inr (Some st)"
  shows "pos p < length S \<and> (\<exists>nodes' p'. st = Continue nodes' (pos p') p' \<and> pos p < pos p')"
proof -
  obtain lit stop where "st = escape_to S nodes ts p lit stop" "pos p < stop" "pos p < length S"
    using assms
    by (auto simp: escape_step_def Let_def elim!: and_then_InrE dest!: scan_opener_less
        split: if_splits option.splits)
  then show ?thesis using escape_to_Continue [of S nodes ts p lit stop] by auto
qed

lemma flush_text_pos: "flush_text S nodes a b p = (nodes', p') \<Longrightarrow> pos p' = pos p"
  using pos_flush_text [of S nodes a b p] by simp

lemma begin_origin_pos: "begin_origin S a p = (origin, p') \<Longrightarrow> pos p' = pos p"
  using pos_begin_origin [of S a p] by simp

lemma flush_text_before_recorded_pos:
  "flush_text_before_recorded S nodes a b k p = (nodes', p') \<Longrightarrow> pos p' = pos p"
  using pos_flush_text_before_recorded [of S nodes a b k p] by simp

lemma skip_to_end_of_line_from:
  "pos q = pos p \<Longrightarrow> pos p < length S \<Longrightarrow> pos p < pos (skip_to_end_of_line S q)"
  using skip_to_end_of_line_less [of q S] by simp

lemma advance_bytes_from: "pos q = pos p \<Longrightarrow> pos p \<le> pos (advance_bytes S n q)"
  using advance_bytes_le [of q S n] by simp

text \<open>Every outcome of a turn but the end of the loop moves the cursor.\<close>

fun moves :: "string \<Rightarrow> parser \<Rightarrow> step \<Rightarrow> bool" where
  "moves S p (Finished r) = (\<forall>nodes p'. r = Inr (nodes, p') \<longrightarrow> pos p \<le> pos p')"
| "moves S p (Continue nodes ts p') = (pos p < pos p')"
| "moves S p (LetAt name p') = (pos p < pos p')"
| "moves S p (OpenerAt t p') = (pos p < pos p' \<and> tag_start t = pos p)"
| "moves S p (CallAt name p') = (pos p < pos p')"

lemma next_call_moves: "pos p < length S \<Longrightarrow> moves S p (next_call S D ec nodes ts p)"
  by (auto simp: next_call_def dest: call_head_less advance_one_byte_less split: option.splits if_splits)

lemma next_opener_moves: "pos p < length S \<Longrightarrow> moves S p (next_opener S D ec nodes ts p)"
  by (auto simp: next_opener_def next_call_moves dest: try_parse_opener_less
      split: option.splits sum.splits)

lemma next_var_moves: "pos p < length S \<Longrightarrow> moves S p (next_var S D ec nodes ts p)"
  by (auto simp: next_var_def next_opener_moves dest!: try_parse_var_ref_less flush_text_pos
      split: option.splits prod.splits)

lemma next_escape_moves: "pos p < length S \<Longrightarrow> moves S p (next_escape S D ec nodes ts p)"
  by (auto simp: next_escape_def next_var_moves dest!: escape_step_less
      split: option.splits sum.splits if_splits)

lemma next_let_moves: "pos p < length S \<Longrightarrow> moves S p (next_let S D ec nodes ts p)"
  by (auto simp: next_let_def next_escape_moves dest: let_head_less split: option.splits if_splits)

lemma next_step_moves: "moves S p (next_step S D ec nodes ts p)"
  by (auto simp: next_step_def next_let_moves not_le Let_def dest!: flush_text_pos
      intro: skip_to_end_of_line_from advance_bytes_from split: option.splits prod.splits)

lemma next_step_less:
  "next_step S D ec nodes ts p = Continue nodes' ts' p' \<Longrightarrow> pos p < pos p' \<and> pos p < length S"
  "next_step S D ec nodes ts p = LetAt name p1 \<Longrightarrow> pos p < pos p1 \<and> pos p < length S"
  "next_step S D ec nodes ts p = OpenerAt t p1 \<Longrightarrow> pos p < pos p1 \<and> pos p < length S \<and> tag_start t = pos p"
  "next_step S D ec nodes ts p = CallAt name p1 \<Longrightarrow> pos p < pos p1 \<and> pos p < length S"
  "next_step S D ec nodes ts p = Finished (Inr (nodes', p')) \<Longrightarrow> pos p \<le> pos p'"
  using next_step_moves [of S p D ec nodes ts]
  by (auto simp: next_step_def split: if_splits)

section \<open>Productions\<close>

definition valid_native_descriptor :: "ONode list \<Rightarrow> bool" where
  "valid_native_descriptor args =
     (case args of
        TypedExpr lang env_id None body # _ \<Rightarrow>
          lang = ''text'' \<and> list_all (\<lambda>n. case n of RawText _ \<Rightarrow> True | _ \<Rightarrow> False) body
      | _ \<Rightarrow> False)"

function parse_loop ::
    "string \<Rightarrow> dialect \<Rightarrow> tag option \<Rightarrow> ONode list \<Rightarrow> nat \<Rightarrow> parser \<Rightarrow> parse_error + (ONode list \<times> parser)"
  and parse_typed_expr :: "string \<Rightarrow> dialect \<Rightarrow> tag \<Rightarrow> parser \<Rightarrow> parse_error + (ONode \<times> parser)"
  and let_rest :: "string \<Rightarrow> dialect \<Rightarrow> nat \<Rightarrow> string \<Rightarrow> parser \<Rightarrow> parse_error + (ONode \<times> parser)"
  and call_rest :: "string \<Rightarrow> dialect \<Rightarrow> nat \<Rightarrow> string \<Rightarrow> parser \<Rightarrow> parse_error + (ONode \<times> parser)"
  and call_args ::
    "string \<Rightarrow> dialect \<Rightarrow> string \<Rightarrow> ONode list \<Rightarrow> parser \<Rightarrow> parse_error + (ONode list \<times> parser)"
  and call_arg :: "string \<Rightarrow> dialect \<Rightarrow> string \<Rightarrow> parser \<Rightarrow> parse_error + (ONode \<times> parser)" where
  "parse_loop S D expected_closer nodes text_start p =
     (case next_step S D expected_closer nodes text_start p of
        Finished r \<Rightarrow> r
      | Continue nodes' text_start' p' \<Rightarrow> parse_loop S D expected_closer nodes' text_start' p'
      | LetAt name p1 \<Rightarrow>
          and_then (let_rest S D (pos p) name p1) (\<lambda>(b, p2).
            let (nodes', p3) =
              flush_text_before_recorded S nodes text_start (pos p) (origin_count p) p2 in
            parse_loop S D expected_closer (nodes' @ [b]) (pos p3) p3)
      | OpenerAt t p1 \<Rightarrow>
          (let (nodes', p2) = flush_text S nodes text_start (tag_start t) p1 in
           and_then (parse_typed_expr S D t p2) (\<lambda>(e, p3).
             parse_loop S D expected_closer (nodes' @ [e]) (pos p3) p3))
      | CallAt name p1 \<Rightarrow>
          and_then (call_rest S D (pos p) name p1) (\<lambda>(c, p2).
            let (nodes', p3) =
              flush_text_before_recorded S nodes text_start (pos p) (origin_count p) p2 in
            parse_loop S D expected_closer (nodes' @ [c]) (pos p3) p3))"
| "parse_typed_expr S D t p =
     (let (origin, p1) = begin_origin S (tag_start t) p;
          owns = owns_quoted_syntax D (tag_lang t);
          p2 = (if owns then p1\<lparr>origin_suppression_depth := origin_suppression_depth p1 + 1\<rparr> else p1) in
      and_then (parse_loop S D (Some t) [] (pos p2) p2) (\<lambda>(body, p3).
        let p4 = (if owns then p3\<lparr>origin_suppression_depth := origin_suppression_depth p3 - 1\<rparr> else p3) in
        Inr (TypedExpr (tag_lang t) (tag_env_id t) (tag_attr t) body,
             finish_origin S origin (pos p4) p4)))"
| "let_rest S D start name p =
     (let (origin, p1) = begin_origin S start p; p2 = skip_whitespace S p1 in
      case call_head S D p2 of
        Some (fn_name, p3) \<Rightarrow>
          and_then (call_rest S D (pos p2) fn_name p3) (\<lambda>(c, p4).
            Inr (LetBinding name c, finish_origin S origin (pos p4) p4))
      | None \<Rightarrow>
          and_then (try_parse_opener S D p2) (\<lambda>r.
            case r of
              None \<Rightarrow> Inl (LetNeedsExpression (line p2) name)
            | Some (t, p3) \<Rightarrow>
                and_then (parse_typed_expr S D t p3) (\<lambda>(e, p4).
                  Inr (LetBinding name e, finish_origin S origin (pos p4) p4))))"
| "call_rest S D start name p =
     (let (origin, p1) = begin_origin S start p;
          p2 = skip_call_trivia S (advance_one_byte S p1) in
      and_then (call_args S D name [] p2) (\<lambda>(args, p3).
        if name = NATIVE_LEAF_BUILTIN \<and> \<not> valid_native_descriptor args
        then Inl (NativeDescriptor (line p3))
        else Inr (Call name args, finish_origin S origin (pos p3) p3)))"
| "call_args S D name args p =
     (if current_byte S p = Some (CHR '')'') then Inr (args, advance_one_byte S p)
      else and_then (call_arg S D name p) (\<lambda>(arg, p1).
        let p2 = skip_call_trivia S p1 in
        if current_byte S p2 = Some (CHR '','') then
          call_args S D name (args @ [arg]) (skip_call_trivia S (advance_one_byte S p2))
        else if current_byte S p2 = Some (CHR '')'') then
          Inr (args @ [arg], advance_one_byte S p2)
        else Inl (CallSeparator (line p2) name)))"
| "call_arg S D name p =
     (if current_byte S p = Some (CHR ''$'') then
        (case try_parse_var_ref S (pos p) of
           None \<Rightarrow> Inl (VariableExpected (line p))
         | Some (var, stop) \<Rightarrow> Inr (VarRef var, record_origin S (pos p) stop (p\<lparr>pos := stop\<rparr>)))
      else case call_head S D p of
        Some (fn_name, p1) \<Rightarrow> call_rest S D (pos p) fn_name p1
      | None \<Rightarrow>
          and_then (try_parse_opener S D p) (\<lambda>r.
            case r of
              None \<Rightarrow> Inl (CallArgument (line p) name)
            | Some (t, p1) \<Rightarrow> parse_typed_expr S D t p1))"
  by pat_completeness auto

lemmas pos_dests = flush_text_pos begin_origin_pos flush_text_before_recorded_pos
  try_parse_opener_less call_head_less try_parse_var_ref_less

lemma parse_dom_pos:
  "parse_loop_parse_typed_expr_let_rest_call_rest_call_args_call_arg_dom
     (Inl (Inl (S, D, ec, nodes, ts, p))) \<Longrightarrow>
   (\<forall>ns p'. parse_loop S D ec nodes ts p = Inr (ns, p') \<longrightarrow> pos p \<le> pos p')"
  "parse_loop_parse_typed_expr_let_rest_call_rest_call_args_call_arg_dom
     (Inl (Inr (Inl (S, D, t, p)))) \<Longrightarrow>
   (\<forall>e p'. parse_typed_expr S D t p = Inr (e, p') \<longrightarrow> pos p \<le> pos p')"
  "parse_loop_parse_typed_expr_let_rest_call_rest_call_args_call_arg_dom
     (Inl (Inr (Inr (S, D, start, name, p)))) \<Longrightarrow>
   (\<forall>e p'. let_rest S D start name p = Inr (e, p') \<longrightarrow> pos p \<le> pos p')"
  "parse_loop_parse_typed_expr_let_rest_call_rest_call_args_call_arg_dom
     (Inr (Inl (S, D, start, name, p))) \<Longrightarrow>
   (\<forall>e p'. call_rest S D start name p = Inr (e, p') \<longrightarrow> pos p \<le> pos p')"
  "parse_loop_parse_typed_expr_let_rest_call_rest_call_args_call_arg_dom
     (Inr (Inr (Inl (S, D, name, args, p)))) \<Longrightarrow>
   (\<forall>as p'. call_args S D name args p = Inr (as, p') \<longrightarrow> pos p \<le> pos p')"
  "parse_loop_parse_typed_expr_let_rest_call_rest_call_args_call_arg_dom
     (Inr (Inr (Inr (S, D, name, p)))) \<Longrightarrow>
   (\<forall>e p'. call_arg S D name p = Inr (e, p') \<longrightarrow> pos p < pos p')"
proof (induction S D ec nodes ts p and S D t p and S D start name p and S D start name p
    and S D name args p and S D name p
    rule: parse_loop_parse_typed_expr_let_rest_call_rest_call_args_call_arg.pinduct)
  case (1 S D ec nodes ts p)
  show ?case
  proof (intro allI impI)
    fix ns p' assume "parse_loop S D ec nodes ts p = Inr (ns, p')"
    note run = this [unfolded parse_loop.psimps [OF 1(1)]]
    show "pos p \<le> pos p'"
    proof (cases "next_step S D ec nodes ts p")
      case (Finished r)
      then show ?thesis using run next_step_less(5) [of S D ec nodes ts p ns p'] by simp
    next
      case (Continue nodes' ts' q)
      then show ?thesis using run 1(2) [OF Continue] next_step_less(1) [OF Continue] by force
    next
      case (LetAt name p1)
      obtain b p2 nodes' p3 where
        r: "let_rest S D (pos p) name p1 = Inr (b, p2)"
          "flush_text_before_recorded S nodes ts (pos p) (origin_count p) p2 = (nodes', p3)"
          "parse_loop S D ec (nodes' @ [b]) (pos p3) p3 = Inr (ns, p')"
        using run LetAt by (auto elim!: and_then_pairE split: prod.splits)
      show ?thesis
        using 1(3) [OF LetAt] 1(4) [OF LetAt r(1) refl refl r(2) [symmetric]] r
          flush_text_before_recorded_pos [OF r(2)] next_step_less(2) [OF LetAt] by fastforce
    next
      case (OpenerAt t p1)
      obtain nodes' p2 e p3 where
        r: "flush_text S nodes ts (tag_start t) p1 = (nodes', p2)"
          "parse_typed_expr S D t p2 = Inr (e, p3)"
          "parse_loop S D ec (nodes' @ [e]) (pos p3) p3 = Inr (ns, p')"
        using run OpenerAt by (auto elim!: and_then_pairE split: prod.splits)
      show ?thesis
        using 1(5) [OF OpenerAt refl r(1) [symmetric]]
          1(6) [OF OpenerAt refl r(1) [symmetric] r(2) refl] r
          flush_text_pos [OF r(1)] next_step_less(3) [OF OpenerAt] by fastforce
    next
      case (CallAt name p1)
      obtain b p2 nodes' p3 where
        r: "call_rest S D (pos p) name p1 = Inr (b, p2)"
          "flush_text_before_recorded S nodes ts (pos p) (origin_count p) p2 = (nodes', p3)"
          "parse_loop S D ec (nodes' @ [b]) (pos p3) p3 = Inr (ns, p')"
        using run CallAt by (auto elim!: and_then_pairE split: prod.splits)
      show ?thesis
        using 1(7) [OF CallAt] 1(8) [OF CallAt r(1) refl refl r(2) [symmetric]] r
          flush_text_before_recorded_pos [OF r(2)] next_step_less(4) [OF CallAt] by fastforce
    qed
  qed
next
  case (2 S D t p)
  show ?case
  proof (intro allI impI)
    fix e p' assume "parse_typed_expr S D t p = Inr (e, p')"
    note run = this [unfolded parse_typed_expr.psimps [OF 2(1)]]
    obtain origin p1 where o: "begin_origin S (tag_start t) p = (origin, p1)" by fastforce
    define p2 where "p2 = (if owns_quoted_syntax D (tag_lang t)
      then p1\<lparr>origin_suppression_depth := origin_suppression_depth p1 + 1\<rparr> else p1)"
    have "pos p2 = pos p" using begin_origin_pos [OF o] by (simp add: p2_def)
    moreover obtain body p3 where "parse_loop S D (Some t) [] (pos p2) p2 = Inr (body, p3)"
      "pos p' = pos p3"
      using run o by (auto simp: Let_def p2_def [symmetric] elim!: and_then_pairE)
    ultimately show "pos p \<le> pos p'" using 2(2) [OF refl o [symmetric] refl p2_def] by fastforce
  qed
next
  case (3 S D start name p)
  show ?case
  proof (intro allI impI)
    fix e p' assume "let_rest S D start name p = Inr (e, p')"
    note run = this [unfolded let_rest.psimps [OF 3(1)]]
    obtain origin p1 where o: "begin_origin S start p = (origin, p1)" by fastforce
    let ?p2 = "skip_whitespace S p1"
    have le: "pos p \<le> pos ?p2" using begin_origin_pos [OF o] skip_whitespace_le [of p1 S] by simp
    show "pos p \<le> pos p'"
    proof (cases "call_head S D ?p2")
      case None
      then obtain t p3 e' p4 where
        r: "try_parse_opener S D ?p2 = Inr (Some (t, p3))"
          "parse_typed_expr S D t p3 = Inr (e', p4)" "pos p' = pos p4"
        using run o by (auto simp: Let_def elim!: and_then_pairE and_then_InrE split: option.splits)
      show ?thesis
        using 3(2) [OF refl o [symmetric] refl None r(1) refl refl] r try_parse_opener_less [OF r(1)] le
        by fastforce
    next
      case (Some h)
      then obtain fn_name p3 c p4 where
        r: "h = (fn_name, p3)" "call_rest S D (pos ?p2) fn_name p3 = Inr (c, p4)" "pos p' = pos p4"
        using run o by (cases h) (auto simp: Let_def elim!: and_then_pairE)
      show ?thesis
        using 3(3) [OF refl o [symmetric] refl Some r(1) [symmetric]] r le call_head_less Some by fastforce
    qed
  qed
next
  case (4 S D start name p)
  show ?case
  proof (intro allI impI)
    fix e p' assume "call_rest S D start name p = Inr (e, p')"
    note run = this [unfolded call_rest.psimps [OF 4(1)]]
    obtain origin p1 where o: "begin_origin S start p = (origin, p1)" by fastforce
    let ?p2 = "skip_call_trivia S (advance_one_byte S p1)"
    have "pos p \<le> pos ?p2"
      using begin_origin_pos [OF o] advance_one_byte_le [of p1 S]
        skip_call_trivia_le [of "advance_one_byte S p1" S] by simp
    moreover obtain args p3 where "call_args S D name [] ?p2 = Inr (args, p3)" "pos p' = pos p3"
      using run o by (auto simp: Let_def elim!: and_then_pairE split: if_splits)
    ultimately show "pos p \<le> pos p'" using 4(2) [OF refl o [symmetric] refl] by fastforce
  qed
next
  case (5 S D name args p)
  show ?case
  proof (intro allI impI)
    fix as p' assume "call_args S D name args p = Inr (as, p')"
    note run = this [unfolded call_args.psimps [OF 5(1)]]
    show "pos p \<le> pos p'"
    proof (cases "current_byte S p = Some (CHR '')'')")
      case True
      then show ?thesis using run advance_one_byte_le [of p S] by auto
    next
      case False
      then obtain arg p1 where arg: "call_arg S D name p = Inr (arg, p1)"
        using run by (auto elim!: and_then_pairE)
      let ?p2 = "skip_call_trivia S p1"
      let ?p3 = "skip_call_trivia S (advance_one_byte S ?p2)"
      have "pos p < pos p1" using 5(2) [OF False] arg by blast
      moreover have "pos p1 \<le> pos ?p2" by (rule skip_call_trivia_le)
      moreover have "pos ?p2 \<le> pos (advance_one_byte S ?p2)" by (rule advance_one_byte_le)
      moreover have "pos (advance_one_byte S ?p2) \<le> pos ?p3" by (rule skip_call_trivia_le)
      moreover have "pos ?p3 \<le> pos p' \<or> p' = advance_one_byte S ?p2"
        using run False arg 5(3) [OF False arg refl refl] by (auto split: if_splits simp: Let_def)
      ultimately show ?thesis by auto
    qed
  qed
next
  case (6 S D name p)
  show ?case
  proof (intro allI impI)
    fix e p' assume "call_arg S D name p = Inr (e, p')"
    note run = this [unfolded call_arg.psimps [OF 6(1)]]
    show "pos p < pos p'"
    proof (cases "current_byte S p = Some (CHR ''$'')")
      case True
      then show ?thesis using run by (auto dest!: try_parse_var_ref_less split: option.splits)
    next
      case nodollar: False
      show ?thesis
      proof (cases "call_head S D p")
        case None
        then obtain t p1 where r: "try_parse_opener S D p = Inr (Some (t, p1))"
          "parse_typed_expr S D t p1 = Inr (e, p')"
          using run nodollar by (auto elim!: and_then_InrE split: option.splits)
        show ?thesis
          using 6(2) [OF nodollar None r(1) refl refl] r(2) try_parse_opener_less [OF r(1)] by fastforce
      next
        case (Some h)
        then obtain fn_name p1 where h: "h = (fn_name, p1)" by (cases h)
        show ?thesis
          using 6(3) [OF nodollar Some h [symmetric]] run nodollar Some h call_head_less [of S D p fn_name p1]
          by fastforce
      qed
    qed
  qed
qed

lemma skip_whitespace_lessD: "pos (skip_whitespace S p) < n \<Longrightarrow> pos p < n"
  using skip_whitespace_le [of p S] by simp

lemma call_trivia_measure:
  assumes "pos q = pos p"
    and "length S - pos (skip_call_trivia S (advance_one_byte S q)) \<noteq> length S - pos p"
  shows "length S - pos (skip_call_trivia S (advance_one_byte S q)) < length S - pos p"
  using assms advance_one_byte_le [of q S] skip_call_trivia_le [of "advance_one_byte S q" S]
  by linarith

lemma next_arg_measure:
  assumes "current_byte S (skip_call_trivia S q) = Some c" "pos p < pos q"
  shows "length S - pos (skip_call_trivia S (advance_one_byte S (skip_call_trivia S q))) <
    length S - pos p"
proof -
  let ?q = "skip_call_trivia S q"
  have "pos ?q < length S" using assms(1) by (auto simp: current_byte_def dest: byte_at_less)
  then show ?thesis
    using assms(2) skip_call_trivia_le [of q S] advance_one_byte_le [of ?q S]
      skip_call_trivia_le [of "advance_one_byte S ?q" S] by linarith
qed

termination parse_loop
proof (relation "measures [\<lambda>x. case x of
      Inl (Inl (S, D, ec, nodes, ts, p)) \<Rightarrow> length S - pos p
    | Inl (Inr (Inl (S, D, t, p))) \<Rightarrow> length S - pos p
    | Inl (Inr (Inr (S, D, start, name, p))) \<Rightarrow> length S - pos p
    | Inr (Inl (S, D, start, name, p)) \<Rightarrow> length S - pos p
    | Inr (Inr (Inl (S, D, name, args, p))) \<Rightarrow> length S - pos p
    | Inr (Inr (Inr (S, D, name, p))) \<Rightarrow> length S - pos p,
    \<lambda>x. case x of
      Inl (Inl (S, D, ec, nodes, ts, p)) \<Rightarrow> 0 :: nat
    | Inl (Inr (Inl (S, D, t, p))) \<Rightarrow> 1
    | Inl (Inr (Inr (S, D, start, name, p))) \<Rightarrow> 2
    | Inr (Inl (S, D, start, name, p)) \<Rightarrow> 4
    | Inr (Inr (Inl (S, D, name, args, p))) \<Rightarrow> 3
    | Inr (Inr (Inr (S, D, name, p))) \<Rightarrow> 2]", goal_cases)
qed (auto dest!: next_step_less parse_dom_pos pos_dests [OF sym] pos_dests skip_whitespace_lessD
  intro: call_trivia_measure next_arg_measure)

declare parse_loop.simps [simp del] parse_typed_expr.simps [simp del] let_rest.simps [simp del]
  call_rest.simps [simp del] call_args.simps [simp del] call_arg.simps [simp del]

section \<open>Entry points\<close>

definition parse_until ::
  "string \<Rightarrow> dialect \<Rightarrow> tag option \<Rightarrow> parser \<Rightarrow> parse_error + (ONode list \<times> parser)" where
  "parse_until S D expected_closer p = parse_loop S D expected_closer [] (pos p) p"

definition parse :: "string \<Rightarrow> dialect \<Rightarrow> parser \<Rightarrow> parse_error + (ONode list \<times> parser)" where
  "parse S D p = parse_until S D None (p\<lparr>line_starts := None, plan_origins := None\<rparr>)"

definition newline_starts :: "string \<Rightarrow> nat list" where
  "newline_starts S = 0 # map Suc (filter (\<lambda>i. S ! i = newline) [0..<length S])"

record 'h parsed_document =
  doc_nodes :: "ONode list"
  doc_plan_origins :: "source_span list"
  doc_source_sha256 :: 'h
  doc_source_len :: nat

text \<open>\<open>Sha256::digest\<close> is a library call, an argument here.\<close>

definition parse_with_origins ::
  "(string \<Rightarrow> 'h) \<Rightarrow> string \<Rightarrow> dialect \<Rightarrow> parser \<Rightarrow> parse_error + 'h parsed_document" where
  "parse_with_origins sha256 S D p =
     and_then (parse_until S D None
       (p\<lparr>line_starts := Some (newline_starts S), plan_origins := Some [],
          origin_suppression_depth := 0\<rparr>)) (\<lambda>(nodes, p').
       Inr \<lparr>doc_nodes = nodes, doc_plan_origins = the (plan_origins p'),
            doc_source_sha256 = sha256 S, doc_source_len = length S\<rparr>)"

definition origin_for_plan_index :: "'h parsed_document \<Rightarrow> nat \<Rightarrow> source_span option" where
  "origin_for_plan_index d i =
     (if i < length (doc_plan_origins d) then Some (doc_plan_origins d ! i) else None)"

definition try_parse_let_binding ::
  "string \<Rightarrow> dialect \<Rightarrow> parser \<Rightarrow> parse_error + (ONode \<times> parser) option" where
  "try_parse_let_binding S D p =
     (case let_head S p of
        None \<Rightarrow> Inr None
      | Some (name, p1) \<Rightarrow> and_then (let_rest S D (pos p) name p1) (\<lambda>r. Inr (Some r)))"

definition try_parse_call ::
  "string \<Rightarrow> dialect \<Rightarrow> parser \<Rightarrow> parse_error + (ONode \<times> parser) option" where
  "try_parse_call S D p =
     (case call_head S D p of
        None \<Rightarrow> Inr None
      | Some (name, p1) \<Rightarrow> and_then (call_rest S D (pos p) name p1) (\<lambda>r. Inr (Some r)))"

section \<open>Source reconstruction\<close>

definition tag_text :: "string \<Rightarrow> u32 \<Rightarrow> string option \<Rightarrow> string" where
  "tag_text lang env_id attr = lang @
     (case source_marker (from_encoded env_id) of None \<Rightarrow> [] | Some marker \<Rightarrow> marker) @
     (case attr of None \<Rightarrow> [] | Some a \<Rightarrow> ''{'' @ a @ ''}'')"

fun join_args :: "string list \<Rightarrow> string" where
  "join_args [] = []"
| "join_args [s] = s"
| "join_args (s # t # ss) = s @ '', '' @ join_args (t # ss)"

fun reconstruct_node :: "ONode \<Rightarrow> string" where
  "reconstruct_node (RawText s) = s"
| "reconstruct_node (VarRef name) = ''$'' @ name"
| "reconstruct_node (LetBinding name expr) = ''let '' @ name @ '' = '' @ reconstruct_node expr"
| "reconstruct_node (TypedExpr lang env_id attr body) =
     tag_text lang env_id attr @ ''^('' @ concat (map reconstruct_node body) @
     '')_'' @ tag_text lang env_id attr"
| "reconstruct_node (Call fn_name args) =
     fn_name @ ''('' @ join_args (map reconstruct_node args) @ '')''"

definition reconstruct_source :: "ONode list \<Rightarrow> string" where
  "reconstruct_source nodes = concat (map reconstruct_node nodes)"

end
