(* ===== verification/Parser_Cursor.thy ===== *)
theory Parser_Cursor
  imports Parser
begin

text \<open>
  What the parser reads depends on its cursor only, so that recording source origins changes neither
  the nodes nor the errors.
\<close>

section \<open>Parsing depends on the cursor only\<close>

definition same_cursor :: "parser \<Rightarrow> parser \<Rightarrow> bool" where
  "same_cursor p q \<longleftrightarrow> pos p = pos q \<and> line p = line q"

abbreviation same_result ::
  "parse_error + ('a \<times> parser) \<Rightarrow> parse_error + ('a \<times> parser) \<Rightarrow> bool" where
  "same_result \<equiv> rel_sum (=) (rel_prod (=) same_cursor)"

named_theorems cursor_intros \<open>operations that keep related cursors related\<close>

lemma same_cursorD: "same_cursor p q \<Longrightarrow> pos q = pos p \<and> line q = line p"
  by (simp add: same_cursor_def)

lemma same_cursor_pos [cursor_intros]: "same_cursor p q \<Longrightarrow> same_cursor (p\<lparr>pos := i\<rparr>) (q\<lparr>pos := i\<rparr>)"
  by (simp add: same_cursor_def)

lemma same_cursor_depth [cursor_intros]:
  "same_cursor p q \<Longrightarrow>
     same_cursor (p\<lparr>origin_suppression_depth := i\<rparr>) (q\<lparr>origin_suppression_depth := j\<rparr>)"
  by (simp add: same_cursor_def)

lemma same_cursor_origins:
  "line (record_origin S a b p) = line p" "line (finish_origin S i b p) = line p"
  "line (extend_last_origin S b p) = line p" "line (snd (begin_origin S a p)) = line p"
  by (simp_all add: record_origin_def finish_origin_def extend_last_origin_def begin_origin_def
      split: option.splits)

lemma same_cursor_record [cursor_intros]:
  "same_cursor p q \<Longrightarrow> same_cursor (record_origin S a b p) (record_origin S a b q)"
  "same_cursor p q \<Longrightarrow> same_cursor (finish_origin S i b p) (finish_origin S j b' q)"
  "same_cursor p q \<Longrightarrow> same_cursor (extend_last_origin S b p) (extend_last_origin S b q)"
  "same_cursor p q \<Longrightarrow> same_cursor (snd (begin_origin S a p)) (snd (begin_origin S a q))"
  by (simp_all add: same_cursor_def same_cursor_origins)

lemma same_cursor_advance [cursor_intros]:
  "same_cursor p q \<Longrightarrow> same_cursor (advance_one_byte S p) (advance_one_byte S q)"
  by (auto simp: same_cursor_def advance_one_byte_def split: option.splits)

lemma same_cursor_advance_bytes [cursor_intros]:
  "same_cursor p q \<Longrightarrow> same_cursor (advance_bytes S n p) (advance_bytes S n q)"
  by (induction n arbitrary: p q) (auto intro: cursor_intros)

lemma same_cursor_advance_while [cursor_intros]:
  "same_cursor p q \<Longrightarrow> same_cursor (advance_while f S p) (advance_while f S q)"
proof (induction f S p arbitrary: q rule: advance_while.induct)
  case (1 f S p)
  have "pos q = pos p" using 1(2) by (simp add: same_cursor_def)
  then show ?case
    using 1 by (subst (1 2) advance_while.simps) (auto split: option.splits intro: cursor_intros)
qed

lemma same_cursor_skips [cursor_intros]:
  "same_cursor p q \<Longrightarrow> same_cursor (skip_horizontal_whitespace S p) (skip_horizontal_whitespace S q)"
  "same_cursor p q \<Longrightarrow> same_cursor (skip_whitespace S p) (skip_whitespace S q)"
  "same_cursor p q \<Longrightarrow> same_cursor (skip_to_end_of_line S p) (skip_to_end_of_line S q)"
  by (simp_all add: skip_horizontal_whitespace_def skip_whitespace_def skip_to_end_of_line_def
      cursor_intros)

lemma same_cursor_byte: "same_cursor p q \<Longrightarrow> current_byte S q = current_byte S p"
  by (simp add: same_cursor_def current_byte_def)

lemma same_cursor_trivia [cursor_intros]:
  "same_cursor p q \<Longrightarrow> same_cursor (skip_call_trivia S p) (skip_call_trivia S q)"
proof (induction S p arbitrary: q rule: skip_call_trivia.induct)
  case (1 S p)
  have ws: "same_cursor (skip_whitespace S p) (skip_whitespace S q)" using 1(2) by (rule cursor_intros)
  show ?case
    using 1(1) [OF refl] ws same_cursor_byte [OF ws, of S]
    by (subst (1 2) skip_call_trivia.simps) (auto simp: Let_def intro: cursor_intros)
qed

lemma same_flush:
  assumes "same_cursor p q"
  shows "rel_prod (=) same_cursor (flush_text S nodes a b p) (flush_text S nodes a b q)"
    and "rel_prod (=) same_cursor (flush_text_before_recorded S nodes a b k p)
      (flush_text_before_recorded S nodes a b k' q)"
    and "rel_prod (=) same_cursor r r' \<Longrightarrow>
      rel_prod (=) same_cursor (push_literal S lit a b r) (push_literal S lit a b r')"
  using assms
  by (auto simp: flush_text_def flush_text_before_recorded_def push_literal_def same_cursor_def
      same_cursor_origins rel_prod_conv split: option.splits list.splits ONode.splits prod.splits)

lemma same_and_then:
  assumes "rel_sum (=) A x y" "\<And>a b. x = Inr a \<Longrightarrow> y = Inr b \<Longrightarrow> A a b \<Longrightarrow> rel_sum (=) B (f a) (g b)"
  shows "rel_sum (=) B (and_then x f) (and_then y g)"
  using assms by (cases x; cases y) auto

lemma same_call_head:
  "same_cursor p q \<Longrightarrow> rel_option (rel_prod (=) same_cursor) (call_head S D p) (call_head S D q)"
  by (auto simp: call_head_def same_cursor_def split: option.splits)

lemma same_try_parse_opener:
  assumes "same_cursor p q"
  shows "rel_sum (=) (rel_option (rel_prod (=) same_cursor))
    (try_parse_opener S D p) (try_parse_opener S D q)"
  unfolding try_parse_opener_def same_cursorD [OF assms, THEN conjunct1]
    same_cursorD [OF assms, THEN conjunct2]
  using assms
  by (cases "scan_opener S D (line p) (pos p)")
    (auto simp: option.rel_map rel_prod_conv same_cursor_def intro!: option.rel_refl)

lemma same_let_head:
  assumes "same_cursor p q"
  shows "rel_option (rel_prod (=) same_cursor) (let_head S p) (let_head S q)"
proof -
  let ?p1 = "skip_horizontal_whitespace S (advance_bytes S 3 p)"
  let ?q1 = "skip_horizontal_whitespace S (advance_bytes S 3 q)"
  have c1: "same_cursor ?p1 ?q1" using assms by (intro cursor_intros)
  show ?thesis
  proof (cases "identifier_at S (pos ?p1)")
    case None
    then show ?thesis
      using same_cursorD [OF assms] same_cursorD [OF c1] by (simp add: let_head_def Let_def)
  next
    case (Some a)
    then obtain name stop where a: "a = (name, stop)" by (cases a)
    let ?p2 = "skip_horizontal_whitespace S (?p1\<lparr>pos := stop\<rparr>)"
    let ?q2 = "skip_horizontal_whitespace S (?q1\<lparr>pos := stop\<rparr>)"
    have c2: "same_cursor ?p2 ?q2" using c1 by (rule same_cursor_skips(1) [OF same_cursor_pos])
    show ?thesis
      using Some a same_cursorD [OF assms] same_cursorD [OF c1] same_cursor_byte [OF c2, of S]
        same_cursor_advance [OF c2, of S]
      by (simp add: let_head_def Let_def)
  qed
qed

fun same_step :: "step \<Rightarrow> step \<Rightarrow> bool" where
  "same_step (Finished r) (Finished r') = same_result r r'"
| "same_step (Continue n ts p) (Continue n' ts' q) = (n = n' \<and> ts = ts' \<and> same_cursor p q)"
| "same_step (LetAt name p) (LetAt name' q) = (name = name' \<and> same_cursor p q)"
| "same_step (OpenerAt t p) (OpenerAt t' q) = (t = t' \<and> same_cursor p q)"
| "same_step (CallAt name p) (CallAt name' q) = (name = name' \<and> same_cursor p q)"
| "same_step _ _ = False"

lemma same_escape_to:
  assumes "same_cursor p q"
  shows "same_step (escape_to S nodes ts p lit stop) (escape_to S nodes ts q lit stop)"
proof -
  have "rel_prod (=) same_cursor
      (push_literal S lit (pos p) stop (flush_text S nodes ts (pos p) (p\<lparr>pos := stop\<rparr>)))
      (push_literal S lit (pos p) stop (flush_text S nodes ts (pos p) (q\<lparr>pos := stop\<rparr>)))"
    using assms by (intro same_flush same_cursor_pos)
  then show ?thesis
    using same_cursorD [OF assms]
    by (auto simp: escape_to_def rel_prod_conv split: prod.splits)
qed

lemma same_escape_step:
  assumes "same_cursor p q"
  shows "rel_sum (=) (rel_option same_step) (escape_step S D ec nodes ts p) (escape_step S D ec nodes ts q)"
  using same_cursorD [OF assms] same_escape_to [OF assms, of S nodes ts]
  by (cases "scan_opener S D (line p) (pos p + 1)")
    (auto simp: escape_step_def Let_def split: option.splits)

lemma rel_option_cases:
  assumes "rel_option R x y"
  obtains "x = None" "y = None" | a b where "x = Some a" "y = Some b" "R a b"
  using assms by (cases x; cases y) auto

lemma rel_sum_cases:
  assumes "rel_sum (=) R x y"
  obtains e where "x = Inl e" "y = Inl e" | a b where "x = Inr a" "y = Inr b" "R a b"
  using assms by (cases x; cases y) auto

lemma same_next_call:
  assumes "same_cursor p q"
  shows "same_step (next_call S D ec nodes ts p) (next_call S D ec nodes ts q)"
  using same_call_head [OF assms, of S D] same_cursor_advance [OF assms, of S]
  by (cases rule: rel_option_cases) (auto simp: next_call_def)

lemma same_next_opener:
  assumes "same_cursor p q"
  shows "same_step (next_opener S D ec nodes ts p) (next_opener S D ec nodes ts q)"
  using same_try_parse_opener [OF assms, of S D] same_next_call [OF assms, of S D ec nodes ts]
  by (cases rule: rel_sum_cases) (auto simp: next_opener_def elim!: rel_option_cases)

lemma same_flushE:
  assumes "same_cursor p q"
  obtains n p1 q1 where "flush_text S nodes a b p = (n, p1)" "flush_text S nodes a b q = (n, q1)"
    "same_cursor p1 q1"
  using same_flush(1) [OF assms, of S nodes a b]
  by (cases "flush_text S nodes a b p"; cases "flush_text S nodes a b q") auto

lemma same_flush_beforeE:
  assumes "same_cursor p q"
  obtains n p1 q1 where "flush_text_before_recorded S nodes a b k p = (n, p1)"
    "flush_text_before_recorded S nodes a b k' q = (n, q1)" "same_cursor p1 q1"
  using same_flush(2) [OF assms, of S nodes a b k k']
  by (cases "flush_text_before_recorded S nodes a b k p";
      cases "flush_text_before_recorded S nodes a b k' q") auto

lemma same_next_var:
  assumes "same_cursor p q"
  shows "same_step (next_var S D ec nodes ts p) (next_var S D ec nodes ts q)"
proof (cases "try_parse_var_ref S (pos p)")
  case None
  then show ?thesis
    using same_cursorD [OF assms] same_next_opener [OF assms] by (simp add: next_var_def)
next
  case (Some a)
  then obtain name stop where a: "a = (name, stop)" by (cases a)
  obtain n p1 q1 where "flush_text S nodes ts (pos p) (p\<lparr>pos := stop\<rparr>) = (n, p1)"
    "flush_text S nodes ts (pos p) (q\<lparr>pos := stop\<rparr>) = (n, q1)" "same_cursor p1 q1"
    using same_flushE [OF same_cursor_pos [OF assms]] by blast
  then show ?thesis
    using Some a same_cursorD [OF assms] by (simp add: next_var_def cursor_intros)
qed

lemma same_next_escape:
  assumes "same_cursor p q"
  shows "same_step (next_escape S D ec nodes ts p) (next_escape S D ec nodes ts q)"
  using same_escape_step [OF assms, of S D ec nodes ts] same_next_var [OF assms, of S D ec nodes ts]
    same_cursor_byte [OF assms, of S]
  by (cases rule: rel_sum_cases) (auto simp: next_escape_def elim!: rel_option_cases)

lemma same_next_let:
  assumes "same_cursor p q"
  shows "same_step (next_let S D ec nodes ts p) (next_let S D ec nodes ts q)"
  using same_let_head [OF assms, of S] same_next_escape [OF assms, of S D ec nodes ts]
  by (cases rule: rel_option_cases) (auto simp: next_let_def)

lemma same_next_step:
  assumes "same_cursor p q"
  shows "same_step (next_step S D ec nodes ts p) (next_step S D ec nodes ts q)"
  using same_cursorD [OF assms] same_cursor_byte [OF assms, of S]
    same_next_let [OF assms, of S D ec nodes ts] same_flush(1) [OF assms, of S nodes ts "pos p"]
  by (auto simp: next_step_def rel_prod_conv Let_def cursor_intros same_cursor_skips(3) [THEN same_cursorD]
      split: option.splits prod.splits)

lemma same_begin_origin:
  assumes "same_cursor p q"
  obtains o1 p1 o2 q1 where "begin_origin S a p = (o1, p1)" "begin_origin S a q = (o2, q1)"
    "same_cursor p1 q1"
  using same_cursor_record(4) [OF assms, of S a]
  by (cases "begin_origin S a p"; cases "begin_origin S a q") auto

text \<open>After a let binding or a call, the loop resumes behind the flushed text.\<close>

lemma same_resume:
  assumes "same_result x y"
    and "\<And>b p2 n p3 q3. x = Inr (b, p2) \<Longrightarrow>
      flush_text_before_recorded S nodes ts a k p2 = (n, p3) \<Longrightarrow> same_cursor p3 q3 \<Longrightarrow>
      same_result (parse_loop S D ec (n @ [b]) (pos p3) p3) (parse_loop S D ec (n @ [b]) (pos p3) q3)"
  shows "same_result
    (and_then x (\<lambda>(b, p2). let (n, p3) = flush_text_before_recorded S nodes ts a k p2 in
       parse_loop S D ec (n @ [b]) (pos p3) p3))
    (and_then y (\<lambda>(b, p2). let (n, p3) = flush_text_before_recorded S nodes ts a k' p2 in
       parse_loop S D ec (n @ [b]) (pos p3) p3))"
proof (rule same_and_then [OF assms(1)], clarify)
  fix b p2 b' q2 assume r: "x = Inr (b, p2)" "rel_prod (=) same_cursor (b, p2) (b', q2)"
  then have "same_cursor p2 q2" by simp
  then obtain n p3 q3 where n: "flush_text_before_recorded S nodes ts a k p2 = (n, p3)"
    "flush_text_before_recorded S nodes ts a k' q2 = (n, q3)" "same_cursor p3 q3"
    by (rule same_flush_beforeE)
  then show "same_result
      (let (n, p3) = flush_text_before_recorded S nodes ts a k p2 in
         parse_loop S D ec (n @ [b]) (pos p3) p3)
      (let (n, p3) = flush_text_before_recorded S nodes ts a k' q2 in
         parse_loop S D ec (n @ [b']) (pos p3) p3)"
    using assms(2) [OF r(1) n(1,3)] r(2) same_cursorD [OF n(3)] by simp
qed

lemma parse_same_cursor:
  "same_cursor p q \<Longrightarrow> same_result (parse_loop S D ec nodes ts p) (parse_loop S D ec nodes ts q)"
  "same_cursor p q \<Longrightarrow> same_result (parse_typed_expr S D t p) (parse_typed_expr S D t q)"
  "same_cursor p q \<Longrightarrow> same_result (let_rest S D start name p) (let_rest S D start name q)"
  "same_cursor p q \<Longrightarrow> same_result (call_rest S D start name p) (call_rest S D start name q)"
  "same_cursor p q \<Longrightarrow> same_result (call_args S D name args p) (call_args S D name args q)"
  "same_cursor p q \<Longrightarrow> same_result (call_arg S D name p) (call_arg S D name q)"
proof (induction S D ec nodes ts p and S D t p and S D start name p and S D start name p
    and S D name args p and S D name p arbitrary: q and q and q and q and q and q
    rule: parse_loop_parse_typed_expr_let_rest_call_rest_call_args_call_arg.induct)
  case (1 S D ec nodes ts p)
  have pq: "pos q = pos p" using 1(8) by (simp add: same_cursor_def)
  note unfold_both = parse_loop.simps [of S D ec nodes ts p] parse_loop.simps [of S D ec nodes ts q]
  note step = same_next_step [OF 1(8), of S D ec nodes ts]
  show ?case
  proof (cases "next_step S D ec nodes ts p")
    case (Finished r)
    then show ?thesis
      using step by (cases "next_step S D ec nodes ts q") (auto simp: unfold_both)
  next
    case (Continue nodes' ts' p')
    then show ?thesis
      using step 1(1) [OF Continue] by (cases "next_step S D ec nodes ts q") (auto simp: unfold_both)
  next
    case (LetAt name p1)
    then obtain q1 where q1: "next_step S D ec nodes ts q = LetAt name q1" "same_cursor p1 q1"
      using step by (cases "next_step S D ec nodes ts q") auto
    show ?thesis
      unfolding unfold_both LetAt q1(1) step.case pq
      by (rule same_resume [OF 1(2) [OF LetAt q1(2)]]) (erule 1(3) [OF LetAt _ refl refl]; simp)
  next
    case (OpenerAt t p1)
    then obtain q1 where q1: "next_step S D ec nodes ts q = OpenerAt t q1" "same_cursor p1 q1"
      using step by (cases "next_step S D ec nodes ts q") auto
    obtain n p2 q2 where n: "flush_text S nodes ts (tag_start t) p1 = (n, p2)"
      "flush_text S nodes ts (tag_start t) q1 = (n, q2)" "same_cursor p2 q2"
      using q1(2) by (rule same_flushE)
    show ?thesis
      unfolding unfold_both OpenerAt q1(1) step.case n(1,2) Let_def prod.case
      using 1(5) [OF OpenerAt refl n(1) [symmetric]]
      by (intro same_and_then [OF 1(4) [OF OpenerAt refl n(1) [symmetric] n(3)]])
        (auto simp: same_cursor_def)
  next
    case (CallAt name p1)
    then obtain q1 where q1: "next_step S D ec nodes ts q = CallAt name q1" "same_cursor p1 q1"
      using step by (cases "next_step S D ec nodes ts q") auto
    show ?thesis
      unfolding unfold_both CallAt q1(1) step.case pq
      by (rule same_resume [OF 1(6) [OF CallAt q1(2)]]) (erule 1(7) [OF CallAt _ refl refl]; simp)
  qed
next
  case (2 S D t p)
  obtain o1 p1 o2 q1 where o: "begin_origin S (tag_start t) p = (o1, p1)"
    "begin_origin S (tag_start t) q = (o2, q1)" "same_cursor p1 q1"
    using 2(2) by (rule same_begin_origin)
  define deeper where "deeper = (\<lambda>p :: parser. if owns_quoted_syntax D (tag_lang t)
    then p\<lparr>origin_suppression_depth := origin_suppression_depth p + 1\<rparr> else p)"
  have c: "same_cursor (deeper p1) (deeper q1)" using o(3) by (simp add: deeper_def cursor_intros)
  have IH: "same_result (parse_loop S D (Some t) [] (pos (deeper p1)) (deeper p1))
      (parse_loop S D (Some t) [] (pos (deeper q1)) (deeper q1))"
    using 2(1) [OF refl o(1) [symmetric] refl _ c] same_cursorD [OF c] by (simp add: deeper_def)
  show ?case
    unfolding parse_typed_expr.simps [of S D t] o(1,2) Let_def prod.case
    by (rule same_and_then [OF IH [unfolded deeper_def]]) (auto simp: same_cursor_def same_cursor_origins)
next
  case (3 S D start name p)
  obtain o1 p1 o2 q1 where o: "begin_origin S start p = (o1, p1)"
    "begin_origin S start q = (o2, q1)" "same_cursor p1 q1"
    using 3(3) by (rule same_begin_origin)
  have c: "same_cursor (skip_whitespace S p1) (skip_whitespace S q1)"
    using o(3) by (rule same_cursor_skips)
  note unfold_both = let_rest.simps [of S D start name] o(1,2) Let_def prod.case
  from same_call_head [OF c, of S D] show ?case
  proof (cases rule: rel_option_cases)
    case 1
    show ?thesis
      unfolding unfold_both 1 option.case
    proof (rule same_and_then [OF same_try_parse_opener [OF c]])
      fix r r' assume r: "try_parse_opener S D (skip_whitespace S p1) = Inr r"
        "rel_option (rel_prod (=) same_cursor) r r'"
      from r(2) show "same_result
          (case r of None \<Rightarrow> Inl (LetNeedsExpression (line (skip_whitespace S p1)) name)
           | Some (t, p3) \<Rightarrow> and_then (parse_typed_expr S D t p3)
               (\<lambda>(e, p4). Inr (LetBinding name e, finish_origin S o1 (pos p4) p4)))
          (case r' of None \<Rightarrow> Inl (LetNeedsExpression (line (skip_whitespace S q1)) name)
           | Some (t, p3) \<Rightarrow> and_then (parse_typed_expr S D t p3)
               (\<lambda>(e, p4). Inr (LetBinding name e, finish_origin S o2 (pos p4) p4)))"
        using 3(1) [OF refl o(1) [symmetric] refl 1(1) r(1)] same_cursorD [OF c]
        by (cases rule: rel_option_cases)
          (auto intro!: same_and_then [where A = "rel_prod (=) same_cursor"] cursor_intros)
    qed
  next
    case (2 a b)
    then show ?thesis
      using 3(2) [OF refl o(1) [symmetric] refl 2(1)] same_cursorD [OF c]
      unfolding unfold_both
      by (cases a; cases b)
        (auto intro!: same_and_then [where A = "rel_prod (=) same_cursor"] cursor_intros)
  qed
next
  case (4 S D start name p)
  obtain o1 p1 o2 q1 where o: "begin_origin S start p = (o1, p1)"
    "begin_origin S start q = (o2, q1)" "same_cursor p1 q1"
    using 4(2) by (rule same_begin_origin)
  have c: "same_cursor (skip_call_trivia S (advance_one_byte S p1))
      (skip_call_trivia S (advance_one_byte S q1))"
    using o(3) by (intro cursor_intros)
  show ?case
    unfolding call_rest.simps [of S D start name] o(1,2) Let_def prod.case
    by (rule same_and_then [OF 4(1) [OF refl o(1) [symmetric] refl c]])
      (auto simp: same_cursor_def same_cursor_origins)
next
  case (5 S D name args p)
  note byte = same_cursor_byte [OF 5(3), of S]
  show ?case
  proof (cases "current_byte S p = Some (CHR '')'')")
    case True
    then show ?thesis
      using byte same_cursor_advance [OF 5(3), of S] 
      by (simp add: call_args.simps [of S D name args p] call_args.simps [of S D name args q])
  next
    case False
    have rest: "same_result
        (let p2 = skip_call_trivia S p1 in
         if current_byte S p2 = Some (CHR '','') then
           call_args S D name (args @ [arg]) (skip_call_trivia S (advance_one_byte S p2))
         else if current_byte S p2 = Some (CHR '')'') then Inr (args @ [arg], advance_one_byte S p2)
         else Inl (CallSeparator (line p2) name))
        (let p2 = skip_call_trivia S q1 in
         if current_byte S p2 = Some (CHR '','') then
           call_args S D name (args @ [arg]) (skip_call_trivia S (advance_one_byte S p2))
         else if current_byte S p2 = Some (CHR '')'') then Inr (args @ [arg], advance_one_byte S p2)
         else Inl (CallSeparator (line p2) name))"
      if arg: "call_arg S D name p = Inr (arg, p1)" and c1: "same_cursor p1 q1" for arg p1 q1
    proof -
      have c2: "same_cursor (skip_call_trivia S p1) (skip_call_trivia S q1)"
        using c1 by (rule cursor_intros)
      have c3: "same_cursor (advance_one_byte S (skip_call_trivia S p1))
          (advance_one_byte S (skip_call_trivia S q1))"
        using c2 by (rule cursor_intros)
      show ?thesis
        using 5(2) [OF False arg refl refl _ same_cursor_trivia [OF c3]] c3
          same_cursor_byte [OF c2, of S] same_cursorD [OF c2] by (simp add: Let_def)
    qed
    show ?thesis
      unfolding call_args.simps [of S D name args p] call_args.simps [of S D name args q] byte
        if_not_P [OF False]
      by (rule same_and_then [OF 5(1) [OF False 5(3)]]) (auto intro: rest)
  qed
next
  case (6 S D name p)
  note byte = same_cursor_byte [OF 6(3), of S] and eqs = same_cursorD [OF 6(3)]
  show ?case
  proof (cases "current_byte S p = Some (CHR ''$'')")
    case True
    then show ?thesis
      using byte eqs 6(3)
      by (auto simp: call_arg.simps [of S D name p] call_arg.simps [of S D name q] cursor_intros
          split: option.splits)
  next
    case False
    note unfold_both = call_arg.simps [of S D name p] call_arg.simps [of S D name q] byte
      if_not_P [OF False]
    from same_call_head [OF 6(3), of S D] show ?thesis
    proof (cases rule: rel_option_cases)
      case 1
      show ?thesis
        unfolding unfold_both 1 option.case using 6(1) [OF False 1(1)] eqs
        by (intro same_and_then [OF same_try_parse_opener [OF 6(3)]])
          (auto elim!: rel_option_cases)
    next
      case (2 a b)
      then show ?thesis
        unfolding unfold_both using 6(2) [OF False 2(1)] eqs by (cases a; cases b) auto
    qed
  qed
qed

section \<open>Properties\<close>

text \<open>C24: Recording source origins leaves the syntax alone: parsing with origins fails with the same
  error or gives the same nodes as parsing without them.\<close>

theorem origins_keep_syntax:
  "map_sum id doc_nodes (parse_with_origins sha256 S D p) = map_sum id fst (parse S D p)"
proof -
  let ?p = "p\<lparr>line_starts := Some (newline_starts S), plan_origins := Some [],
      origin_suppression_depth := 0\<rparr>"
  let ?q = "p\<lparr>line_starts := None, plan_origins := None\<rparr>"
  have "same_result (parse_until S D None ?p) (parse_until S D None ?q)"
    unfolding parse_until_def using parse_same_cursor(1) [of ?p ?q S D None "[]" "pos p"]
    by (simp add: same_cursor_def)
  then show ?thesis
    by (cases rule: rel_sum_cases) (auto simp: parse_with_origins_def parse_def)
qed

end
