(* ===== verification/Parser_Runs.thy ===== *)
theory Parser_Runs
  imports Parser
begin

text \<open>
  The successful runs of the parser as a big-step relation over its productions, the induction
  principle for what a parse does to the parser state.
\<close>

section \<open>Successful runs\<close>

text \<open>
  The successful runs of the productions as a big-step relation, for rule induction. The depth of
  suppression is raised while the body of a block that captures syntax is parsed.
\<close>

definition raise_depth :: "dialect \<Rightarrow> tag \<Rightarrow> parser \<Rightarrow> parser" where
  "raise_depth D t p = (if owns_quoted_syntax D (tag_lang t)
     then p\<lparr>origin_suppression_depth := origin_suppression_depth p + 1\<rparr> else p)"

definition lower_depth :: "dialect \<Rightarrow> tag \<Rightarrow> parser \<Rightarrow> parser" where
  "lower_depth D t p = (if owns_quoted_syntax D (tag_lang t)
     then p\<lparr>origin_suppression_depth := origin_suppression_depth p - 1\<rparr> else p)"

inductive loop_run ::
    "string \<Rightarrow> dialect \<Rightarrow> tag option \<Rightarrow> ONode list \<Rightarrow> nat \<Rightarrow> parser \<Rightarrow> ONode list \<Rightarrow> parser \<Rightarrow> bool"
  and typed_run :: "string \<Rightarrow> dialect \<Rightarrow> tag \<Rightarrow> parser \<Rightarrow> ONode \<Rightarrow> parser \<Rightarrow> bool"
  and let_run :: "string \<Rightarrow> dialect \<Rightarrow> nat \<Rightarrow> string \<Rightarrow> parser \<Rightarrow> ONode \<Rightarrow> parser \<Rightarrow> bool"
  and call_run :: "string \<Rightarrow> dialect \<Rightarrow> nat \<Rightarrow> string \<Rightarrow> parser \<Rightarrow> ONode \<Rightarrow> parser \<Rightarrow> bool"
  and args_run :: "string \<Rightarrow> dialect \<Rightarrow> string \<Rightarrow> ONode list \<Rightarrow> parser \<Rightarrow> ONode list \<Rightarrow> parser \<Rightarrow> bool"
  and arg_run :: "string \<Rightarrow> dialect \<Rightarrow> string \<Rightarrow> parser \<Rightarrow> ONode \<Rightarrow> parser \<Rightarrow> bool"
  for S D
where
  loop_finished: "next_step S D ec nodes ts p = Finished (Inr (ns, p')) \<Longrightarrow>
    loop_run S D ec nodes ts p ns p'"
| loop_continue: "next_step S D ec nodes ts p = Continue nodes' ts' q \<Longrightarrow>
    loop_run S D ec nodes' ts' q ns p' \<Longrightarrow> loop_run S D ec nodes ts p ns p'"
| loop_let: "next_step S D ec nodes ts p = LetAt name p1 \<Longrightarrow>
    let_run S D (pos p) name p1 b p2 \<Longrightarrow>
    flush_text_before_recorded S nodes ts (pos p) (origin_count p) p2 = (nodes', p3) \<Longrightarrow>
    loop_run S D ec (nodes' @ [b]) (pos p3) p3 ns p' \<Longrightarrow> loop_run S D ec nodes ts p ns p'"
| loop_opener: "next_step S D ec nodes ts p = OpenerAt t p1 \<Longrightarrow>
    flush_text S nodes ts (tag_start t) p1 = (nodes', p2) \<Longrightarrow> typed_run S D t p2 e p3 \<Longrightarrow>
    loop_run S D ec (nodes' @ [e]) (pos p3) p3 ns p' \<Longrightarrow> loop_run S D ec nodes ts p ns p'"
| loop_call: "next_step S D ec nodes ts p = CallAt name p1 \<Longrightarrow>
    call_run S D (pos p) name p1 c p2 \<Longrightarrow>
    flush_text_before_recorded S nodes ts (pos p) (origin_count p) p2 = (nodes', p3) \<Longrightarrow>
    loop_run S D ec (nodes' @ [c]) (pos p3) p3 ns p' \<Longrightarrow> loop_run S D ec nodes ts p ns p'"
| typed: "begin_origin S (tag_start t) p = (origin, p1) \<Longrightarrow>
    loop_run S D (Some t) [] (pos p) (raise_depth D t p1) body p3 \<Longrightarrow>
    typed_run S D t p (TypedExpr (tag_lang t) (tag_env_id t) (tag_attr t) body)
      (finish_origin S origin (pos p3) (lower_depth D t p3))"
| let_call: "begin_origin S start p = (origin, p1) \<Longrightarrow>
    call_head S D (skip_whitespace S p1) = Some (fn_name, p3) \<Longrightarrow>
    call_run S D (pos (skip_whitespace S p1)) fn_name p3 c p4 \<Longrightarrow>
    let_run S D start name p (LetBinding name c) (finish_origin S origin (pos p4) p4)"
| let_typed: "begin_origin S start p = (origin, p1) \<Longrightarrow>
    try_parse_opener S D (skip_whitespace S p1) = Inr (Some (t, p3)) \<Longrightarrow>
    typed_run S D t p3 e p4 \<Longrightarrow>
    let_run S D start name p (LetBinding name e) (finish_origin S origin (pos p4) p4)"
| call: "begin_origin S start p = (origin, p1) \<Longrightarrow>
    args_run S D name [] (skip_call_trivia S (advance_one_byte S p1)) args p3 \<Longrightarrow>
    call_run S D start name p (Call name args) (finish_origin S origin (pos p3) p3)"
| args_end: "current_byte S p = Some (CHR '')'') \<Longrightarrow>
    args_run S D name args p args (advance_one_byte S p)"
| args_more: "arg_run S D name p arg p1 \<Longrightarrow>
    current_byte S (skip_call_trivia S p1) = Some (CHR '','') \<Longrightarrow>
    args_run S D name (args @ [arg])
      (skip_call_trivia S (advance_one_byte S (skip_call_trivia S p1))) as p' \<Longrightarrow>
    args_run S D name args p as p'"
| args_last: "arg_run S D name p arg p1 \<Longrightarrow>
    args_run S D name args p (args @ [arg]) (advance_one_byte S (skip_call_trivia S p1))"
| arg_var: "try_parse_var_ref S (pos p) = Some (var, stop) \<Longrightarrow>
    arg_run S D name p (VarRef var) (record_origin S (pos p) stop (p\<lparr>pos := stop\<rparr>))"
| arg_call: "call_head S D p = Some (fn_name, p1) \<Longrightarrow> call_run S D (pos p) fn_name p1 c p2 \<Longrightarrow>
    arg_run S D name p c p2"
| arg_typed: "try_parse_opener S D p = Inr (Some (t, p1)) \<Longrightarrow> typed_run S D t p1 e p2 \<Longrightarrow>
    arg_run S D name p e p2"

lemma parse_runs:
  "parse_loop S D ec nodes ts p = Inr (ns, p') \<Longrightarrow> loop_run S D ec nodes ts p ns p'"
  "parse_typed_expr S D t p = Inr (e, p') \<Longrightarrow> typed_run S D t p e p'"
  "let_rest S D start name p = Inr (e, p') \<Longrightarrow> let_run S D start name p e p'"
  "call_rest S D start name p = Inr (e, p') \<Longrightarrow> call_run S D start name p e p'"
  "call_args S D name args p = Inr (ns, p') \<Longrightarrow> args_run S D name args p ns p'"
  "call_arg S D name p = Inr (e, p') \<Longrightarrow> arg_run S D name p e p'"
proof (induction S D ec nodes ts p and S D t p and S D start name p and S D start name p
    and S D name args p and S D name p
    arbitrary: ns p' and e p' and e p' and e p' and ns p' and e p'
    rule: parse_loop_parse_typed_expr_let_rest_call_rest_call_args_call_arg.induct)
  case (1 S D ec nodes ts p)
  note run = 1(8) [unfolded parse_loop.simps [of S D ec nodes ts p]]
  show ?case
  proof (cases "next_step S D ec nodes ts p")
    case (Finished r)
    then show ?thesis using run by (auto intro: loop_finished)
  next
    case (Continue nodes' ts' q)
    then show ?thesis using run 1(1) [OF Continue] by (auto intro: loop_continue)
  next
    case (LetAt name p1)
    then obtain b p2 nodes' p3 where r: "let_rest S D (pos p) name p1 = Inr (b, p2)"
      "flush_text_before_recorded S nodes ts (pos p) (origin_count p) p2 = (nodes', p3)"
      "parse_loop S D ec (nodes' @ [b]) (pos p3) p3 = Inr (ns, p')"
      using run by (auto elim!: and_then_pairE split: prod.splits)
    show ?thesis
      by (rule loop_let [OF LetAt 1(2) [OF LetAt r(1)] r(2)
            1(3) [OF LetAt r(1) refl refl r(2) [symmetric] r(3)]])
  next
    case (OpenerAt t p1)
    then obtain nodes' p2 e p3 where r: "flush_text S nodes ts (tag_start t) p1 = (nodes', p2)"
      "parse_typed_expr S D t p2 = Inr (e, p3)"
      "parse_loop S D ec (nodes' @ [e]) (pos p3) p3 = Inr (ns, p')"
      using run by (auto elim!: and_then_pairE split: prod.splits)
    show ?thesis
      by (rule loop_opener [OF OpenerAt r(1) 1(4) [OF OpenerAt refl r(1) [symmetric] r(2)]
            1(5) [OF OpenerAt refl r(1) [symmetric] r(2) refl r(3)]])
  next
    case (CallAt name p1)
    then obtain b p2 nodes' p3 where r: "call_rest S D (pos p) name p1 = Inr (b, p2)"
      "flush_text_before_recorded S nodes ts (pos p) (origin_count p) p2 = (nodes', p3)"
      "parse_loop S D ec (nodes' @ [b]) (pos p3) p3 = Inr (ns, p')"
      using run by (auto elim!: and_then_pairE split: prod.splits)
    show ?thesis
      by (rule loop_call [OF CallAt 1(6) [OF CallAt r(1)] r(2)
            1(7) [OF CallAt r(1) refl refl r(2) [symmetric] r(3)]])
  qed
next
  case (2 S D t p)
  obtain origin p1 where o: "begin_origin S (tag_start t) p = (origin, p1)" by fastforce
  have pos: "pos p = pos (raise_depth D t p1)"
    using begin_origin_pos [OF o] by (simp add: raise_depth_def)
  from 2(2) o obtain body p3 where
    "parse_loop S D (Some t) [] (pos (raise_depth D t p1)) (raise_depth D t p1) = Inr (body, p3)"
    "e = TypedExpr (tag_lang t) (tag_env_id t) (tag_attr t) body"
    "p' = finish_origin S origin (pos p3) (lower_depth D t p3)"
    by (simp add: parse_typed_expr.simps [of S D t p] raise_depth_def [symmetric] lower_depth_def [symmetric])
      (auto elim!: and_then_pairE simp: lower_depth_def Let_def)
  then show ?case
    using 2(1) [OF refl o [symmetric] refl raise_depth_def] typed [OF o] pos by metis
next
  case (3 S D start name p)
  obtain origin p1 where o: "begin_origin S start p = (origin, p1)" by fastforce
  show ?case
  proof (cases "call_head S D (skip_whitespace S p1)")
    case None
    then obtain t p3 e' p4 where r: "try_parse_opener S D (skip_whitespace S p1) = Inr (Some (t, p3))"
      "parse_typed_expr S D t p3 = Inr (e', p4)"
      "e = LetBinding name e'" "p' = finish_origin S origin (pos p4) p4"
      using 3(3) o
      by (auto simp: let_rest.simps [of S D start name p] Let_def elim!: and_then_InrE and_then_pairE split: option.splits)
    then show ?thesis
      using 3(1) [OF refl o [symmetric] refl None r(1) refl refl] let_typed [OF o] by simp
  next
    case (Some h)
    then obtain fn_name p3 c p4 where r: "h = (fn_name, p3)"
      "call_rest S D (pos (skip_whitespace S p1)) fn_name p3 = Inr (c, p4)"
      "e = LetBinding name c" "p' = finish_origin S origin (pos p4) p4"
      using 3(3) o by (cases h) (auto simp: let_rest.simps [of S D start name p] Let_def elim!: and_then_pairE)
    then show ?thesis
      using 3(2) [OF refl o [symmetric] refl Some r(1) [symmetric]] let_call [OF o] Some by simp
  qed
next
  case (4 S D start name p)
  obtain origin p1 where o: "begin_origin S start p = (origin, p1)" by fastforce
  obtain args p3 where r:
    "call_args S D name [] (skip_call_trivia S (advance_one_byte S p1)) = Inr (args, p3)"
    "e = Call name args" "p' = finish_origin S origin (pos p3) p3"
    using 4(2) o by (auto simp: call_rest.simps [of S D start name p] Let_def elim!: and_then_pairE split: if_splits)
  then show ?case using 4(1) [OF refl o [symmetric] refl r(1)] call [OF o] by simp
next
  case (5 S D name args p)
  show ?case
  proof (cases "current_byte S p = Some (CHR '')'')")
    case True
    then show ?thesis using 5(3) args_end by (auto simp: call_args.simps [of S D name args p])
  next
    case False
    then obtain arg p1 where arg: "call_arg S D name p = Inr (arg, p1)"
      and rest: "(let p2 = skip_call_trivia S p1 in
        if current_byte S p2 = Some (CHR '','') then
          call_args S D name (args @ [arg]) (skip_call_trivia S (advance_one_byte S p2))
        else if current_byte S p2 = Some (CHR '')'') then Inr (args @ [arg], advance_one_byte S p2)
        else Inl (CallSeparator (line p2) name)) = Inr (ns, p')"
      using 5(3) by (auto simp: call_args.simps [of S D name args p] elim!: and_then_pairE)
    show ?thesis
    proof (cases "current_byte S (skip_call_trivia S p1) = Some (CHR '','')")
      case True
      then show ?thesis
        using rest by (intro args_more [OF 5(1) [OF False arg] True] 5(2) [OF False arg refl refl])
          (simp_all add: Let_def)
    next
      case no_comma: False
      then show ?thesis
        using rest args_last [OF 5(1) [OF False arg], of args] by (auto simp: Let_def split: if_splits)
    qed
  qed
next
  case (6 S D name p)
  show ?case
  proof (cases "current_byte S p = Some (CHR ''$'')")
    case True
    then show ?thesis
      using 6(3) arg_var by (auto simp: call_arg.simps [of S D name p] split: option.splits)
  next
    case nodollar: False
    show ?thesis
    proof (cases "call_head S D p")
      case None
      then obtain t p1 where r: "try_parse_opener S D p = Inr (Some (t, p1))"
        "parse_typed_expr S D t p1 = Inr (e, p')"
        using 6(3) nodollar
        by (auto simp: call_arg.simps [of S D name p] elim!: and_then_InrE split: option.splits)
      then show ?thesis using 6(1) [OF nodollar None r(1) refl refl] arg_typed by blast
    next
      case (Some h)
      then show ?thesis
        using 6(2) [OF nodollar Some] 6(3) nodollar arg_call
        by (cases h) (auto simp: call_arg.simps [of S D name p])
    qed
  qed
qed

end
