(* ===== verification/Parser_Origins.thy ===== *)
theory Parser_Origins
  imports Parser_Runs
begin

text \<open>
  The source-origin sidecar: its entries correspond one to one, in preorder, to the syntax nodes that
  are not inside captured syntax, and each starts at the text of its node.
\<close>

section \<open>What a run does to the sidecar\<close>

text \<open>The nodes of a syntax tree in preorder, without those inside captured syntax.\<close>

fun plan_preorder :: "dialect \<Rightarrow> ONode \<Rightarrow> ONode list" where
  "plan_preorder D (LetBinding name e) = LetBinding name e # plan_preorder D e"
| "plan_preorder D (TypedExpr lang env_id attr body) = TypedExpr lang env_id attr body #
     (if owns_quoted_syntax D lang then [] else concat (map (plan_preorder D) body))"
| "plan_preorder D (Call fn_name args) =
     Call fn_name args # concat (map (plan_preorder D) args)"
| "plan_preorder D n = [n]"

abbreviation plan_preorders :: "dialect \<Rightarrow> ONode list \<Rightarrow> ONode list" where
  "plan_preorders D ns \<equiv> concat (map (plan_preorder D) ns)"

text \<open>
  Raw text is a piece of the source, or the literal behind a backslash, and then the literals of the escapes that
  follow it. Only whole comments may stand before such an escape: text between them would be a node of its own.
\<close>

inductive comments :: "string \<Rightarrow> nat \<Rightarrow> nat \<Rightarrow> bool" for S where
  comments_none: "comments S a a"
| comments_line: "comments S a b \<Longrightarrow> byte_at S b = Some (CHR ''#'') \<Longrightarrow> b < c \<Longrightarrow>
    byte_at S (c - 1) = Some newline \<or> length S \<le> c \<Longrightarrow> comments S a c"

inductive raw_text :: "string \<Rightarrow> nat \<Rightarrow> nat \<Rightarrow> string \<Rightarrow> bool" for S where
  raw_piece: "a < b \<Longrightarrow> raw_text S a b (substr S a b)"
| raw_literal: "byte_at S a = Some backslash \<Longrightarrow> a + 1 < b \<Longrightarrow> raw_text S a b (substr S (a + 1) b)"
| raw_more: "raw_text S a b s \<Longrightarrow> comments S b c \<Longrightarrow> byte_at S c = Some backslash \<Longrightarrow> c + 1 < e \<Longrightarrow>
    raw_text S a e (s @ substr S (c + 1) e)"

text \<open>A span belongs to a node when the text at its start is the syntax of that node.\<close>

fun origin_matches :: "string \<Rightarrow> dialect \<Rightarrow> ONode \<Rightarrow> source_span \<Rightarrow> bool" where
  "origin_matches S D (RawText s) sp = raw_text S (start_byte sp) (end_byte sp) s"
| "origin_matches S D (VarRef name) sp =
     (substr S (start_byte sp) (end_byte sp) = CHR ''$'' # name)"
| "origin_matches S D (LetBinding name e) sp =
     (\<exists>p p'. pos p = start_byte sp \<and> let_head S p = Some (name, p') \<and> pos p' \<le> end_byte sp)"
| "origin_matches S D (TypedExpr lang env_id attr body) sp =
     (\<exists>ln t stop. scan_opener S D ln (start_byte sp) = Inr (Some (t, stop)) \<and>
        tag_lang t = lang \<and> tag_env_id t = env_id \<and> tag_attr t = attr \<and> stop \<le> end_byte sp)"
| "origin_matches S D (Call fn_name args) sp =
     (\<exists>stop. identifier_at S (start_byte sp) = Some (fn_name, stop) \<and>
        byte_at S stop = Some (CHR ''('') \<and> stop < end_byte sp)"

text \<open>Moving the cursor does not touch the sidecar.\<close>

lemma sidecar_advance_one_byte [simp]:
  "plan_origins (advance_one_byte S p) = plan_origins p"
  "origin_suppression_depth (advance_one_byte S p) = origin_suppression_depth p"
  by (simp_all add: advance_one_byte_def split: option.splits)

lemma sidecar_advance_bytes [simp]:
  "plan_origins (advance_bytes S n p) = plan_origins p \<and>
   origin_suppression_depth (advance_bytes S n p) = origin_suppression_depth p"
  by (induction n arbitrary: p) auto

lemma sidecar_advance_while [simp]:
  "plan_origins (advance_while f S p) = plan_origins p \<and>
   origin_suppression_depth (advance_while f S p) = origin_suppression_depth p"
proof (induction f S p rule: advance_while.induct)
  case (1 f S p)
  then show ?case by (subst (1 2) advance_while.simps) (auto split: option.splits)
qed

lemma sidecar_skips [simp]:
  "plan_origins (skip_horizontal_whitespace S p) = plan_origins p"
  "origin_suppression_depth (skip_horizontal_whitespace S p) = origin_suppression_depth p"
  "plan_origins (skip_whitespace S p) = plan_origins p"
  "origin_suppression_depth (skip_whitespace S p) = origin_suppression_depth p"
  "plan_origins (skip_to_end_of_line S p) = plan_origins p"
  "origin_suppression_depth (skip_to_end_of_line S p) = origin_suppression_depth p"
  by (simp_all add: skip_horizontal_whitespace_def skip_whitespace_def skip_to_end_of_line_def)

lemma sidecar_trivia [simp]:
  "plan_origins (skip_call_trivia S p) = plan_origins p \<and>
   origin_suppression_depth (skip_call_trivia S p) = origin_suppression_depth p"
proof (induction S p rule: skip_call_trivia.induct)
  case (1 S p)
  then show ?case by (subst (1 2) skip_call_trivia.simps) (auto simp: Let_def)
qed

text \<open>Between two states, suppressed recording leaves the sidecar alone.\<close>

definition frame :: "parser \<Rightarrow> parser \<Rightarrow> bool" where
  "frame p p' \<longleftrightarrow> origin_suppression_depth p' = origin_suppression_depth p \<and>
     (origin_suppression_depth p \<noteq> 0 \<longrightarrow> plan_origins p' = plan_origins p)"

text \<open>The sidecar after recording the nodes \<open>ns\<close> behind the first entries \<open>os\<close>.\<close>

definition records :: "string \<Rightarrow> dialect \<Rightarrow> source_span list \<Rightarrow> ONode list \<Rightarrow> parser \<Rightarrow> bool" where
  "records S D os ns p \<longleftrightarrow> origin_suppression_depth p = 0 \<and>
     (\<exists>sp. plan_origins p = Some (os @ sp) \<and> (\<forall>x \<in> set sp. end_byte x \<le> pos p) \<and>
        list_all2 (origin_matches S D) (plan_preorders D ns) sp)"

text \<open>Where the pending text begins: when the last node is raw text, only comments stand between the two.\<close>

definition pending_at :: "string \<Rightarrow> ONode list \<Rightarrow> nat \<Rightarrow> parser \<Rightarrow> bool" where
  "pending_at S ns ts p \<longleftrightarrow> (\<forall>s before os x. ns = before @ [RawText s] \<longrightarrow> plan_origins p = Some (os @ [x]) \<longrightarrow>
     comments S (end_byte x) ts)"

definition loop_records :: "string \<Rightarrow> dialect \<Rightarrow> source_span list \<Rightarrow> ONode list \<Rightarrow> nat \<Rightarrow> parser \<Rightarrow> bool" where
  "loop_records S D os ns ts p \<longleftrightarrow> records S D os ns p \<and> pending_at S ns ts p \<and> ts \<le> pos p"

lemma frame_refl [simp]: "frame p p"
  by (simp add: frame_def)

lemma frame_trans [trans]: "frame p q \<Longrightarrow> frame q r \<Longrightarrow> frame p r"
  by (simp add: frame_def)

lemma span_bytes [simp]:
  "start_byte (source_span_of S p a b) = a" "end_byte (source_span_of S p a b) = b"
  "start_byte (end_span S p b x) = start_byte x" "end_byte (end_span S p b x) = b"
  by (simp_all add: source_span_of_def end_span_def source_position_def Let_def split: option.splits)

lemma frame_origins:
  "frame p (record_origin S a b p)" "frame p (extend_last_origin S b p)"
  "frame p (snd (begin_origin S a p))" "frame p (snd (flush_text S nodes a b p))"
  "frame p (snd (flush_text_before_recorded S nodes a b k p))"
  "frame q (snd (push_literal S lit a b (nodes, q)))"
  by (auto simp: frame_def record_origin_def extend_last_origin_def begin_origin_def recording_def
      flush_text_def flush_text_before_recorded_def push_literal_def
      split: option.splits list.splits ONode.splits)

lemma frame_begin: "begin_origin S a p = (origin, p1) \<Longrightarrow> frame p p1"
  using frame_origins(3) [of p S a] by simp

lemma frame_finish:
  assumes "begin_origin S a p = (origin, p1)" "frame p q"
  shows "frame p (finish_origin S origin b q)"
  using assms
  by (auto simp: frame_def finish_origin_def begin_origin_def recording_def split: option.splits if_splits)

lemma frame_flush: "flush_text S nodes a b p = (nodes', p') \<Longrightarrow> frame p p'"
  using frame_origins(4) [of p S nodes a b] by simp

lemma frame_flush_before:
  "flush_text_before_recorded S nodes a b k p = (nodes', p') \<Longrightarrow> frame p p'"
  using frame_origins(5) [of p S nodes a b k] by simp

lemma records_mono:
  "records S D os ns p \<Longrightarrow> plan_origins q = plan_origins p \<Longrightarrow>
     origin_suppression_depth q = origin_suppression_depth p \<Longrightarrow> pos p \<le> pos q \<Longrightarrow> records S D os ns q"
  by (force simp: records_def)

lemma records_Nil: "origin_suppression_depth p = 0 \<Longrightarrow> plan_origins p = Some os \<Longrightarrow> records S D os [] p"
  by (simp add: records_def)

lemma records_record:
  assumes "records S D os ns p" "origin_matches S D n (source_span_of S p a b)"
    "plan_preorder D n = [n]" "b \<le> pos p"
  shows "records S D os (ns @ [n]) (record_origin S a b p)"
  using assms
  by (auto simp: records_def record_origin_def recording_def intro!: list_all2_appendI split: option.splits)

lemma records_flush:
  assumes "records S D os ns p" "flush_text S ns a b p = (ns', p')" "b \<le> pos p"
  shows "records S D os ns' p'"
  using assms records_record [of S D os ns p "RawText (substr S a b)" a b]
  by (auto simp: flush_text_def raw_piece split: if_splits)

lemma loop_records_mono:
  "loop_records S D os ns ts p \<Longrightarrow> plan_origins q = plan_origins p \<Longrightarrow>
     origin_suppression_depth q = origin_suppression_depth p \<Longrightarrow> pos p \<le> pos q \<Longrightarrow> loop_records S D os ns ts q"
  by (auto simp: loop_records_def pending_at_def elim: records_mono)

lemma loop_recordsI:
  "records S D os (ns @ [n]) p \<Longrightarrow> (\<And>s. n \<noteq> RawText s) \<Longrightarrow> ts \<le> pos p \<Longrightarrow> loop_records S D os (ns @ [n]) ts p"
  by (simp add: loop_records_def pending_at_def)

lemma loop_records_Nil: "records S D os [] p \<Longrightarrow> loop_records S D os [] (pos p) p"
  by (simp add: loop_records_def pending_at_def)

lemma records_last:
  assumes "records S D os (before @ [RawText s]) p"
  obtains sp x where "plan_origins p = Some (os @ sp @ [x])" "\<forall>y \<in> set sp. end_byte y \<le> pos p"
    "raw_text S (start_byte x) (end_byte x) s" "list_all2 (origin_matches S D) (plan_preorders D before) sp"
    "origin_suppression_depth p = 0" "end_byte x \<le> pos p"
proof -
  obtain sq where sq: "plan_origins p = Some (os @ sq)" "\<forall>y \<in> set sq. end_byte y \<le> pos p"
    "list_all2 (origin_matches S D) (plan_preorders D before @ [RawText s]) sq" "origin_suppression_depth p = 0"
    using assms by (auto simp: records_def)
  then obtain sp x where "sq = sp @ [x]" "list_all2 (origin_matches S D) (plan_preorders D before) sp"
    "origin_matches S D (RawText s) x"
    by (auto simp: list_all2_append1 list_all2_Cons1)
  then show thesis using sq that by simp
qed

lemma pending_flush:
  assumes "loop_records S D os ns ts p" "flush_text S ns ts b p = (ns', p')" "ts \<le> b" "b \<le> pos p"
  shows "loop_records S D os ns' b p'"
proof (cases "ts < b")
  case True
  then have ns': "ns' = ns @ [RawText (substr S ts b)]" "p' = record_origin S ts b p"
    using assms(2) by (auto simp: flush_text_def)
  then have "pending_at S ns' b p'"
    using assms(1) by (auto simp: pending_at_def record_origin_def recording_def loop_records_def records_def
        comments_none split: option.splits)
  then show ?thesis using records_flush [OF _ assms(2,4)] assms(1,4) flush_text_pos [OF assms(2)] by (simp add: loop_records_def)
next
  case False
  then show ?thesis using assms by (simp add: flush_text_def)
qed

lemma records_push_literal:
  assumes "loop_records S D os ns a p" "push_literal S lit a b (ns, p) = (ns', p')" "b = pos p"
    and lit: "byte_at S a = Some backslash" "a + 1 < b" "lit = substr S (a + 1) b"
  shows "loop_records S D os ns' b p'"
proof (cases "\<exists>s before. rev ns = RawText s # before")
  case True
  then obtain s before where "rev ns = RawText s # before" by blast
  then have ns: "ns = rev before @ [RawText s]" by simp
  obtain sp x where x: "plan_origins p = Some (os @ sp @ [x])" "\<forall>y \<in> set sp. end_byte y \<le> pos p"
    "raw_text S (start_byte x) (end_byte x) s" "list_all2 (origin_matches S D) (plan_preorders D (rev before)) sp"
    "origin_suppression_depth p = 0"
    using assms(1) records_last unfolding loop_records_def ns by metis
  have "comments S (end_byte x) a" using assms(1) x(1) ns by (auto simp: loop_records_def pending_at_def)
  then have "raw_text S (start_byte x) b (s @ lit)" using raw_more [OF x(3)] lit by blast
  moreover have "ns' = rev before @ [RawText (s @ lit)]" "p' = p\<lparr>plan_origins := Some (os @ sp @ [end_span S p b x])\<rparr>"
    using assms(2) x(1,5) ns by (auto simp: push_literal_def extend_last_origin_def recording_def butlast_append)
  ultimately show ?thesis
    using x(2,4,5) assms(3)
    by (auto simp: loop_records_def records_def pending_at_def comments_none intro!: list_all2_appendI)
next
  case False
  then have "ns' = ns @ [RawText lit]" "p' = record_origin S a b p"
    using assms(2) by (auto simp: push_literal_def split: list.splits ONode.splits)
  moreover have "raw_text S a b lit" using raw_literal lit by blast
  ultimately show ?thesis
    using assms(1,3) records_record [of S D os ns p "RawText lit" a b]
    by (auto simp: loop_records_def pending_at_def record_origin_def recording_def records_def comments_none split: option.splits)
qed

section \<open>One turn and the sidecar\<close>

text \<open>How a turn of the loop from \<open>p\<close> leaves the sidecar, and what stands at the cursor.\<close>

fun step_frames :: "string \<Rightarrow> dialect \<Rightarrow> parser \<Rightarrow> step \<Rightarrow> bool" where
  "step_frames S D p (Finished r) = (\<forall>ns p'. r = Inr (ns, p') \<longrightarrow> frame p p')"
| "step_frames S D p (Continue ns ts p') = frame p p'"
| "step_frames S D p (LetAt name p') = (plan_origins p' = plan_origins p \<and>
     origin_suppression_depth p' = origin_suppression_depth p \<and> let_head S p = Some (name, p'))"
| "step_frames S D p (OpenerAt t p') = (plan_origins p' = plan_origins p \<and>
     origin_suppression_depth p' = origin_suppression_depth p \<and>
     scan_opener S D (line p) (pos p) = Inr (Some (t, pos p')))"
| "step_frames S D p (CallAt name p') = (plan_origins p' = plan_origins p \<and>
     origin_suppression_depth p' = origin_suppression_depth p \<and>
     identifier_at S (pos p) = Some (name, pos p') \<and> byte_at S (pos p') = Some (CHR ''(''))"

fun step_records :: "string \<Rightarrow> dialect \<Rightarrow> source_span list \<Rightarrow> step \<Rightarrow> bool" where
  "step_records S D os (Finished r) = (\<forall>ns p'. r = Inr (ns, p') \<longrightarrow> records S D os ns p')"
| "step_records S D os (Continue ns ts p') = loop_records S D os ns ts p'"
| "step_records S D os _ = True"

lemma call_head_at:
  "call_head S D p = Some (name, p') \<Longrightarrow> plan_origins p' = plan_origins p \<and>
     origin_suppression_depth p' = origin_suppression_depth p \<and>
     identifier_at S (pos p) = Some (name, pos p') \<and> byte_at S (pos p') = Some (CHR ''('')"
  by (auto simp: call_head_def split: option.splits if_splits)

lemma opener_at:
  "try_parse_opener S D p = Inr (Some (t, p')) \<Longrightarrow> plan_origins p' = plan_origins p \<and>
     origin_suppression_depth p' = origin_suppression_depth p \<and>
     scan_opener S D (line p) (pos p) = Inr (Some (t, pos p'))"
  by (auto simp: try_parse_opener_def elim!: and_then_InrE)

lemma let_head_at:
  "let_head S p = Some (name, p') \<Longrightarrow> plan_origins p' = plan_origins p \<and>
     origin_suppression_depth p' = origin_suppression_depth p"
  by (auto simp: let_head_def Let_def split: option.splits if_splits)

lemma escape_to_sidecar:
  assumes "byte_at S (pos p) = Some backslash" "pos p + 1 < stop" "lit = substr S (pos p + 1) stop"
  shows "step_frames S D p (escape_to S nodes ts p lit stop)"
    and "loop_records S D os nodes ts p \<Longrightarrow> step_records S D os (escape_to S nodes ts p lit stop)"
proof -
  obtain ns q where q: "flush_text S nodes ts (pos p) (p\<lparr>pos := stop\<rparr>) = (ns, q)" by fastforce
  obtain ns' q' where q': "push_literal S lit (pos p) stop (ns, q) = (ns', q')" by fastforce
  have esc: "escape_to S nodes ts p lit stop = Continue ns' stop q'"
    by (simp add: escape_to_def q q')
  have "frame p (p\<lparr>pos := stop\<rparr>)" by (simp add: frame_def)
  also note frame_flush [OF q]
  also have "frame q q'" using frame_origins(6) [of q S lit "pos p" stop ns] q' by simp
  finally show "step_frames S D p (escape_to S nodes ts p lit stop)" by (simp add: esc)
  assume *: "loop_records S D os nodes ts p"
  then have "loop_records S D os nodes ts (p\<lparr>pos := stop\<rparr>)"
    using assms(2) by (elim loop_records_mono) auto
  then have "loop_records S D os ns (pos p) q"
    using * assms(2) by (intro pending_flush [OF _ q]) (auto simp: loop_records_def)
  then have "loop_records S D os ns' stop q'"
    using assms flush_text_pos [OF q] by (intro records_push_literal [OF _ q']) auto
  then show "step_records S D os (escape_to S nodes ts p lit stop)" by (simp add: esc)
qed

text \<open>What replaces an escape is the source behind its backslash.\<close>

lemma substr_append: "a \<le> b \<Longrightarrow> b \<le> c \<Longrightarrow> substr S a b @ substr S b c = substr S a c"
  using take_add [of "b - a" "c - b" "drop a S"] by (simp add: substr_def)

lemma opener_literal:
  assumes "scan_opener S D ln start = Inr (Some (t, stop))"
  shows "tag_raw t @ ''^('' = substr S start stop"
proof -
  obtain k where k: "stop = k + 2" "substr S k (k + 2) = ''^(''" "tag_raw t = substr S start k"
    using assms by (fastforce simp: scan_opener_def elim!: and_then_InrE split: option.splits if_splits)
  moreover have "start \<le> k" using scan_opener_less [OF assms] k(1) by simp
  ultimately show ?thesis using substr_append [of start k "k + 2" S] by simp
qed

lemma dollar_literal:
  assumes "byte_at S i = Some (CHR ''$'')"
  shows "''$'' = substr S i (i + 1)"
proof -
  have "i < length S" "S ! i = CHR ''$''" using assms by (auto simp: byte_at_def split: if_splits)
  then show ?thesis by (simp add: substr_def Cons_nth_drop_Suc [symmetric])
qed

lemma closer_positive: "closer_at S ec i = Some n \<Longrightarrow> 0 < n"
  by (auto simp: closer_at_def exact_closer_len_at_def Let_def split: option.splits if_splits)

lemma escape_step_sidecar:
  assumes "escape_step S D ec nodes ts p = Inr (Some st)" "byte_at S (pos p) = Some backslash"
  shows "step_frames S D p st" and "loop_records S D os nodes ts p \<Longrightarrow> step_records S D os st"
proof -
  have "\<exists>lit stop. st = escape_to S nodes ts p lit stop \<and> pos p + 1 < stop \<and> lit = substr S (pos p + 1) stop"
  proof -
    obtain r where r: "scan_opener S D (line p) (pos p + 1) = Inr r"
      using assms(1) by (auto simp: escape_step_def Let_def elim!: and_then_InrE split: if_splits)
    show ?thesis
    proof (cases r)
      case (Some x)
      then obtain t stop where x: "r = Some (t, stop)" by (cases x) auto
      then have "st = escape_to S nodes ts p (tag_raw t @ ''^('') stop"
        using assms(1) r by (auto simp: escape_step_def Let_def split: if_splits)
      then show ?thesis using opener_literal [OF r [unfolded x]] scan_opener_less [OF r [unfolded x]] by auto
    next
      case None
      note st = assms(1) [unfolded escape_step_def Let_def r None, simplified]
      show ?thesis
      proof (cases "closer_at S ec (pos p + 1)")
        case (Some n)
        then show ?thesis using st closer_positive [OF Some] by (auto split: if_splits)
      next
        case no_closer: None
        then have "byte_at S (pos p + 1) = Some (CHR ''$'')" "st = escape_to S nodes ts p ''$'' (pos p + 1 + 1)"
          using st by (auto split: if_splits)
        then show ?thesis using dollar_literal [of S "pos p + 1"] by auto
      qed
    qed
  qed
  then obtain lit stop where st: "st = escape_to S nodes ts p lit stop" "pos p + 1 < stop" "lit = substr S (pos p + 1) stop"
    by blast
  show "step_frames S D p st" unfolding st(1) by (rule escape_to_sidecar(1) [OF assms(2) st(2,3)])
  show "step_records S D os st" if "loop_records S D os nodes ts p"
    unfolding st(1) by (rule escape_to_sidecar(2) [OF assms(2) st(2,3) that])
qed

lemma next_call_sidecar:
  "step_frames S D p (next_call S D ec nodes ts p)"
  "loop_records S D os nodes ts p \<Longrightarrow> step_records S D os (next_call S D ec nodes ts p)"
  using advance_one_byte_le [of p S]
  by (auto simp: next_call_def frame_def dest!: call_head_at elim: loop_records_mono
      split: option.splits if_splits)

lemma next_opener_sidecar:
  "step_frames S D p (next_opener S D ec nodes ts p)"
  "loop_records S D os nodes ts p \<Longrightarrow> step_records S D os (next_opener S D ec nodes ts p)"
  by (auto simp: next_opener_def next_call_sidecar dest!: opener_at split: option.splits sum.splits)

lemma substr_var_ref:
  assumes "try_parse_var_ref S i = Some (name, stop)"
  shows "substr S i stop = CHR ''$'' # name"
proof -
  have dollar: "byte_at S i = Some (CHR ''$'')" and ident: "identifier_at S (i + 1) = Some (name, stop)"
    using assms by (auto simp: try_parse_var_ref_def split: if_splits)
  have "name = substr S (i + 1) stop" "i + 1 < stop"
    using ident identifier_at_less [OF ident]
    by (auto simp: identifier_at_def Let_def split: option.splits if_splits)
  moreover have "drop i S = CHR ''$'' # drop (Suc i) S"
    using dollar Cons_nth_drop_Suc [of i S] by (simp add: byte_at_def split: if_splits)
  moreover have "stop - i = Suc (stop - Suc i)" using calculation by simp
  ultimately show ?thesis by (simp add: substr_def)
qed

lemma next_var_sidecar:
  "step_frames S D p (next_var S D ec nodes ts p)"
  "loop_records S D os nodes ts p \<Longrightarrow> step_records S D os (next_var S D ec nodes ts p)"
proof -
  have var: "step_frames S D p (next_var S D ec nodes ts p) \<and>
      (loop_records S D os nodes ts p \<longrightarrow> step_records S D os (next_var S D ec nodes ts p))"
    if v: "try_parse_var_ref S (pos p) = Some (name, stop)" for name stop
  proof -
    obtain ns q where q: "flush_text S nodes ts (pos p) (p\<lparr>pos := stop\<rparr>) = (ns, q)" by fastforce
    let ?st = "Continue (ns @ [VarRef name]) stop (record_origin S (pos p) stop q)"
    have st: "next_var S D ec nodes ts p = ?st" by (simp add: next_var_def v q)
    have "frame p (p\<lparr>pos := stop\<rparr>)" by (simp add: frame_def)
    also note frame_flush [OF q]
    also note frame_origins(1) [of q S "pos p" stop]
    finally have "step_frames S D p ?st" by simp
    moreover have "step_records S D os ?st" if "loop_records S D os nodes ts p"
    proof -
      have le: "pos p < stop" using try_parse_var_ref_less [OF v] by simp
      have "records S D os nodes (p\<lparr>pos := stop\<rparr>)"
        using that le by (auto simp: loop_records_def elim: records_mono)
      then have "records S D os ns q" using le by (intro records_flush [OF _ q]) auto
      then have "records S D os (ns @ [VarRef name]) (record_origin S (pos p) stop q)"
        using records_record [of S D os ns q "VarRef name" "pos p" stop] substr_var_ref [OF v]
          flush_text_pos [OF q] by simp
      then show ?thesis using flush_text_pos [OF q] by (simp add: loop_recordsI)
    qed
    ultimately show ?thesis by (simp add: st)
  qed
  show "step_frames S D p (next_var S D ec nodes ts p)"
    using var next_opener_sidecar(1) by (cases "try_parse_var_ref S (pos p)") (auto simp: next_var_def)
  show "loop_records S D os nodes ts p \<Longrightarrow> step_records S D os (next_var S D ec nodes ts p)"
    using var next_opener_sidecar(2) by (cases "try_parse_var_ref S (pos p)") (auto simp: next_var_def)
qed

lemma next_escape_sidecar:
  "step_frames S D p (next_escape S D ec nodes ts p)"
  "loop_records S D os nodes ts p \<Longrightarrow> step_records S D os (next_escape S D ec nodes ts p)"
  by (auto simp: next_escape_def next_var_sidecar current_byte_def dest: escape_step_sidecar
      split: option.splits sum.splits if_splits)

lemma next_let_sidecar:
  "step_frames S D p (next_let S D ec nodes ts p)"
  "loop_records S D os nodes ts p \<Longrightarrow> step_records S D os (next_let S D ec nodes ts p)"
  by (auto simp: next_let_def next_escape_sidecar dest!: let_head_at split: option.splits if_splits)

lemma skip_comment:
  assumes "byte_at S (pos p) = Some (CHR ''#'')"
  shows "pos p < pos (skip_to_end_of_line S p) \<and>
    (byte_at S (pos (skip_to_end_of_line S p) - 1) = Some newline \<or> length S \<le> pos (skip_to_end_of_line S p))"
proof
  show "pos p < pos (skip_to_end_of_line S p)" by (rule skip_to_end_of_line_less [OF byte_at_less [OF assms]])
  let ?q = "advance_while (\<lambda>b. b \<noteq> newline) S p"
  have "byte_at S (pos ?q) = None \<or> byte_at S (pos ?q) = Some newline"
  proof (induction "\<lambda>b. b \<noteq> newline" S p rule: advance_while.induct)
    case (1 S p)
    then show ?case by (subst (1 2) advance_while.simps) (auto split: option.splits)
  qed
  then show "byte_at S (pos (skip_to_end_of_line S p) - 1) = Some newline \<or> length S \<le> pos (skip_to_end_of_line S p)"
  proof
    assume none: "byte_at S (pos ?q) = None"
    then have "length S \<le> pos ?q" by (simp add: byte_at_None_iff)
    then show ?thesis using none by (simp add: skip_to_end_of_line_def advance_one_byte_def)
  qed (simp add: skip_to_end_of_line_def advance_one_byte_def utf8_len_def)
qed

lemma pending_comment:
  assumes "loop_records S D os ns (pos p) p" "byte_at S (pos p) = Some (CHR ''#'')"
  shows "loop_records S D os ns (pos (skip_to_end_of_line S p)) (skip_to_end_of_line S p)"
proof -
  have "comments S a (pos (skip_to_end_of_line S p))" if "comments S a (pos p)" for a
    using comments_line [OF that assms(2)] skip_comment [OF assms(2)] by blast
  moreover have "records S D os ns (skip_to_end_of_line S p)"
    using assms(1) skip_to_end_of_line_le [of p S] by (auto simp: loop_records_def elim: records_mono)
  ultimately show ?thesis using assms(1) by (auto simp: loop_records_def pending_at_def)
qed

lemma next_step_sidecar:
  "step_frames S D p (next_step S D ec nodes ts p)"
  "loop_records S D os nodes ts p \<Longrightarrow> step_records S D os (next_step S D ec nodes ts p)"
proof -
  obtain ns q where q: "flush_text S nodes ts (pos p) p = (ns, q)" by fastforce
  have pos: "pos q = pos p" using q by (rule flush_text_pos)
  show "step_frames S D p (next_step S D ec nodes ts p)"
    using frame_flush [OF q] next_let_sidecar(1) [of S D p ec nodes ts] q
    by (auto simp: next_step_def Let_def frame_def split: option.splits)
  assume *: "loop_records S D os nodes ts p"
  have lr: "loop_records S D os ns (pos q) q" using pending_flush [OF * q] * pos by (simp add: loop_records_def)
  then have r: "records S D os ns q" by (simp add: loop_records_def)
  then have "records S D os ns (advance_bytes S n q)" for n
    using advance_bytes_le [of q S n] by (elim records_mono) auto
  moreover have "byte_at S (pos p) = Some (CHR ''#'') \<Longrightarrow>
      loop_records S D os ns (pos (skip_to_end_of_line S q)) (skip_to_end_of_line S q)"
    using pending_comment [OF lr] pos by simp
  ultimately show "step_records S D os (next_step S D ec nodes ts p)"
    using next_let_sidecar(2) [OF *] q r
    by (auto simp: next_step_def Let_def current_byte_def split: option.splits)
qed

section \<open>A run and the sidecar\<close>

lemma raise_lower_fields [simp]:
  "pos (raise_depth D t p) = pos p" "plan_origins (raise_depth D t p) = plan_origins p"
  "pos (lower_depth D t p) = pos p" "plan_origins (lower_depth D t p) = plan_origins p"
  by (simp_all add: raise_depth_def lower_depth_def)

lemma frame_depth:
  "frame p p1 \<Longrightarrow> frame (raise_depth D t p1) p3 \<Longrightarrow> frame p (lower_depth D t p3)"
  by (auto simp: frame_def raise_depth_def lower_depth_def split: if_splits)

lemma step_frames_at:
  "next_step S D ec nodes ts p = Continue ns ts' q \<Longrightarrow> frame p q"
  "next_step S D ec nodes ts p = Finished (Inr (ns, q)) \<Longrightarrow> frame p q"
  "next_step S D ec nodes ts p = LetAt name q \<Longrightarrow> frame p q"
  "next_step S D ec nodes ts p = OpenerAt t q \<Longrightarrow> frame p q"
  "next_step S D ec nodes ts p = CallAt name q \<Longrightarrow> frame p q"
  using next_step_sidecar(1) [of S D p ec nodes ts] by (auto simp: frame_def)

lemma frame_from:
  "frame q r \<Longrightarrow> plan_origins q = plan_origins p \<Longrightarrow>
     origin_suppression_depth q = origin_suppression_depth p \<Longrightarrow> frame p r"
  by (simp add: frame_def)

lemma frame_advanced: "frame p q \<Longrightarrow> frame p (advance_one_byte S q)"
  by (simp add: frame_def)

lemma run_frames:
  "loop_run S D ec nodes ts p ns p' \<Longrightarrow> frame p p' \<and> pos p \<le> pos p'"
  "typed_run S D t p e p' \<Longrightarrow> frame p p' \<and> pos p \<le> pos p'"
  "let_run S D start name p e p' \<Longrightarrow> frame p p' \<and> pos p \<le> pos p'"
  "call_run S D start name p e p' \<Longrightarrow> frame p p' \<and> pos p \<le> pos p' \<and>
     (pos p < length S \<longrightarrow> pos p < pos p')"
  "args_run S D name args p as p' \<Longrightarrow> frame p p' \<and> pos p \<le> pos p'"
  "arg_run S D name p e p' \<Longrightarrow> frame p p' \<and> pos p \<le> pos p'"
proof (induction rule: loop_run_typed_run_let_run_call_run_args_run_arg_run.inducts)
  case (loop_finished ec nodes ts p ns p')
  then show ?case using step_frames_at(2) next_step_less(5) by blast
next
  case (loop_continue ec nodes ts p nodes' ts' q ns p')
  then show ?case
    using step_frames_at(1) next_step_less(1) frame_trans by (meson le_trans less_imp_le)
next
  case (loop_let ec nodes ts p name p1 b p2 nodes' p3 ns p')
  then show ?case
    using step_frames_at(3) next_step_less(2) [OF loop_let(1)] frame_flush_before [OF loop_let(4)]
      flush_text_before_recorded_pos [OF loop_let(4)] frame_trans by (metis le_trans less_imp_le)
next
  case (loop_opener ec nodes ts p t p1 nodes' p2 e p3 ns p')
  then show ?case
    using step_frames_at(4) next_step_less(3) [OF loop_opener(1)] frame_flush [OF loop_opener(2)]
      flush_text_pos [OF loop_opener(2)] frame_trans by (metis le_trans less_imp_le)
next
  case (loop_call ec nodes ts p name p1 c p2 nodes' p3 ns p')
  then show ?case
    using step_frames_at(5) next_step_less(4) [OF loop_call(1)] frame_flush_before [OF loop_call(4)]
      flush_text_before_recorded_pos [OF loop_call(4)] frame_trans by (metis le_trans less_imp_le)
next
  case (typed t p origin p1 body p3)
  then show ?case
    using frame_finish [OF typed(1) frame_depth [OF frame_begin [OF typed(1)]]]
      begin_origin_pos [OF typed(1)] by auto
next
  case (let_call start p origin p1 fn_name p3 c p4 name)
  have "frame p1 p4"
    using let_call(4) call_head_at [OF let_call(2)] by (auto elim: frame_from)
  then show ?case
    using frame_finish [OF let_call(1) frame_trans [OF frame_begin [OF let_call(1)]]]
      begin_origin_pos [OF let_call(1)] skip_whitespace_le [of p1 S] call_head_less [OF let_call(2)]
      let_call(4) by auto
next
  case (let_typed start p origin p1 t p3 e p4 name)
  have "frame p1 p4"
    using let_typed(4) opener_at [OF let_typed(2)] by (auto elim: frame_from)
  then show ?case
    using frame_finish [OF let_typed(1) frame_trans [OF frame_begin [OF let_typed(1)]]]
      begin_origin_pos [OF let_typed(1)] skip_whitespace_le [of p1 S]
      try_parse_opener_less [OF let_typed(2)] let_typed(4) by auto
next
  case (call start p origin p1 name args p3)
  have "frame p1 p3" using call(3) by (auto elim: frame_from)
  moreover have "pos p1 \<le> pos (advance_one_byte S p1)" by (rule advance_one_byte_le)
  moreover have "pos (advance_one_byte S p1) \<le> pos (skip_call_trivia S (advance_one_byte S p1))"
    by (rule skip_call_trivia_le)
  moreover have "pos p1 < length S \<Longrightarrow> pos p1 < pos (advance_one_byte S p1)"
    by (rule advance_one_byte_less)
  ultimately show ?case
    using frame_finish [OF call(1) frame_trans [OF frame_begin [OF call(1)]]]
      begin_origin_pos [OF call(1)] call(3) by auto
next
  case (args_end p name args)
  then show ?case by (simp add: frame_def advance_one_byte_le)
next
  case (args_more name p arg p1 args as p')
  let ?q = "skip_call_trivia S p1"
  have "frame p1 p'" using args_more(5) by (auto elim: frame_from)
  moreover have "pos p1 \<le> pos ?q" by (rule skip_call_trivia_le)
  moreover have "pos ?q \<le> pos (skip_call_trivia S (advance_one_byte S ?q))"
    using advance_one_byte_le skip_call_trivia_le le_trans by blast
  ultimately show ?case using args_more(2,5) frame_trans by auto
next
  case (args_last name p arg p1 args)
  have "frame p (skip_call_trivia S p1)" using args_last(2) by (simp add: frame_def)
  moreover have "pos p1 \<le> pos (advance_one_byte S (skip_call_trivia S p1))"
    using advance_one_byte_le skip_call_trivia_le le_trans by blast
  ultimately show ?case using args_last(2) frame_advanced by auto
next
  case (arg_var p var stop name)
  have "frame p (p\<lparr>pos := stop\<rparr>)" by (simp add: frame_def)
  then show ?case
    using frame_origins(1) frame_trans try_parse_var_ref_less [OF arg_var(1)] by fastforce
next
  case (arg_call p fn_name p1 c p2 name)
  then show ?case
    using call_head_at [OF arg_call(1)] call_head_less [OF arg_call(1)] by (auto elim: frame_from)
next
  case (arg_typed p t p1 e p2 name)
  then show ?case
    using opener_at [OF arg_typed(1)] try_parse_opener_less [OF arg_typed(1)]
    by (auto elim: frame_from)
qed

lemma records_snoc:
  assumes "records S D os ns p" "plan_origins p = Some os1" "records S D os1 [e] p'" "pos p \<le> pos p'"
  shows "records S D os (ns @ [e]) p'"
  using assms by (fastforce simp: records_def intro!: list_all2_appendI)

lemma records_flush_before:
  assumes "records S D os ns p" "records S D os1 [e] p2" "plan_origins p = Some os1" "pos p \<le> pos p2"
    and "flush_text_before_recorded S ns ts (pos p) (origin_count p) p2 = (ns', p3)"
  shows "records S D os (ns' @ [e]) p3"
proof (cases "pos p \<le> ts")
  case True
  then show ?thesis
    using assms records_snoc by (auto simp: flush_text_before_recorded_def)
next
  case False
  let ?x = "source_span_of S p2 ts (pos p)"
  obtain sp sq where sp: "os1 = os @ sp" "plan_origins p2 = Some (os1 @ sq)"
    "origin_suppression_depth p2 = 0" "\<forall>x \<in> set sp. end_byte x \<le> pos p"
    "list_all2 (origin_matches S D) (plan_preorders D ns) sp"
    "\<forall>x \<in> set sq. end_byte x \<le> pos p2" "list_all2 (origin_matches S D) (plan_preorder D e) sq"
    using assms(1-3) by (auto simp: records_def)
  have "list_all2 (origin_matches S D)
      (plan_preorders D ns @ [RawText (substr S ts (pos p))] @ plan_preorder D e) (sp @ [?x] @ sq)"
    using False by (intro list_all2_appendI sp) (simp add: raw_piece)
  moreover have "\<forall>x \<in> set (sp @ [?x] @ sq). end_byte x \<le> pos p2"
    using sp(4,6) assms(4) by auto
  ultimately show ?thesis
    using False assms(3,5) sp(1-3)
    by (auto simp: flush_text_before_recorded_def records_def recording_def origin_count_def)
qed

text \<open>An entry begun at \<open>start\<close>, the entries of the children behind it, and its end at the cursor.\<close>

lemma records_node:
  assumes started: "begin_origin S start p = (origin, p1)"
    and p: "origin_suppression_depth p = 0" "plan_origins p = Some os"
    and children: "plan_origins q = Some (os @ [source_span_of S p start start] @ sp)"
      "\<forall>x \<in> set sp. end_byte x \<le> pos q" "list_all2 (origin_matches S D) ns sp"
      "origin_suppression_depth q = 0"
    and node: "plan_preorder D e = e # ns"
      "origin_matches S D e (end_span S q (pos q) (source_span_of S p start start))"
  shows "records S D os [e] (finish_origin S origin (pos q) q)"
proof -
  have "origin = Some (length os)"
    using started p by (auto simp: begin_origin_def recording_def)
  then show ?thesis
    using children node
    by (auto simp: records_def finish_origin_def nth_append list_update_append)
qed

lemma begin_origin_recording:
  "begin_origin S start p = (origin, p1) \<Longrightarrow> origin_suppression_depth p = 0 \<Longrightarrow>
     plan_origins p = Some os \<Longrightarrow> origin_suppression_depth p1 = 0 \<and>
     plan_origins p1 = Some (os @ [source_span_of S p start start])"
  by (auto simp: begin_origin_def recording_def)

lemma records_child:
  assumes "records S D (os @ [x]) [e] q"
  obtains sp where "plan_origins q = Some (os @ [x] @ sp)" "\<forall>x \<in> set sp. end_byte x \<le> pos q"
    "list_all2 (origin_matches S D) (plan_preorder D e) sp" "origin_suppression_depth q = 0"
  using assms by (auto simp: records_def)

text \<open>The productions do not give raw text.\<close>

lemma run_nodes:
  "typed_run S D t p e p' \<Longrightarrow> e \<noteq> RawText s"
  "let_run S D start name p e p' \<Longrightarrow> e \<noteq> RawText s"
  "call_run S D start name p e p' \<Longrightarrow> e \<noteq> RawText s"
  by (auto elim: typed_run.cases let_run.cases call_run.cases)

lemma run_records:
  "loop_run S D ec nodes ts p ns p' \<Longrightarrow> loop_records S D os nodes ts p \<Longrightarrow> records S D os ns p'"
  "typed_run S D t p e p' \<Longrightarrow> scan_opener S D ln (tag_start t) = Inr (Some (t, pos p)) \<Longrightarrow>
     origin_suppression_depth p = 0 \<Longrightarrow> plan_origins p = Some os \<Longrightarrow> records S D os [e] p'"
  "let_run S D start name p e p' \<Longrightarrow> let_head S p0 = Some (name, p) \<Longrightarrow> pos p0 = start \<Longrightarrow>
     origin_suppression_depth p = 0 \<Longrightarrow> plan_origins p = Some os \<Longrightarrow> records S D os [e] p'"
  "call_run S D start name p e p' \<Longrightarrow> identifier_at S start = Some (name, pos p) \<Longrightarrow>
     byte_at S (pos p) = Some (CHR ''('') \<Longrightarrow>
     origin_suppression_depth p = 0 \<Longrightarrow> plan_origins p = Some os \<Longrightarrow> records S D os [e] p'"
  "args_run S D name args p as p' \<Longrightarrow> records S D os args p \<Longrightarrow> records S D os as p'"
  "arg_run S D name p e p' \<Longrightarrow>
     origin_suppression_depth p = 0 \<Longrightarrow> plan_origins p = Some os \<Longrightarrow> records S D os [e] p'"
proof (induction arbitrary: os and os ln and os p0 and os and os and os
    rule: loop_run_typed_run_let_run_call_run_args_run_arg_run.inducts)
  case (loop_finished ec nodes ts p ns p')
  then show ?case using next_step_sidecar(2) [OF loop_finished(2), of ec] by simp
next
  case (loop_continue ec nodes ts p nodes' ts' q ns p')
  then show ?case using next_step_sidecar(2) [OF loop_continue(4), of ec] by simp
next
  case (loop_let ec nodes ts p name p1 b p2 nodes' p3 ns p')
  obtain os1 where p: "plan_origins p = Some os1" "origin_suppression_depth p = 0"
    using loop_let(7) by (auto simp: loop_records_def records_def)
  have before: "records S D os nodes p" using loop_let(7) by (simp add: loop_records_def)
  have "records S D os1 [b] p2"
    using next_step_sidecar(1) [of S D p ec nodes ts] next_step_less(2) [OF loop_let(1)]
      loop_let(1,3) p by auto
  moreover have "pos p \<le> pos p2"
    using run_frames(3) [OF loop_let(2)] next_step_less(2) [OF loop_let(1)] by simp
  ultimately have "records S D os (nodes' @ [b]) p3"
    using records_flush_before [OF before _ p(1) _ loop_let(4)] by blast
  then show ?case using run_nodes(2) [OF loop_let(2)] by (intro loop_let(6) loop_recordsI) simp_all
next
  case (loop_opener ec nodes ts p t p1 nodes' p2 e p3 ns p')
  note step = next_step_sidecar(1) [of S D p ec nodes ts, unfolded loop_opener(1), simplified]
  note less = next_step_less(3) [OF loop_opener(1)]
  have before: "records S D os nodes p" using loop_opener(7) by (simp add: loop_records_def)
  have r1: "records S D os nodes p1" using records_mono [OF before] step less by simp
  have r2: "records S D os nodes' p2"
    using records_flush [OF r1 loop_opener(2)] less by simp
  then obtain os1 where p2: "plan_origins p2 = Some os1" "origin_suppression_depth p2 = 0"
    by (auto simp: records_def)
  have "records S D os1 [e] p3"
    using loop_opener(4) [OF _ p2(2,1), of "line p"] step less flush_text_pos [OF loop_opener(2)] by simp
  then have "records S D os (nodes' @ [e]) p3"
    using records_snoc [OF r2 p2(1)] run_frames(2) [OF loop_opener(3)] by simp
  then show ?case using run_nodes(1) [OF loop_opener(3)] by (intro loop_opener(6) loop_recordsI) simp_all
next
  case (loop_call ec nodes ts p name p1 c p2 nodes' p3 ns p')
  obtain os1 where p: "plan_origins p = Some os1" "origin_suppression_depth p = 0"
    using loop_call(7) by (auto simp: loop_records_def records_def)
  have before: "records S D os nodes p" using loop_call(7) by (simp add: loop_records_def)
  have "records S D os1 [c] p2"
    using next_step_sidecar(1) [of S D p ec nodes ts] next_step_less(4) [OF loop_call(1)]
      loop_call(1,3) p by auto
  moreover have "pos p \<le> pos p2"
    using run_frames(4) [OF loop_call(2)] next_step_less(4) [OF loop_call(1)] by simp
  ultimately have "records S D os (nodes' @ [c]) p3"
    using records_flush_before [OF before _ p(1) _ loop_call(4)] by blast
  then show ?case using run_nodes(3) [OF loop_call(2)] by (intro loop_call(6) loop_recordsI) simp_all
next
  case (typed t p origin p1 body p3)
  let ?x = "source_span_of S p (tag_start t) (tag_start t)"
  have p1: "origin_suppression_depth p1 = 0" "plan_origins p1 = Some (os @ [?x])"
    using begin_origin_recording [OF typed(1,5,6)] by simp_all
  have le: "pos p \<le> pos p3" using run_frames(1) [OF typed(2)] begin_origin_pos [OF typed(1)] by simp
  have "\<exists>sp. plan_origins p3 = Some (os @ [?x] @ sp) \<and> (\<forall>x \<in> set sp. end_byte x \<le> pos p3) \<and>
      list_all2 (origin_matches S D)
        (if owns_quoted_syntax D (tag_lang t) then [] else plan_preorders D body) sp \<and>
      origin_suppression_depth (lower_depth D t p3) = 0"
  proof (cases "owns_quoted_syntax D (tag_lang t)")
    case True
    then show ?thesis
      using run_frames(1) [OF typed(2)] p1 by (auto simp: frame_def raise_depth_def lower_depth_def)
  next
    case False
    then have "records S D (os @ [?x]) body p3"
      using typed(3) [of "os @ [?x]"] p1 records_Nil loop_records_Nil [of S D "os @ [?x]" p1] begin_origin_pos [OF typed(1)]
      by (simp add: raise_depth_def)
    then show ?thesis using False by (auto simp: records_def lower_depth_def)
  qed
  then obtain sp where "plan_origins (lower_depth D t p3) = Some (os @ [?x] @ sp)"
    "\<forall>x \<in> set sp. end_byte x \<le> pos (lower_depth D t p3)"
    "list_all2 (origin_matches S D)
      (if owns_quoted_syntax D (tag_lang t) then [] else plan_preorders D body) sp"
    "origin_suppression_depth (lower_depth D t p3) = 0" by auto
  from records_node [OF typed(1,5,6) this, of "TypedExpr (tag_lang t) (tag_env_id t) (tag_attr t) body"]
  show ?case using typed(4) le by auto
next
  case (let_call start p origin p1 fn_name p3 c p4 name)
  let ?x = "source_span_of S p start start"
  have "records S D (os @ [?x]) [c] p4"
    using let_call(4) begin_origin_recording [OF let_call(1,7,8)] call_head_at [OF let_call(2)] by simp
  then obtain sp where "plan_origins p4 = Some (os @ [?x] @ sp)" "\<forall>x \<in> set sp. end_byte x \<le> pos p4"
    "list_all2 (origin_matches S D) (plan_preorder D c) sp" "origin_suppression_depth p4 = 0"
    by (rule records_child)
  moreover have "pos p \<le> pos p4"
    using run_frames(4) [OF let_call(3)] call_head_less [OF let_call(2)]
      begin_origin_pos [OF let_call(1)] skip_whitespace_le [of p1 S] by simp
  moreover have "origin_matches S D (LetBinding name c) (end_span S p4 (pos p4) ?x)"
    using let_call(5,6) calculation(5) by auto
  ultimately show ?case
    using records_node [OF let_call(1,7,8), of p4 sp D "plan_preorder D c" "LetBinding name c"] by simp
next
  case (let_typed start p origin p1 t p3 e p4 name)
  let ?x = "source_span_of S p start start"
  have "records S D (os @ [?x]) [e] p4"
    using let_typed(4) [of "line (skip_whitespace S p1)"] begin_origin_recording [OF let_typed(1,7,8)]
      opener_at [OF let_typed(2)] try_parse_opener_less [OF let_typed(2)] by simp
  then obtain sp where "plan_origins p4 = Some (os @ [?x] @ sp)" "\<forall>x \<in> set sp. end_byte x \<le> pos p4"
    "list_all2 (origin_matches S D) (plan_preorder D e) sp" "origin_suppression_depth p4 = 0"
    by (rule records_child)
  moreover have "pos p \<le> pos p4"
    using run_frames(2) [OF let_typed(3)] try_parse_opener_less [OF let_typed(2)]
      begin_origin_pos [OF let_typed(1)] skip_whitespace_le [of p1 S] by simp
  moreover have "origin_matches S D (LetBinding name e) (end_span S p4 (pos p4) ?x)"
    using let_typed(5,6) calculation(5) by auto
  ultimately show ?case
    using records_node [OF let_typed(1,7,8), of p4 sp D "plan_preorder D e" "LetBinding name e"] by simp
next
  case (call start p origin p1 name args p3)
  let ?x = "source_span_of S p start start" and ?q = "skip_call_trivia S (advance_one_byte S p1)"
  have "records S D (os @ [?x]) args p3"
    using call(3) [of "os @ [?x]"] begin_origin_recording [OF call(1,6,7)] by (simp add: records_Nil)
  then obtain sp where "plan_origins p3 = Some (os @ [?x] @ sp)" "\<forall>x \<in> set sp. end_byte x \<le> pos p3"
    "list_all2 (origin_matches S D) (plan_preorders D args) sp" "origin_suppression_depth p3 = 0"
    by (auto simp: records_def)
  moreover have "pos p < pos p3"
    using run_frames(5) [OF call(2)] begin_origin_pos [OF call(1)] byte_at_less [OF call(5)]
      advance_one_byte_less [of p1 S] skip_call_trivia_le [of "advance_one_byte S p1" S] by simp
  ultimately show ?case
    using records_node [OF call(1,6,7), of p3 sp D "plan_preorders D args"] call(4,5) by simp
next
  case (args_end p name args)
  then show ?case using records_mono advance_one_byte_le by fastforce
next
  case (args_more name p arg p1 args as p')
  let ?q = "skip_call_trivia S (advance_one_byte S (skip_call_trivia S p1))"
  obtain os1 where p: "plan_origins p = Some os1" "origin_suppression_depth p = 0"
    using args_more(6) by (auto simp: records_def)
  have "records S D os (args @ [arg]) p1"
    using records_snoc [OF args_more(6) p(1) args_more(2) [OF p(2,1)]] run_frames(6) [OF args_more(1)]
    by simp
  moreover have "pos p1 \<le> pos ?q"
    using skip_call_trivia_le advance_one_byte_le le_trans by meson
  ultimately have "records S D os (args @ [arg]) ?q" by (elim records_mono) auto
  then show ?case by (rule args_more(5))
next
  case (args_last name p arg p1 args)
  obtain os1 where p: "plan_origins p = Some os1" "origin_suppression_depth p = 0"
    using args_last(3) by (auto simp: records_def)
  have "records S D os (args @ [arg]) p1"
    using records_snoc [OF args_last(3) p(1) args_last(2) [OF p(2,1)]] run_frames(6) [OF args_last(1)]
    by simp
  moreover have "pos p1 \<le> pos (advance_one_byte S (skip_call_trivia S p1))"
    using skip_call_trivia_le advance_one_byte_le le_trans by meson
  ultimately show ?case by (elim records_mono) auto
next
  case (arg_var p var stop name)
  then have "records S D os [] (p\<lparr>pos := stop\<rparr>)" by (simp add: records_Nil)
  then show ?case
    using records_record [of S D os "[]" "p\<lparr>pos := stop\<rparr>" "VarRef var" "pos p" stop]
      substr_var_ref [OF arg_var(1)] by simp
next
  case (arg_call p fn_name p1 c p2 name)
  then show ?case using call_head_at [OF arg_call(1)] by simp
next
  case (arg_typed p t p1 e p2 name)
  show ?case
    using opener_at [OF arg_typed(1)] try_parse_opener_less [OF arg_typed(1)] arg_typed(4,5)
    by (intro arg_typed(3) [of "line p"]) auto
qed

lemma document_origins:
  assumes "parse_with_origins sha256 S D p = Inr d"
  shows "list_all2 (origin_matches S D) (plan_preorders D (doc_nodes d)) (doc_plan_origins d)"
proof -
  let ?p = "p\<lparr>line_starts := Some (newline_starts S), plan_origins := Some [],
      origin_suppression_depth := 0\<rparr>"
  obtain nodes p' where r: "parse_loop S D None [] (pos p) ?p = Inr (nodes, p')"
    "doc_nodes d = nodes" "doc_plan_origins d = the (plan_origins p')"
    using assms by (auto simp: parse_with_origins_def parse_until_def elim!: and_then_pairE)
  have "records S D [] nodes p'"
    using run_records(1) [OF parse_runs(1) [OF r(1)]] loop_records_Nil [of S D "[]" ?p] by (simp add: records_Nil)
  then show ?thesis using r by (auto simp: records_def)
qed

section \<open>Properties\<close>

text \<open>C10: The sidecar of a parsed document is aligned with its executable syntax: its entries are those
  of the syntax nodes in preorder, without the nodes inside captured syntax, and each entry starts at
  the text that its node was parsed from. The entry of raw text spans the piece of source and the escapes that the
  text was made of, with nothing but whole comments between two of them.\<close>

theorem origins_aligned:
  assumes "parse_with_origins sha256 S D p = Inr d"
  shows "list_all2 (origin_matches S D) (plan_preorders D (doc_nodes d)) (doc_plan_origins d)"
  by (rule document_origins [OF assms])

theorem origins_aligned_witness:
  "\<exists>d. parse_with_origins length ''x$ab'' (hash_set_dialect [''py''] []) parser_new = Inr d \<and>
     list_all2 (origin_matches ''x$ab'' (hash_set_dialect [''py''] [])) [RawText ''x'', VarRef ''ab'']
       (doc_plan_origins d)"
proof -
  let ?D = "hash_set_dialect [''py''] []"
  have "map_sum id doc_nodes (parse_with_origins length ''x$ab'' ?D parser_new) = Inr [RawText ''x'', VarRef ''ab'']"
    by code_simp
  then obtain d where d: "parse_with_origins length ''x$ab'' ?D parser_new = Inr d"
    "doc_nodes d = [RawText ''x'', VarRef ''ab'']"
    by (cases "parse_with_origins length ''x$ab'' ?D parser_new") auto
  with origins_aligned [OF d(1)] show ?thesis by auto
qed

end
