(* ===== verification/Parser_Escape.thy ===== *)
theory Parser_Escape
  imports Parser_Cursor
begin

text \<open>
  Literal text inside typed blocks: what \<open>escape_typed_body_literal\<close> protects and what it does not, and
  where reconstructed source is read differently from the nodes it was made from.
\<close>

section \<open>A block around a body\<close>

definition wrapped_body :: "string \<Rightarrow> string list \<Rightarrow> string \<Rightarrow> string" where
  "wrapped_body lang tags body =
     lang @ ''^('' @ escape_typed_body_literal body ('')_'' @ lang) (\<lambda>t. t \<in> set tags) @ '')_'' @ lang"

definition parsed_nodes :: "string list \<Rightarrow> string \<Rightarrow> parse_error + ONode list" where
  "parsed_nodes tags S = map_sum id fst (parse S (hash_set_dialect tags []) parser_new)"

section \<open>Literal bodies that are not preserved\<close>

text \<open>A body that ends in a backslash is not preserved: the backslash escapes the closer of the
  block that is put around it, which is then reported as unclosed.\<close>

lemma trailing_backslash_not_preserved:
  "parsed_nodes [''sh''] (wrapped_body ''sh'' [''sh''] [CHR ''a'', backslash]) =
     Inl (UnclosedExpression 1 ''sh'')"
  by code_simp

text \<open>A backslash before a dollar sign that does not start a name is dropped: the shell text
  backslash, dollar, open parenthesis comes back without its backslash.\<close>

lemma dollar_backslash_not_preserved:
  "parsed_nodes [''sh''] (wrapped_body ''sh'' [''sh''] (backslash # ''$(x)'')) =
     Inr [TypedExpr ''sh'' EPHEMERAL_ENV_ID None [RawText ''$'', RawText ''(x)'']]"
  by code_simp

text \<open>Reconstructed source is not always read back as the same nodes: an escaped dollar sign is
  raw text, is reconstructed without its escape, and is then read as a variable reference.\<close>

lemma reconstruction_reads_escape_as_variable:
  "parsed_nodes [''py''] (backslash # ''$x'') = Inr [RawText ''$'', RawText ''x''] \<and>
   parsed_nodes [''py''] (reconstruct_source [RawText ''$'', RawText ''x'']) = Inr [VarRef ''x'']"
  by code_simp

section \<open>Indexed names\<close>

lemma ident_codes:
  "is_ident_continue c \<Longrightarrow> 48 \<le> char_code c \<and> char_code c < 128"
  "is_ident_start c \<Longrightarrow> 65 \<le> char_code c \<and> char_code c \<noteq> 92 \<and> is_ident_continue c"
  by (auto simp: is_ident_continue_def is_ident_start_def is_ascii_alphabetic_def is_digit_def)

lemma printable_not_space:
  assumes "48 \<le> char_code c" "char_code c < 128"
  shows "\<not> starts_with_whitespace (c # s)"
  using assms by (auto simp: starts_with_whitespace_def whitespace_encodings_def)

lemma tag_no_let:
  assumes "list_all is_ident_continue lang"
  shows "\<not> starts_with_let_keyword (lang @ CHR ''['' # s) 0"
proof
  let ?S = "lang @ CHR ''['' # s"
  assume "starts_with_let_keyword ?S 0"
  then have start: "take 3 ?S = ''let''" and sp: "3 \<ge> length ?S \<or> starts_with_whitespace (drop 3 ?S)"
    by (auto simp: starts_with_let_keyword_def starts_with_def eval_nat_numeral)
  have 3: "3 \<le> length lang"
  proof (rule ccontr)
    assume "\<not> 3 \<le> length lang"
    then have "CHR ''['' \<in> set (take 3 ?S)" by (auto simp: take_Cons')
    then show False unfolding start by simp
  qed
  then obtain c r where r: "drop 3 ?S = c # r" "is_ident_continue c \<or> c = CHR ''[''"
  proof (cases "drop 3 lang")
    case (Cons a as)
    then have "a \<in> set lang" by (metis in_set_dropD list.set_intros(1))
    then show ?thesis using that [of a] Cons 3 assms by (simp add: list_all_iff)
  qed simp
  have "48 \<le> char_code c \<and> char_code c < 128" using r(2) ident_codes(1) [of c] by auto
  then have "\<not> starts_with_whitespace (drop 3 ?S)" unfolding r(1) by (intro printable_not_space) simp_all
  then show False using sp 3 by simp
qed

lemma environment_overflow:
  assumes "ds \<noteq> []" "list_all is_digit ds" "parse_u32 ds = None"
  shows "opener_environment (lang @ CHR ''['' # ds @ CHR '']'' # rest) (length lang) = Inl (EnvironmentNumber ds)"
proof -
  let ?S = "lang @ CHR ''['' # ds @ CHR '']'' # rest"
  have "takeWhile is_digit (ds @ CHR '']'' # rest) = ds"
    using assms(2) by (subst takeWhile_append2) (auto simp: list_all_iff is_digit_def)
  then have scan: "scan is_digit ?S (Suc (length lang)) = Suc (length lang) + length ds" by (simp add: scan_def)
  have "byte_at ?S (length lang) = Some (CHR ''['')" "byte_at ?S (Suc (length lang) + length ds) = Some (CHR '']'')"
    by (simp_all add: byte_at_def nth_append)
  moreover have "byte_at ?S (Suc (length lang)) \<noteq> Some (CHR ''*'')"
    using assms(1,2) by (cases ds) (auto simp: byte_at_def nth_append is_digit_def)
  moreover have "substr ?S (Suc (length lang)) (Suc (length lang) + length ds) = ds" by (simp add: substr_def)
  ultimately show ?thesis using assms(1,3) scan by (simp add: opener_environment_def Let_def)
qed

section \<open>Properties\<close>

text \<open>C37: An indexed name that happens to be a registered tag makes the whole document fail when the
  index is no 32-bit number, whatever follows it: no block has to be opened there.\<close>

theorem index_text_rejected:
  assumes "tag_is_identifier lang"
    and "match_registered_syntax_tag D (lang @ CHR ''['' # ds @ CHR '']'' # rest) = Some lang"
    and "ds \<noteq> []" "list_all is_digit ds" "parse_u32 ds = None"
  shows "parse (lang @ CHR ''['' # ds @ CHR '']'' # rest) D parser_new = Inl (EnvironmentNumber ds)"
proof -
  have lang: "lang \<noteq> []" "is_ident_start (hd lang)" "list_all is_ident_continue lang"
    using assms(1) ident_codes(2) by (auto simp: tag_is_identifier_def split: list.splits)
  let ?S = "lang @ CHR ''['' # ds @ CHR '']'' # rest" and ?p = "parser_new\<lparr>line_starts := None, plan_origins := None\<rparr>"
  have pos: "pos ?p = 0" by (simp add: parser_new_def)
  have hd: "byte_at ?S 0 = Some (hd lang)" using lang(1) by (cases lang) (simp_all add: byte_at_def)
  have "scan_opener ?S D ln 0 = Inl (EnvironmentNumber ds)" for ln
    using assms(2) lang(2) hd environment_overflow [OF assms(3-5), of lang rest] by (simp add: scan_opener_def)
  then have "try_parse_opener ?S D ?p = Inl (EnvironmentNumber ds)" by (simp add: try_parse_opener_def pos)
  moreover have "hd lang \<noteq> backslash" "hd lang \<noteq> CHR ''$''" "hd lang \<noteq> CHR ''#''"
    using ident_codes(2) [OF lang(2)] by auto
  moreover have "let_head ?S ?p = None" using tag_no_let [OF lang(3)] by (simp add: let_head_def pos)
  ultimately have "next_step ?S D None [] 0 ?p = Finished (Inl (EnvironmentNumber ds))"
    using hd by (simp add: next_step_def closer_at_def next_let_def next_escape_def next_var_def next_opener_def
        current_byte_def try_parse_var_ref_def pos)
  then show ?thesis by (simp add: parse_def parse_until_def pos parse_loop.simps [of ?S])
qed

theorem index_text_rejected_witness:
  "parse (''c[4294967296]'' @ '' = 1;'') (hash_set_dialect [''c''] []) parser_new = Inl (EnvironmentNumber ''4294967296'')"
proof -
  have "match_registered_syntax_tag (hash_set_dialect [''c''] []) (''c'' @ CHR ''['' # ''4294967296'' @ CHR '']'' # '' = 1;'') = Some ''c''"
    by code_simp
  moreover have "parse_u32 ''4294967296'' = None" "list_all is_digit ''4294967296''" "tag_is_identifier ''c''"
    by code_simp+
  ultimately show ?thesis
    using index_text_rejected [of "''c''" "hash_set_dialect [''c''] []" "''4294967296''" "'' = 1;''"] by simp
qed

end
