(* ===== verification/Catalog_Identity.thy ===== *)
theory Catalog_Identity
  imports Syntax
begin

text \<open>
  Identities over the backend catalog, \<^verbatim>\<open>crates/ostadix-api/src/backend_catalog.rs\<close>: what the hashed byte
  strings determine, executable-set identities, and the minting and checking of backend
  implementation identities.
\<close>

section \<open>Executable sets\<close>

datatype BackendExecutableSelectionV2 = CompleteCatalogAlternative | AdapterDirectLauncherRefinement

fun selection_name :: "BackendExecutableSelectionV2 \<Rightarrow> string" where
  "selection_name CompleteCatalogAlternative = ''complete-catalog-alternative''"
| "selection_name AdapterDirectLauncherRefinement = ''adapter-direct-launcher-refinement''"

record executable_set_row =
  requirement_key :: string
  selected_alternative :: u32
  selection :: BackendExecutableSelectionV2
  logical_command :: string
  role :: string
  artifact :: string

definition validate_executable_set_token :: "string \<Rightarrow> string \<Rightarrow> PlacementValidationError + unit" where
  "validate_executable_set_token field value =
     (if value = [] then Inl (EmptyField field)
      else if length value > 128 then Inl (TooLong field 128)
      else if value = ''.'' \<or> value = ''..'' \<or>
        \<not> list_all (\<lambda>c. is_ascii_alphanumeric c \<or> c \<in> set ''._-+:/'') value
      then Inl (InvalidToken field value)
      else Inr ())"

definition executable_set_row_new ::
  "string \<Rightarrow> u32 \<Rightarrow> BackendExecutableSelectionV2 \<Rightarrow> string \<Rightarrow> string \<Rightarrow> string \<Rightarrow>
   PlacementValidationError + executable_set_row" where
  "executable_set_row_new key alternative sel command r art =
     and_then (validate_executable_set_token ''backend executable requirement key'' key) (\<lambda>_.
     and_then (validate_executable_set_token ''backend executable logical command'' command) (\<lambda>_.
     and_then (validate_executable_set_token ''backend executable role'' r) (\<lambda>_.
       if r \<notin> set [''direct-launcher'', ''ostadix-proxy'', ''sandbox-wrapper'']
       then Inl (InvalidToken ''backend executable role'' r)
       else Inr \<lparr>requirement_key = key, selected_alternative = alternative, selection = sel,
         logical_command = command, role = r, artifact = art\<rparr>)))"

definition coordinate_label :: "executable_set_row \<Rightarrow> string" where
  "coordinate_label r =
     requirement_key r @ ''@'' @ show_nat (unat (selected_alternative r)) @ ''/'' @
     selection_name (selection r) @ ''/'' @ logical_command r @ ''/'' @ role r"

text \<open>The derived order compares the fields from the first to the last, strings by their bytes.\<close>

definition row_key :: "executable_set_row \<Rightarrow> bytes \<times> u32 \<times> nat \<times> bytes \<times> bytes \<times> bytes" where
  "row_key r = (as_bytes (requirement_key r), selected_alternative r,
     (case selection r of CompleteCatalogAlternative \<Rightarrow> 0 | AdapterDirectLauncherRefinement \<Rightarrow> 1),
     as_bytes (logical_command r), as_bytes (role r), as_bytes (artifact r))"

definition coordinate ::
  "executable_set_row \<Rightarrow> string \<times> u32 \<times> BackendExecutableSelectionV2 \<times> string \<times> string" where
  "coordinate r = (requirement_key r, selected_alternative r, selection r, logical_command r, role r)"

text \<open>The first row whose coordinate was seen before.\<close>

fun duplicate_row ::
  "(string \<times> u32 \<times> BackendExecutableSelectionV2 \<times> string \<times> string) set \<Rightarrow> executable_set_row list \<Rightarrow>
   executable_set_row option" where
  "duplicate_row coordinates [] = None"
| "duplicate_row coordinates (r # rs) =
     (if coordinate r \<in> coordinates then Some r else duplicate_row (insert (coordinate r) coordinates) rs)"

definition BACKEND_EXECUTABLE_SET_DIGEST_DOMAIN_V2 :: string where
  "BACKEND_EXECUTABLE_SET_DIGEST_DOMAIN_V2 = ''ostadix/backend-executable-set/v2''"

definition backend_executable_set_v2 ::
  "(bytes \<Rightarrow> string) \<Rightarrow> (executable_set_row list \<Rightarrow> bytes) \<Rightarrow> executable_set_row list \<Rightarrow>
   PlacementValidationError + SemanticDigestV1" where
  "backend_executable_set_v2 sha256 json rows =
     (let rows = sort_key row_key rows in
      case duplicate_row {} rows of
        Some r \<Rightarrow> Inl (Duplicate ''backend executable-set coordinate'' (coordinate_label r))
      | None \<Rightarrow>
        if (case rows of [] \<Rightarrow> False
            | first # rest \<Rightarrow> list_ex (\<lambda>r. requirement_key r \<noteq> requirement_key first \<or>
                selected_alternative r \<noteq> selected_alternative first \<or> selection r \<noteq> selection first) rest)
        then Inl (InvalidToken ''backend executable-set selection''
          ''mixed requirement or alternative coordinates'')
        else Inr (hash_bytes sha256 BACKEND_EXECUTABLE_SET_DIGEST_DOMAIN_V2 (json rows)))"

section \<open>Implementation identities\<close>

record implementation_id =
  backend_specification :: SemanticDigestV1
  adapter_artifact :: string
  executable_set :: SemanticDigestV1
  protocol_abi :: string
  realization_pipeline :: SemanticDigestV1

definition implementation_id_new ::
  "SemanticDigestV1 \<Rightarrow> string \<Rightarrow> SemanticDigestV1 \<Rightarrow> string \<Rightarrow> SemanticDigestV1 \<Rightarrow>
   PlacementValidationError + implementation_id" where
  "implementation_id_new spec art exec_set abi realization =
     and_then (validate_token ''backend protocol ABI'' abi) (\<lambda>_.
       Inr \<lparr>backend_specification = spec, adapter_artifact = art, executable_set = exec_set,
         protocol_abi = abi, realization_pipeline = realization\<rparr>)"

definition LOCAL_BACKEND_PROTOCOL_ABI_V1 :: string where
  "LOCAL_BACKEND_PROTOCOL_ABI_V1 = ''o-backend-cbor-v1''"

definition LOCAL_REALIZATION_SCHEMA_V2 :: string where
  "LOCAL_REALIZATION_SCHEMA_V2 = ''ostadix.local-realization/v2''"

definition LOCAL_REALIZATION_DIGEST_DOMAIN_V2 :: string where
  "LOCAL_REALIZATION_DIGEST_DOMAIN_V2 = ''ostadix/registry/local-realization/v2''"

text \<open>The material of a realization as its JSON members; \<open>json\<close> writes the object.\<close>

definition realization_material ::
  "SemanticDigestV1 \<Rightarrow> BackendAdapterKind \<Rightarrow> string \<Rightarrow> SemanticDigestV1 \<Rightarrow> string \<Rightarrow> (string \<times> string) list" where
  "realization_material spec adapter art exec_set abi =
     [(''schema'', LOCAL_REALIZATION_SCHEMA_V2),
      (''backend_specification'', as_sha256 spec),
      (''adapter_kind'', adapter_name adapter),
      (''adapter_artifact'', art),
      (''executable_set_schema'', BACKEND_EXECUTABLE_SET_DIGEST_DOMAIN_V2),
      (''executable_set'', as_sha256 exec_set),
      (''protocol'', abi)]"

definition expected_specification_error ::
  "catalog \<Rightarrow> SemanticDigestV1 option \<Rightarrow> SemanticDigestV1 \<Rightarrow> PlacementValidationError option" where
  "expected_specification_error C expected current =
     (case expected of
        None \<Rightarrow> None
      | Some e \<Rightarrow>
        if e = current then None
        else if \<not> contains_specification_sha256 C (as_sha256 e)
        then Some (NonCurrentBackendCatalog (as_sha256 e) BACKEND_CATALOG_CURRENT_SCHEMA)
        else Some (ScopeMismatch ''backend implementation specification'' (as_sha256 current) (as_sha256 e)))"

definition backend_implementation_id_v1 ::
  "catalog \<Rightarrow> ((string \<times> string) list \<Rightarrow> bytes) \<Rightarrow> string \<Rightarrow> SemanticDigestV1 option \<Rightarrow> string \<Rightarrow>
   SemanticDigestV1 \<Rightarrow> string \<Rightarrow> PlacementValidationError + implementation_id" where
  "backend_implementation_id_v1 C json backend expected art exec_set abi =
     (let unknown = InvalidToken ''backend implementation canonical backend'' backend in
      and_then (ok_or unknown (registry_get (cat_specs C) backend)) (\<lambda>spec.
      and_then (ok_or unknown (specification_sha256 C (spec_name spec))) (\<lambda>digest.
      and_then (from_sha256 digest) (\<lambda>current.
        case expected_specification_error C expected current of
          Some e \<Rightarrow> Inl e
        | None \<Rightarrow>
          if abi \<noteq> LOCAL_BACKEND_PROTOCOL_ABI_V1
          then Inl (ScopeMismatch ''backend implementation protocol ABI'' LOCAL_BACKEND_PROTOCOL_ABI_V1 abi)
          else implementation_id_new current art exec_set abi
            (hash_bytes (cat_sha256 C) LOCAL_REALIZATION_DIGEST_DOMAIN_V2
               (json (realization_material current (spec_adapter spec) art exec_set abi)))))))"

definition contains_current_implementation ::
  "catalog \<Rightarrow> ((string \<times> string) list \<Rightarrow> bytes) \<Rightarrow> implementation_id \<Rightarrow> bool" where
  "contains_current_implementation C json impl =
     (case find (\<lambda>spec. specification_sha256 C (spec_name spec) = Some (as_sha256 (backend_specification impl)))
        (cat_specs C) of
        None \<Rightarrow> False
      | Some spec \<Rightarrow>
        backend_implementation_id_v1 C json (spec_name spec) (Some (backend_specification impl))
          (adapter_artifact impl) (executable_set impl) (protocol_abi impl) = Inr impl)"

definition state_support_for_current_specification ::
  "catalog \<Rightarrow> SemanticDigestV1 \<Rightarrow> BackendStateSupportV2 option" where
  "state_support_for_current_specification C digest =
     map_option spec_state_support
       (find (\<lambda>spec. specification_sha256 C (spec_name spec) = Some (as_sha256 digest)) (cat_specs C))"

section \<open>Prefix codes\<close>

text \<open>
  An encoder whose output can be read off the front of a byte string. The catalog hashes are made of
  length-framed fields and counted lists of such encoders.
\<close>

text \<open>A length that fits its 64-bit prefix.\<close>

definition short :: "'a list \<Rightarrow> bool" where
  "short xs \<longleftrightarrow> length xs < 2 ^ 64"

locale prefix_code =
  fixes enc :: "'a \<Rightarrow> bytes" and ok :: "'a \<Rightarrow> bool"
  assumes cancel: "ok x \<Longrightarrow> ok y \<Longrightarrow> enc x @ s = enc y @ t \<Longrightarrow> x = y \<and> s = t"
begin

lemma cancel_iff: "ok x \<Longrightarrow> ok y \<Longrightarrow> enc x @ s = enc y @ t \<longleftrightarrow> x = y \<and> s = t"
  using cancel [of x y s t] by blast

lemma cancel_items:
  "list_all ok xs \<Longrightarrow> list_all ok ys \<Longrightarrow> length xs = length ys \<Longrightarrow>
   concat (map enc xs) @ s = concat (map enc ys) @ t \<Longrightarrow> xs = ys \<and> s = t"
proof (induction xs arbitrary: ys)
  case (Cons x xs)
  then obtain y ys' where ys: "ys = y # ys'" by (cases ys) auto
  have "x = y \<and> concat (map enc xs) @ s = concat (map enc ys') @ t"
    using Cons.prems by (intro cancel) (auto simp: ys)
  then show ?case using Cons.IH [of ys'] Cons.prems by (simp add: ys)
qed simp

lemma cancel_list:
  assumes "list_all ok xs" "list_all ok ys" "short xs" "short ys"
    "hash_list enc xs @ s = hash_list enc ys @ t"
  shows "xs = ys \<and> s = t"
proof -
  have "be_bytes 8 (length xs) = be_bytes 8 (length ys)"
    and rest: "concat (map enc xs) @ s = concat (map enc ys) @ t"
    using assms(5) by (auto simp: hash_list_def catalog_hash_count_def append_eq_append_conv)
  then have "be_nat (be_bytes 8 (length xs)) = be_nat (be_bytes 8 (length ys))" by simp
  then have "length xs = length ys" using assms(3,4) by (simp add: be_nat_be_bytes short_def)
  from cancel_items [OF assms(1,2) this rest] show ?thesis .
qed

lemma list_iff:
  "list_all ok xs \<Longrightarrow> list_all ok ys \<Longrightarrow> short xs \<Longrightarrow> short ys \<Longrightarrow>
   hash_list enc xs @ s = hash_list enc ys @ t \<longleftrightarrow> xs = ys \<and> s = t"
  using cancel_list [of xs ys s t] by blast

end

lemma catalog_hash_field_cancel:
  assumes "length b < 2 ^ 64" "length c < 2 ^ 64" "catalog_hash_field b @ s = catalog_hash_field c @ t"
  shows "b = c \<and> s = t"
proof -
  have "be_bytes 8 (length b) = be_bytes 8 (length c)" and rest: "b @ s = c @ t"
    using assms(3) by (auto simp: catalog_hash_field_def append_eq_append_conv)
  then have "be_nat (be_bytes 8 (length b)) = be_nat (be_bytes 8 (length c))" by simp
  then have "length b = length c" using assms(1,2) by (simp add: be_nat_be_bytes)
  then show ?thesis using rest by simp
qed

interpretation text_field: prefix_code hash_str short
proof
  fix x y :: string and s t
  assume ok: "short x" "short y" and eq: "hash_str x @ s = hash_str y @ t"
  have "as_bytes x = as_bytes y \<and> s = t"
    by (rule catalog_hash_field_cancel [OF _ _ eq]) (use ok in \<open>simp_all add: short_def\<close>)
  then show "x = y \<and> s = t" by simp
qed

text \<open>Equations between framed byte strings, read from the front.\<close>

named_theorems frame_simps \<open>reading equations between hashed byte strings\<close>

declare text_field.cancel_iff [frame_simps]

definition short_list :: "string list \<Rightarrow> bool" where
  "short_list ss \<longleftrightarrow> list_all short ss \<and> short ss"

interpretation text_list: prefix_code "hash_list hash_str" short_list
  by unfold_locales (auto simp: short_list_def dest: text_field.cancel_list [rotated 4])

declare text_list.cancel_iff [frame_simps]

section \<open>What a specification hash determines\<close>

text \<open>Sizes that fit the 64-bit length prefixes.\<close>

definition fits_requirement :: "runtime_requirement \<Rightarrow> bool" where
  "fits_requirement r \<longleftrightarrow> short (req_key r) \<and> list_all short_list (req_alternatives r) \<and>
     short (req_alternatives r)"

fun fits_exactness :: "IntegerExactness \<Rightarrow> bool" where
  "fits_exactness (ExactRange lo hi) = (short (show_int lo) \<and> short (show_int hi))"
| "fits_exactness _ = True"

fun fits_state_support :: "BackendStateSupportV2 \<Rightarrow> bool" where
  "fits_state_support Stateless = True"
| "fits_state_support (SemanticSnapshot codec compatibility) =
     (short (as_sha256 codec) \<and>
      (case compatibility of ExactImplementation \<Rightarrow> True | CompatibilityClass c \<Rightarrow> short (as_sha256 c)))"
| "fits_state_support (ExternalPinned manifest_schema) = short (as_sha256 manifest_schema)"

definition fits_spec :: "backend_spec \<Rightarrow> bool" where
  "fits_spec spec \<longleftrightarrow> short (spec_name spec) \<and> short_list (spec_aliases spec) \<and>
     short (spec_required_authorities spec) \<and> short (spec_runtime_requirement_key spec) \<and>
     fits_exactness (integer_exactness (spec_value_capabilities spec)) \<and>
     fits_state_support (spec_state_support spec)"

lemma short_literals [simp]:
  "short ''builtin''" "short ''external''" "short ''pure''" "short ''impure''"
  "short ''stateless''" "short ''semantic-snapshot''" "short ''exact-implementation''" "short ''compatibility-class''"
  "short ''external-pinned''" "short ''no-backend-morphism-profile''" "short ''backend-morphism-profile''"
  by (simp_all add: short_def)

lemma short_renderer_label [simp]: "short (renderer_label x)"
  by (cases x) (simp_all add: short_def)

lemma short_execution_label [simp]: "short (execution_label x)"
  by (cases x) (simp_all add: short_def)

lemma short_authority_name [simp]: "short (authority_name x)"
  by (cases x) (simp_all add: short_def)

lemma short_adapter_name [simp]: "short (adapter_name x)"
  by (cases x) (simp_all add: short_def)

lemma short_precision_name [simp]: "short (precision_name x)"
  by (cases x) (simp_all add: short_def)

lemma short_rich_label [simp]: "short (rich_label x)"
  by (cases x) (simp_all add: short_def)

lemma short_profile_name [simp]: "short (profile_name x)"
  by (cases x) (simp_all add: short_def)

lemma short_exactness_label [simp]: "short (exactness_label x)"
  by (cases x) (simp_all add: short_def)

lemma renderer_label_inject [simp]: "renderer_label x = renderer_label y \<longleftrightarrow> x = y"
  by (cases x; cases y) simp_all

lemma execution_label_inject [simp]: "execution_label x = execution_label y \<longleftrightarrow> x = y"
  by (cases x; cases y) simp_all

lemma authority_name_inject [simp]: "authority_name x = authority_name y \<longleftrightarrow> x = y"
  by (cases x; cases y) simp_all

lemma adapter_name_inject [simp]: "adapter_name x = adapter_name y \<longleftrightarrow> x = y"
  by (cases x; cases y) simp_all

lemma precision_name_inject [simp]: "precision_name x = precision_name y \<longleftrightarrow> x = y"
  by (cases x; cases y) simp_all

lemma rich_label_inject [simp]: "rich_label x = rich_label y \<longleftrightarrow> x = y"
  by (cases x; cases y) simp_all

lemma profile_name_inject [simp]: "profile_name x = profile_name y \<longleftrightarrow> x = y"
  by (cases x; cases y) simp_all

interpretation alternatives: prefix_code "hash_list (hash_list hash_str)"
  "\<lambda>xs. list_all short_list xs \<and> short xs"
  by unfold_locales (auto dest: text_list.cancel_list [rotated 4])

interpretation authority: prefix_code "\<lambda>a. hash_str (authority_name a)" "\<lambda>_. True"
  by unfold_locales (simp add: frame_simps)

lemma authorities_eq [frame_simps]:
  "short xs \<Longrightarrow> short ys \<Longrightarrow>
   hash_list (\<lambda>a. hash_str (authority_name a)) xs @ s = hash_list (\<lambda>a. hash_str (authority_name a)) ys @ t \<longleftrightarrow>
   xs = ys \<and> s = t"
  by (rule authority.list_iff) (simp_all add: list_all_iff)

interpretation requirement_code: prefix_code hash_runtime_requirement fits_requirement
proof
  fix x y :: runtime_requirement and s t
  assume ok: "fits_requirement x" "fits_requirement y"
    and eq: "hash_runtime_requirement x @ s = hash_runtime_requirement y @ t"
  have "req_key x = req_key y" "req_builtin x = req_builtin y" "req_precision x = req_precision y"
    and rest: "hash_list (hash_list hash_str) (req_alternatives x) @ s =
      hash_list (hash_list hash_str) (req_alternatives y) @ t"
    using ok eq by (auto simp: hash_runtime_requirement_def fits_requirement_def frame_simps split: if_splits)
  moreover have "req_alternatives x = req_alternatives y \<and> s = t"
    using ok rest by (intro alternatives.cancel) (auto simp: fits_requirement_def)
  ultimately show "x = y \<and> s = t" by simp
qed

lemma show_int_inject: "show_int i = show_int j \<longleftrightarrow> i = j"
proof
  assume eq: "show_int i = show_int j"
  have show_nat_inject: "show_nat m = show_nat n \<Longrightarrow> m = n" for m n
    using show_nat_digits [of m] show_nat_digits [of n] by metis
  have no_minus: "show_nat m \<noteq> CHR ''-'' # ds" for m ds
    using show_nat_digits [of m] by (auto simp: is_digit_def)
  show "i = j"
    using eq no_minus no_minus [symmetric] show_nat_inject
    by (auto simp: show_int_def split: if_splits dest!: show_nat_inject)
qed simp

lemma bits_field_cancel:
  fixes a b :: u16
  assumes "catalog_hash_field (be_bytes 2 (unat a)) @ s = catalog_hash_field (be_bytes 2 (unat b)) @ t"
  shows "a = b \<and> s = t"
proof -
  have "be_bytes 2 (unat a) = be_bytes 2 (unat b) \<and> s = t"
    by (rule catalog_hash_field_cancel [OF _ _ assms]) simp_all
  moreover have "unat c < 256 ^ 2" for c :: u16 using unsigned_less [of c, where 'a = nat] by simp
  ultimately show ?thesis by (metis be_nat_be_bytes_id word_unat_eq_iff)
qed

lemma exactness_cancel:
  assumes "fits_exactness a" "fits_exactness b" "exactness_label a = exactness_label b"
    "hash_exactness_arguments a @ s = hash_exactness_arguments b @ t"
  shows "a = b \<and> s = t"
  using assms by (cases a; cases b) (auto simp: frame_simps show_int_inject dest: bits_field_cancel)

declare requirement_code.cancel_iff [frame_simps]

interpretation state_code: prefix_code hash_state_support fits_state_support
proof
  fix x y :: BackendStateSupportV2 and s t
  assume "fits_state_support x" "fits_state_support y"
    "hash_state_support x @ s = hash_state_support y @ t"
  moreover have "as_sha256 d = as_sha256 e \<longleftrightarrow> d = e" for d e by (cases d; cases e) simp
  ultimately show "x = y \<and> s = t"
    by (cases x; cases y) (auto simp: frame_simps split: SnapshotCompatibilityV2.splits)
qed

interpretation profile_code: prefix_code hash_profile "\<lambda>_. True"
  by unfold_locales (auto simp: hash_profile_def frame_simps split: option.splits)

declare state_code.cancel_iff [frame_simps] profile_code.cancel_iff [frame_simps]

text \<open>The field order of the current schema, with nothing left unframed.\<close>

lemma spec_v6_cancel:
  assumes ok: "fits_spec x" "fits_requirement r" "fits_spec y" "fits_requirement r'"
    and eq: "hash_backend_spec_v6 x r p @ s = hash_backend_spec_v6 y r' p' @ t"
  shows "x = y \<and> r = r' \<and> p = p' \<and> s = t"
proof -
  let ?ex = "\<lambda>z. integer_exactness (spec_value_capabilities z)"
  let ?rest = "\<lambda>z q p u. hash_str (rich_label (rich_numbers (spec_value_capabilities z))) @
    hash_runtime_requirement q @ hash_state_support (spec_state_support z) @ hash_profile p @ u"
  have pure: "(if b then ''pure'' else ''impure'') = (if c then ''pure'' else ''impure'') \<longleftrightarrow> b = c"
    "short (if b then ''pure'' else ''impure'')" for b c
    by simp_all
  have heads: "spec_name x = spec_name y \<and> spec_aliases x = spec_aliases y \<and> spec_pure x = spec_pure y \<and>
      spec_renderer x = spec_renderer y \<and> spec_execution x = spec_execution y \<and>
      spec_required_authorities x = spec_required_authorities y \<and> spec_adapter x = spec_adapter y \<and>
      spec_runtime_requirement_key x = spec_runtime_requirement_key y \<and>
      exactness_label (?ex x) = exactness_label (?ex y) \<and>
      hash_exactness_arguments (?ex x) @ ?rest x r p s = hash_exactness_arguments (?ex y) @ ?rest y r' p' t"
    using ok eq
    by (simp add: hash_backend_spec_v6_def hash_backend_spec_v5_def hash_backend_spec_v4_def
        hash_backend_spec_v3_def fits_spec_def frame_simps pure)
  then have "?ex x = ?ex y \<and> ?rest x r p s = ?rest y r' p' t"
    using ok by (intro exactness_cancel) (simp_all add: fits_spec_def)
  then show ?thesis using heads ok by (simp add: fits_spec_def frame_simps)
qed

section \<open>The compiled catalog\<close>

lemma cat_specs_global [simp]: "cat_specs (global sha256) = BACKEND_SPECS sha256"
  "cat_sha256 (global sha256) = sha256"
  by (simp_all add: global_def)

lemma global_get_own:
  "s \<in> set (BACKEND_SPECS sha256) \<Longrightarrow> registry_get (BACKEND_SPECS sha256) (spec_name s) = Some s"
  by (rule registry_get_own [OF global_names_distinct]) (simp_all add: spec_matches_def)

lemma short_list_simps [simp]:
  "short_list []" "short x \<Longrightarrow> short_list [x]"
  by (simp_all add: short_list_def short_def)

lemma global_fits:
  assumes "\<And>b. length (sha256 b) = 64"
  shows "list_all fits_spec (BACKEND_SPECS sha256)"
  using assms
  by (simp add: table_defs fits_spec_def short_def short_list_def snapshot_state_def pinned_state_def)

lemma requirements_fit: "list_all fits_requirement (UNKNOWN_RUNTIME_REQUIREMENT # RUNTIME_REQUIREMENT_SPECS)"
  by (simp add: RUNTIME_REQUIREMENT_SPECS_def UNKNOWN_RUNTIME_REQUIREMENT_def requirement_def
      fits_requirement_def short_def short_list_def)

lemma runtime_requirements_fit [simp]: "fits_requirement (runtime_requirements_for specs lang)"
  using requirements_fit
  by (auto simp: runtime_requirements_for_def Let_def list_all_iff find_Some_iff split: option.splits)

lemma global_digest_determines:
  assumes len: "\<And>b. length (sha256 b) = 64"
    and inj: "inj_on sha256 (specification_preimage_v6 (global sha256) ` set (BACKEND_SPECS sha256))"
    and s: "s \<in> set (BACKEND_SPECS sha256)" "t \<in> set (BACKEND_SPECS sha256)"
    and eq: "specification_sha256 (global sha256) (spec_name s) = specification_sha256 (global sha256) (spec_name t)"
  shows "s = t"
proof -
  have "specification_preimage_v6 (global sha256) s = specification_preimage_v6 (global sha256) t"
    using eq s inj by (auto simp: specification_sha256_v6_def global_get_own dest: inj_onD)
  then have eq': "hash_backend_spec_v6 s (runtime_requirements_for (BACKEND_SPECS sha256) (spec_name s))
      (morphism_profile_for (cat_profiles (global sha256)) (BACKEND_SPECS sha256) (spec_name s)) @ [] =
    hash_backend_spec_v6 t (runtime_requirements_for (BACKEND_SPECS sha256) (spec_name t))
      (morphism_profile_for (cat_profiles (global sha256)) (BACKEND_SPECS sha256) (spec_name t)) @ []"
    by (simp add: specification_preimage_v6_def)
  have "fits_spec s" "fits_spec t"
    using global_fits [of sha256] len s by (simp_all add: list_all_iff)
  then show ?thesis using spec_v6_cancel [OF _ _ _ _ eq'] by simp
qed

lemma find_unique:
  assumes "x \<in> set xs" "P x" "\<And>y. y \<in> set xs \<Longrightarrow> P y \<Longrightarrow> y = x"
  shows "find P xs = Some x"
proof (cases "find P xs")
  case None
  then show ?thesis using assms(1,2) by (auto simp: find_None_iff)
next
  case (Some y)
  then have "y \<in> set xs" "P y" by (auto simp: find_Some_iff)
  then show ?thesis using Some assms(3) by blast
qed

lemma minted_fields:
  assumes "backend_implementation_id_v1 C json backend expected art exec_set abi = Inr impl"
  shows "\<exists>spec digest. registry_get (cat_specs C) backend = Some spec \<and>
    specification_sha256 C (spec_name spec) = Some digest \<and> from_sha256 digest = Inr (backend_specification impl) \<and>
    adapter_artifact impl = art \<and> executable_set impl = exec_set \<and> protocol_abi impl = abi \<and>
    implementation_id_new (backend_specification impl) art exec_set abi
      (hash_bytes (cat_sha256 C) LOCAL_REALIZATION_DIGEST_DOMAIN_V2
        (json (realization_material (backend_specification impl) (spec_adapter spec) art exec_set abi))) = Inr impl \<and>
    abi = LOCAL_BACKEND_PROTOCOL_ABI_V1"
  using assms
  by (auto simp: backend_implementation_id_v1_def Let_def res_simps implementation_id_new_def
      split: option.splits if_splits)

text \<open>The schema is the first framed field of every specification identity.\<close>

definition catalog_preimages :: "catalog \<Rightarrow> bytes set" where
  "catalog_preimages C =
     (\<Union>s \<in> set (cat_specs C). {specification_preimage_v3 C s, specification_preimage_v4 C s,
        specification_preimage_v5 C s, specification_preimage_v6 C s})"

lemma schemas_separate:
  "specification_preimage_v6 C s \<notin>
     {specification_preimage_v3 C t, specification_preimage_v4 C t, specification_preimage_v5 C t}"
proof -
  have "short BACKEND_CATALOG_SCHEMA_V3" "short BACKEND_CATALOG_SCHEMA_V4" "short BACKEND_CATALOG_SCHEMA_V5"
    "short BACKEND_CATALOG_SCHEMA_V6"
    by (simp_all add: short_def BACKEND_CATALOG_SCHEMA_V3_def BACKEND_CATALOG_SCHEMA_V4_def
        BACKEND_CATALOG_SCHEMA_V5_def BACKEND_CATALOG_SCHEMA_V6_def)
  moreover have "BACKEND_CATALOG_SCHEMA_V6 \<noteq> BACKEND_CATALOG_SCHEMA_V3"
    "BACKEND_CATALOG_SCHEMA_V6 \<noteq> BACKEND_CATALOG_SCHEMA_V4" "BACKEND_CATALOG_SCHEMA_V6 \<noteq> BACKEND_CATALOG_SCHEMA_V5"
    by code_simp+
  ultimately show ?thesis
    by (simp add: specification_preimage_v3_def specification_preimage_v4_def specification_preimage_v5_def
        specification_preimage_v6_def frame_simps)
qed

text \<open>A hash for the witnesses: the position of the specification's name among the tags, as two hexadecimal
  digits padded to 64 characters.\<close>

definition hex_digit :: "nat \<Rightarrow> char" where
  "hex_digit n = char_of (if n < 10 then 48 + n else 87 + n)"

definition hex_code :: "nat \<Rightarrow> string" where
  "hex_code n = [hex_digit (n div 16 mod 16), hex_digit (n mod 16)] @ replicate 62 CHR ''0''"

definition sample_names :: "string list" where
  "sample_names =
     [''O'', ''quote'', ''nix'', ''nix_expr'', ''nix_store'', ''nixos_test'', ''html'', ''markdown'', ''latex'',
      ''text'', ''sql'', ''haskell'', ''ocaml'', ''webassembly'', ''python'', ''ubuntu_vm'', ''bash'', ''shell'',
      ''rust'', ''racket'', ''csharp'', ''c'', ''cpp'', ''lisp'', ''common_lisp'', ''ruby'', ''matlab'',
      ''mathematica'', ''java'', ''javascript'']"

definition name_code :: "string \<Rightarrow> string" where
  "name_code name = hex_code (length (takeWhile (\<lambda>n. n \<noteq> name) sample_names))"

definition sample_sha256 :: "bytes \<Rightarrow> string" where
  "sample_sha256 bs = (let rest = drop 34 bs in name_code (map char_of_byte (take (be_nat (take 8 rest)) (drop 8 rest))))"

lemma length_sample_sha256: "length (sample_sha256 bs) = 64"
  by (simp add: sample_sha256_def name_code_def hex_code_def Let_def)

lemma sample_sha256_preimage:
  assumes "short (spec_name spec)"
  shows "sample_sha256 (specification_preimage_v6 C spec) = name_code (spec_name spec)"
  using assms
  by (simp add: sample_sha256_def specification_preimage_v6_def hash_backend_spec_v6_def hash_backend_spec_v5_def
      hash_backend_spec_v4_def hash_backend_spec_v3_def catalog_hash_field_def BACKEND_CATALOG_SCHEMA_V6_def short_def)

lemma hex_code_inject:
  assumes "m < 256" "n < 256" "hex_code m = hex_code n"
  shows "m = n"
proof -
  have digit: "hex_digit a = hex_digit b \<Longrightarrow> a < 16 \<Longrightarrow> b < 16 \<Longrightarrow> a = b" for a b
    by (auto simp: hex_digit_def char_of_eq_iff take_bit_eq_mod split: if_splits)
  have "m div 16 = n div 16" "m mod 16 = n mod 16"
    using assms digit [of "m div 16" "n div 16"] digit [of "m mod 16" "n mod 16"]
    by (auto simp: hex_code_def less_mult_imp_div_less)
  then show ?thesis by (metis div_mult_mod_eq)
qed

lemma position_inject:
  "x \<in> set xs \<Longrightarrow> y \<in> set xs \<Longrightarrow>
   length (takeWhile (\<lambda>n. n \<noteq> x) xs) = length (takeWhile (\<lambda>n. n \<noteq> y) xs) \<Longrightarrow> x = y"
  by (induction xs) (auto split: if_splits)

lemma name_code_inject: "inj_on name_code (set sample_names)"
proof (rule inj_onI)
  fix x y assume "x \<in> set sample_names" "y \<in> set sample_names" "name_code x = name_code y"
  moreover have "length (takeWhile P sample_names) < 256" for P
    using length_takeWhile_le [of P sample_names] by (simp add: sample_names_def)
  ultimately show "x = y"
    unfolding name_code_def by (metis hex_code_inject position_inject)
qed

lemma global_spec_names: "map spec_name (BACKEND_SPECS sha256) = sample_names"
  by (simp add: table_defs sample_names_def)

lemma sample_no_collision:
  "inj_on sample_sha256 (specification_preimage_v6 (global sample_sha256) ` set (BACKEND_SPECS sample_sha256))"
proof (rule inj_on_imageI, rule inj_onI)
  let ?S = "BACKEND_SPECS sample_sha256" and ?pre = "specification_preimage_v6 (global sample_sha256)"
  fix s t assume st: "s \<in> set ?S" "t \<in> set ?S"
    and eq: "(sample_sha256 \<circ> ?pre) s = (sample_sha256 \<circ> ?pre) t"
  have "short (spec_name s)" "short (spec_name t)"
    using st global_fits [of sample_sha256] length_sample_sha256 by (simp_all add: list_all_iff fits_spec_def)
  then have "name_code (spec_name s) = name_code (spec_name t)"
    using eq by (simp add: sample_sha256_preimage)
  moreover have "spec_name s \<in> set sample_names" "spec_name t \<in> set sample_names"
    using st global_spec_names [of sample_sha256] by (metis image_eqI list.set_map)+
  ultimately have "spec_name s = spec_name t" using name_code_inject by (auto dest: inj_onD)
  then show "s = t" using st global_get_own by (metis option.inject)
qed

section \<open>Properties\<close>

text \<open>C36: Every tag of the compiled catalog belongs to one row: a lookup finds a specification exactly when
  the specification has that name or alias, all tags are identifiers the parser can match, a tag and
  its canonical name have the same interface, and every row has a runtime requirement.\<close>

theorem catalog_tags_resolve:
  "(registry_get (BACKEND_SPECS sha256) lang = Some s \<longleftrightarrow> s \<in> set (BACKEND_SPECS sha256) \<and> spec_matches s lang) \<and>
   list_all tag_is_identifier (registered_backend_names (BACKEND_SPECS sha256)) \<and>
   interface_for (global sha256) (registry_canonical (BACKEND_SPECS sha256) lang) = interface_for (global sha256) lang \<and>
   list_all (\<lambda>s. req_key (runtime_requirements_for (BACKEND_SPECS sha256) (spec_name s)) =
     spec_runtime_requirement_key s) (BACKEND_SPECS sha256)"
proof (intro conjI)
  show "registry_get (BACKEND_SPECS sha256) lang = Some s \<longleftrightarrow>
      s \<in> set (BACKEND_SPECS sha256) \<and> spec_matches s lang"
    using registry_get_own [OF global_names_distinct] registry_get_Some by blast
  show "list_all tag_is_identifier (registered_backend_names (BACKEND_SPECS sha256))"
    unfolding global_names by code_simp
  show "interface_for (global sha256) (registry_canonical (BACKEND_SPECS sha256) lang) = interface_for (global sha256) lang"
    using interface_for_canonical [of "global sha256" lang] global_names_distinct by simp
  have "list_all (\<lambda>s. spec_runtime_requirement_key s \<in> set (map req_key RUNTIME_REQUIREMENT_SPECS)) (BACKEND_SPECS sha256)"
    by (simp add: table_defs RUNTIME_REQUIREMENT_SPECS_def requirement_def)
  then show "list_all (\<lambda>s. req_key (runtime_requirements_for (BACKEND_SPECS sha256) (spec_name s)) =
      spec_runtime_requirement_key s) (BACKEND_SPECS sha256)"
    by (fastforce simp: list_all_iff runtime_requirements_for_def registry_spec_or_default_def global_get_own
        Let_def find_Some_iff find_None_iff split: option.splits)
qed

text \<open>C34: The bytes hashed for the current identity of a specification determine the whole specification,
  its runtime requirement and its profile: every field is framed, so no two different rows can be
  spelled alike. The sizes must fit the 64-bit length prefixes.\<close>

theorem specification_material_unique:
  assumes "fits_spec x" "fits_requirement r" "fits_spec y" "fits_requirement r'"
    and "hash_backend_spec_v6 x r p = hash_backend_spec_v6 y r' p'"
  shows "x = y \<and> r = r' \<and> p = p'"
  using spec_v6_cancel [OF assms(1-4), of p "[]" p' "[]"] assms(5) by simp

theorem specification_material_unique_witness:
  "hash_backend_spec_v6 DEFAULT_SPEC UNKNOWN_RUNTIME_REQUIREMENT None \<noteq>
   hash_backend_spec_v6 (DEFAULT_SPEC\<lparr>spec_pure := True\<rparr>) UNKNOWN_RUNTIME_REQUIREMENT None"
proof
  assume eq: "hash_backend_spec_v6 DEFAULT_SPEC UNKNOWN_RUNTIME_REQUIREMENT None =
    hash_backend_spec_v6 (DEFAULT_SPEC\<lparr>spec_pure := True\<rparr>) UNKNOWN_RUNTIME_REQUIREMENT None"
  have fits: "fits_spec DEFAULT_SPEC" "fits_spec (DEFAULT_SPEC\<lparr>spec_pure := True\<rparr>)"
    by (simp_all add: DEFAULT_SPEC_def fits_spec_def short_def UNKNOWN_CAPABILITIES_def)
  have req: "fits_requirement UNKNOWN_RUNTIME_REQUIREMENT" using requirements_fit by simp
  from specification_material_unique [OF fits(1) req fits(2) req eq] show False
    by (simp add: DEFAULT_SPEC_def)
qed

text \<open>C33: A backend implementation identity is current exactly when it can be minted from the compiled
  catalog for its own artifact, executable set and protocol. SHA-256 spellings have 64 characters,
  and the rows of the catalog do not collide.\<close>

theorem implementation_current_iff_minted:
  assumes len: "\<And>b. length (sha256 b) = 64"
    and inj: "inj_on sha256 (specification_preimage_v6 (global sha256) ` set (BACKEND_SPECS sha256))"
  shows "contains_current_implementation (global sha256) json impl \<longleftrightarrow>
    (\<exists>backend expected. backend_implementation_id_v1 (global sha256) json backend expected
       (adapter_artifact impl) (executable_set impl) (protocol_abi impl) = Inr impl)"
    (is "?current \<longleftrightarrow> ?minted")
proof
  assume ?current
  then show ?minted by (auto simp: contains_current_implementation_def split: option.splits)
next
  assume ?minted
  then obtain backend expected where
    mint: "backend_implementation_id_v1 (global sha256) json backend expected
      (adapter_artifact impl) (executable_set impl) (protocol_abi impl) = Inr impl" by blast
  from minted_fields [OF this] obtain spec digest where
    spec: "registry_get (BACKEND_SPECS sha256) backend = Some spec"
    and digest: "specification_sha256 (global sha256) (spec_name spec) = Some digest"
      "from_sha256 digest = Inr (backend_specification impl)"
    by auto
  have mem: "spec \<in> set (BACKEND_SPECS sha256)" using registry_get_Some [OF spec] by simp
  have "find (\<lambda>s. specification_sha256 (global sha256) (spec_name s) =
      Some (as_sha256 (backend_specification impl))) (BACKEND_SPECS sha256) = Some spec"
    using mem digest from_sha256_as_sha256 [OF digest(2)]
    by (intro find_unique) (auto intro: global_digest_determines [OF len inj])
  then show ?current
    using minted_fields [OF mint] mem digest spec
    by (auto simp: contains_current_implementation_def backend_implementation_id_v1_def global_get_own
        expected_specification_error_def Let_def)
qed

definition sample_implementation :: implementation_id where
  "sample_implementation =
     (let spec = SemanticDigestV1 (name_code ''python'');
          exec_set = SemanticDigestV1 (hex_code 0) in
      \<lparr>backend_specification = spec, adapter_artifact = ''artifact'', executable_set = exec_set,
       protocol_abi = LOCAL_BACKEND_PROTOCOL_ABI_V1,
       realization_pipeline = hash_bytes sample_sha256 LOCAL_REALIZATION_DIGEST_DOMAIN_V2
         (concat (map (\<lambda>(k, v). as_bytes k @ as_bytes v)
           (realization_material spec LegacyPythonShim ''artifact'' exec_set LOCAL_BACKEND_PROTOCOL_ABI_V1)))\<rparr>)"

theorem implementation_current_iff_minted_witness:
  "contains_current_implementation (global sample_sha256) (\<lambda>m. concat (map (\<lambda>(k, v). as_bytes k @ as_bytes v) m))
     sample_implementation"
proof -
  have "registry_get (BACKEND_SPECS sample_sha256) ''py'' \<noteq> None"
    unfolding registry_get_None global_names by simp
  then obtain s where get: "registry_get (BACKEND_SPECS sample_sha256) ''py'' = Some s" by blast
  have "list_all (\<lambda>s. spec_matches s ''py'' \<longrightarrow> spec_name s = ''python'' \<and> spec_adapter s = LegacyPythonShim)
      (BACKEND_SPECS sample_sha256)"
    by (simp add: table_defs spec_matches_def)
  then have s: "registry_get (BACKEND_SPECS sample_sha256) ''py'' = Some s" "spec_name s = ''python''"
    "spec_adapter s = LegacyPythonShim"
    using registry_get_Some [OF get] get by (simp_all add: list_all_iff)
  have "registry_get (BACKEND_SPECS sample_sha256) ''python'' = Some s"
    using global_get_own registry_get_Some [OF s(1)] s(2) by metis
  then have "specification_sha256 (global sample_sha256) ''python'' = Some (name_code ''python'')"
    using s(2) by (simp add: specification_sha256_v6_def sample_sha256_preimage short_def)
  moreover have "from_sha256 (name_code ''python'') = Inr (SemanticDigestV1 (name_code ''python''))"
    by code_simp
  moreover have "validate_token ''backend protocol ABI'' LOCAL_BACKEND_PROTOCOL_ABI_V1 = Inr ()"
    by code_simp
  ultimately have "backend_implementation_id_v1 (global sample_sha256)
      (\<lambda>m. concat (map (\<lambda>(k, v). as_bytes k @ as_bytes v) m)) ''py'' None
      (adapter_artifact sample_implementation) (executable_set sample_implementation)
      (protocol_abi sample_implementation) = Inr sample_implementation"
    using s by (simp add: backend_implementation_id_v1_def sample_implementation_def Let_def
        expected_specification_error_def implementation_id_new_def)
  then show ?thesis
    using implementation_current_iff_minted [OF length_sample_sha256 sample_no_collision] by blast
qed

text \<open>C35: A digest of an archival catalog schema is never current: the schema is the first framed field of
  every identity, so with a collision-free hash no specification identity of schema V3, V4 or V5 is
  accepted by the current catalog.\<close>

theorem archival_specification_not_current:
  assumes inj: "inj_on sha256 (catalog_preimages (global sha256))"
    and digest: "digest \<in> {specification_sha256_v3 (global sha256) lang, specification_sha256_v4 (global sha256) lang,
      specification_sha256_v5 (global sha256) lang}" "digest = Some d"
  shows "\<not> contains_specification_sha256 (global sha256) d"
proof
  assume "contains_specification_sha256 (global sha256) d"
  then obtain s where s: "s \<in> set (BACKEND_SPECS sha256)" "d = sha256 (specification_preimage_v6 (global sha256) s)"
    by (auto simp: contains_specification_sha256_def list_ex_iff specification_sha256_v6_def global_get_own)
  obtain t where "registry_get (BACKEND_SPECS sha256) lang = Some t"
    using digest
    by (cases "registry_get (BACKEND_SPECS sha256) lang")
      (auto simp: specification_sha256_v3_def specification_sha256_v4_def specification_sha256_v5_def)
  then have t: "t \<in> set (BACKEND_SPECS sha256)"
    "d \<in> sha256 ` {specification_preimage_v3 (global sha256) t, specification_preimage_v4 (global sha256) t,
       specification_preimage_v5 (global sha256) t}"
    using digest registry_get_Some
    by (auto simp: specification_sha256_v3_def specification_sha256_v4_def specification_sha256_v5_def)
  have "specification_preimage_v6 (global sha256) s \<in> {specification_preimage_v3 (global sha256) t,
      specification_preimage_v4 (global sha256) t, specification_preimage_v5 (global sha256) t}"
    using s t inj_onD [OF inj, of "specification_preimage_v6 (global sha256) s"]
    by (auto simp: catalog_preimages_def)
  then show False using schemas_separate by blast
qed

theorem archival_specification_not_current_witness:
  "\<not> contains_specification_sha256 (global (map char_of_byte))
     (the (specification_sha256_v5 (global (map char_of_byte)) ''python''))"
proof -
  have "inj_on (map char_of_byte) A" for A by (metis as_bytes_map_char_of inj_onI)
  moreover have "registry_get (BACKEND_SPECS (map char_of_byte)) ''python'' \<noteq> None"
    unfolding registry_get_None global_names by simp
  ultimately show ?thesis
    by (intro archival_specification_not_current [where lang = "''python''"])
      (auto simp: specification_sha256_v5_def)
qed

text \<open>C39: The identity of an executable set does not depend on the order in which its rows are found.\<close>

theorem executable_set_order_free:
  assumes "mset rows = mset rows'"
  shows "backend_executable_set_v2 sha256 json rows = backend_executable_set_v2 sha256 json rows'"
proof -
  have "inj_on row_key (set rows)"
    by (rule inj_onI) (auto simp: row_key_def split: BackendExecutableSelectionV2.splits)
  then have "sort_key row_key rows = sort_key row_key rows'"
    using assms by (intro sort_key_inj_key_eq) simp_all
  then show ?thesis by (simp add: backend_executable_set_v2_def)
qed

theorem executable_set_order_free_witness:
  "let a = \<lparr>requirement_key = ''python'', selected_alternative = 0, selection = CompleteCatalogAlternative,
        logical_command = ''python3'', role = ''direct-launcher'', artifact = ''x''\<rparr>;
       b = a\<lparr>role := ''sandbox-wrapper''\<rparr> in
   backend_executable_set_v2 sample_sha256 (\<lambda>_. []) [a, b] = backend_executable_set_v2 sample_sha256 (\<lambda>_. []) [b, a]"
  unfolding Let_def by (rule executable_set_order_free) simp

end
