(* ===== verification/Kahn.thy ===== *)
theory Kahn
  imports Prelude
begin

text \<open>
  Indegree scheduling, the loop that \<^verbatim>\<open>crates/ostadix-api/src/ir.rs\<close> and
  \<^verbatim>\<open>crates/ostadix-api/src/hgraph/schedule.rs\<close> share: the edges of a graph over the nodes \<open>0 .. n - 1\<close>
  are counted into indegrees and grouped into successor lists, and scheduling a node decrements the
  indegree of its successors and releases those that reach zero.
\<close>

section \<open>Indegrees and successors\<close>

definition indegrees :: "nat \<Rightarrow> (nat \<times> nat) list \<Rightarrow> nat list" where
  "indegrees n E = fold (\<lambda>(u, v) d. d[v := d ! v + 1]) E (replicate n 0)"

definition successors :: "nat \<Rightarrow> (nat \<times> nat) list \<Rightarrow> nat list list" where
  "successors n E = fold (\<lambda>(u, v) s. s[u := s ! u @ [v]]) E (replicate n [])"

text \<open>
  The inner loop over the successors of a scheduled node: the new indegrees and the released nodes, in
  the order of their release. The subtraction wraps as \<open>usize\<close> does.
\<close>

fun release :: "nat list \<Rightarrow> nat list \<Rightarrow> nat list \<times> nat list" where
  "release [] d = (d, [])"
| "release (s # ss) d =
     (let d' = d[s := wrapping_pred (d ! s)]; (d'', r) = release ss d' in
      (d'', if d' ! s = 0 then s # r else r))"

section \<open>What a schedule promises\<close>

definition edges_within :: "nat \<Rightarrow> (nat \<times> nat) list \<Rightarrow> bool" where
  "edges_within n E \<longleftrightarrow> list_all (\<lambda>(u, v). u < n \<and> v < n) E"

definition preds :: "(nat \<times> nat) list \<Rightarrow> nat \<Rightarrow> nat set" where
  "preds E v = {u. (u, v) \<in> set E}"

text \<open>The nodes that may be scheduled next, once those in \<open>done\<close> are.\<close>

definition available :: "nat \<Rightarrow> (nat \<times> nat) list \<Rightarrow> nat list \<Rightarrow> nat set" where
  "available n E done = {v. v < n \<and> v \<notin> set done \<and> preds E v \<subseteq> set done}"

definition deps_first :: "(nat \<times> nat) list \<Rightarrow> nat list \<Rightarrow> bool" where
  "deps_first E ord \<longleftrightarrow> (\<forall>k < length ord. preds E (ord ! k) \<subseteq> set (take k ord))"

definition topo_order :: "nat \<Rightarrow> (nat \<times> nat) list \<Rightarrow> nat list \<Rightarrow> bool" where
  "topo_order n E ord \<longleftrightarrow> distinct ord \<and> set ord = {..<n} \<and> deps_first E ord"

section \<open>Counting\<close>

lemma length_indegrees [simp]: "length (indegrees n E) = n"
proof -
  have "length (fold (\<lambda>(u, v) d. d[v := d ! v + 1]) E d) = length d" for d :: "nat list"
    by (induction E arbitrary: d) (auto simp: case_prod_beta)
  then show ?thesis by (simp add: indegrees_def)
qed

lemma length_successors [simp]: "length (successors n E) = n"
proof -
  have "length (fold (\<lambda>(u, v) s. s[u := s ! u @ [v]]) E s) = length s" for s :: "nat list list"
    by (induction E arbitrary: s) (auto simp: case_prod_beta)
  then show ?thesis by (simp add: successors_def)
qed

lemma indegrees_nth:
  assumes "v < n" "edges_within n E"
  shows "indegrees n E ! v = length (filter (\<lambda>e. snd e = v) E)"
proof -
  have "edges_within (length d) E \<Longrightarrow> v < length d \<Longrightarrow>
      fold (\<lambda>(u, v) d. d[v := d ! v + 1]) E d ! v = d ! v + length (filter (\<lambda>e. snd e = v) E)"
    for d :: "nat list"
    by (induction E arbitrary: d) (auto simp: case_prod_beta nth_list_update edges_within_def)
  then show ?thesis using assms by (simp add: indegrees_def)
qed

lemma successors_nth:
  assumes "u < n" "edges_within n E"
  shows "successors n E ! u = map snd (filter (\<lambda>e. fst e = u) E)"
proof -
  have "edges_within (length s) E \<Longrightarrow> u < length s \<Longrightarrow>
      fold (\<lambda>(u, v) s. s[u := s ! u @ [v]]) E s ! u = s ! u @ map snd (filter (\<lambda>e. fst e = u) E)"
    for s :: "nat list list"
    by (induction E arbitrary: s) (auto simp: case_prod_beta nth_list_update edges_within_def)
  then show ?thesis using assms by (simp add: successors_def)
qed

lemma release_spec:
  assumes "\<forall>s \<in> set ss. s < length d \<and> count_list ss s \<le> d ! s" "release ss d = (d', r)"
  shows "length d' = length d \<and> (\<forall>v < length d. d' ! v = d ! v - count_list ss v) \<and>
    set r = {v \<in> set ss. d ! v = count_list ss v} \<and> distinct r"
  using assms
proof (induction ss arbitrary: d d' r)
  case Nil
  then show ?case by simp
next
  case (Cons s ss)
  let ?d = "d[s := d ! s - 1]"
  obtain r0 where rel: "release ss ?d = (d', r0)" and r: "r = (if d ! s - 1 = 0 then s # r0 else r0)"
    and s: "s < length d" "0 < d ! s"
    using Cons.prems by (auto split: prod.splits simp: Let_def)
  have "\<forall>x \<in> set ss. x < length ?d \<and> count_list ss x \<le> ?d ! x"
    using Cons.prems(1) by (auto simp: nth_list_update split: if_splits)
  from Cons.IH [OF this rel]
  have IH: "length d' = length d" "\<And>v. v < length d \<Longrightarrow> d' ! v = ?d ! v - count_list ss v"
    "set r0 = {v \<in> set ss. ?d ! v = count_list ss v}" "distinct r0"
    by auto
  have le: "Suc (count_list ss s) \<le> d ! s" using Cons.prems(1) by simp
  have "s \<in> set r0 \<longleftrightarrow> s \<in> set ss \<and> d ! s = Suc (count_list ss s)"
    using s IH(3) by auto
  moreover have "d ! s = 1 \<Longrightarrow> s \<notin> set ss"
    using le by (simp add: count_list_0_iff)
  moreover have "s \<notin> set ss \<Longrightarrow> count_list ss s = 0" by (simp add: count_list_0_iff)
  moreover have "v \<noteq> s \<Longrightarrow> v \<in> set r0 \<longleftrightarrow> v \<in> set ss \<and> d ! v = count_list ss v" for v
    using IH(3) by auto
  ultimately have "set r = {v \<in> set (s # ss). d ! v = count_list (s # ss) v} \<and> distinct r"
    using IH(4) s le unfolding r by (auto split: if_splits)
  then show ?case using IH(1,2) s by (auto simp: nth_list_update)
qed

section \<open>The scheduling invariant\<close>

text \<open>
  After scheduling \<open>done\<close>, an indegree counts the edges from nodes that are not scheduled yet, and the
  ready nodes are the available ones.
\<close>

definition open_edges :: "(nat \<times> nat) list \<Rightarrow> nat list \<Rightarrow> nat \<Rightarrow> nat" where
  "open_edges E done v = length (filter (\<lambda>e. snd e = v \<and> fst e \<notin> set done) E)"

definition kahn_inv :: "nat \<Rightarrow> (nat \<times> nat) list \<Rightarrow> nat list \<Rightarrow> nat list \<Rightarrow> nat set \<Rightarrow> bool" where
  "kahn_inv n E done d R \<longleftrightarrow> length d = n \<and> distinct done \<and> set done \<subseteq> {..<n} \<and> deps_first E done \<and>
     (\<forall>v < n. d ! v = open_edges E done v) \<and> R = available n E done"

lemma open_edges_0_iff: "open_edges E done v = 0 \<longleftrightarrow> preds E v \<subseteq> set done"
  by (auto simp: open_edges_def preds_def filter_empty_conv)

lemma available_iff:
  "v \<in> available n E done \<longleftrightarrow> v < n \<and> v \<notin> set done \<and> open_edges E done v = 0"
  by (auto simp: available_def open_edges_0_iff)

lemma finite_available [simp]: "finite (available n E done)"
  by (simp add: available_def)

lemma open_edges_snoc:
  assumes "v \<notin> set done"
  shows "open_edges E done w = open_edges E (done @ [v]) w + count_list (map snd (filter (\<lambda>e. fst e = v) E)) w"
  using assms by (induction E) (auto simp: open_edges_def)

lemma deps_first_snoc:
  "deps_first E (done @ [v]) \<longleftrightarrow> deps_first E done \<and> preds E v \<subseteq> set done"
proof -
  have "(\<forall>k < Suc (length done). P k) \<longleftrightarrow> (\<forall>k < length done. P k) \<and> P (length done)" for P
    using less_Suc_eq by auto
  then show ?thesis by (simp add: deps_first_def nth_append)
qed

lemma kahn_inv_init:
  assumes "edges_within n E"
  shows "kahn_inv n E [] (indegrees n E) {v. v < n \<and> indegrees n E ! v = 0}"
  using assms
  by (auto simp: kahn_inv_def indegrees_nth available_iff open_edges_def deps_first_def)

lemma kahn_inv_step:
  assumes inv: "kahn_inv n E done d R" and E: "edges_within n E" and v: "v \<in> R"
    and rel: "release (successors n E ! v) d = (d', r)"
  shows "kahn_inv n E (done @ [v]) d' (R - {v} \<union> set r)" "distinct r" "set r \<inter> R = {}"
proof -
  define ss where "ss = map snd (filter (\<lambda>e. fst e = v) E)"
  have v': "v < n" "v \<notin> set done" "preds E v \<subseteq> set done"
    using inv v by (auto simp: kahn_inv_def available_def)
  have rel': "release ss d = (d', r)" using rel successors_nth [OF v'(1) E] by (simp add: ss_def)
  have split: "open_edges E done w = open_edges E (done @ [v]) w + count_list ss w" for w
    unfolding ss_def by (rule open_edges_snoc [OF v'(2)])
  have d: "length d = n" "\<And>w. w < n \<Longrightarrow> d ! w = open_edges E done w"
    using inv by (auto simp: kahn_inv_def)
  have ss_n: "s < n" if "s \<in> set ss" for s
    using that E by (auto simp: ss_def edges_within_def list_all_iff)
  have bound: "\<forall>s \<in> set ss. s < length d \<and> count_list ss s \<le> d ! s"
    using ss_n d split by (metis le_add2)
  note spec = release_spec [OF bound rel']
  have open': "d' ! w = open_edges E (done @ [v]) w" if "w < n" for w
    using that spec d split [of w] by simp
  have r: "w \<in> set r \<longleftrightarrow> w < n \<and> open_edges E (done @ [v]) w = 0 \<and> open_edges E done w \<noteq> 0" for w
  proof -
    have "w \<in> set r \<longleftrightarrow> w \<in> set ss \<and> d ! w = count_list ss w" using spec by simp
    moreover have "w \<in> set ss \<longleftrightarrow> count_list ss w \<noteq> 0" by (simp add: count_list_0_iff)
    ultimately show ?thesis using ss_n [of w] d(2) [of w] split [of w] by auto
  qed
  have done_open: "open_edges E done w = 0" if w: "w \<in> set done" for w
  proof -
    obtain k where "k < length done" "w = done ! k" using w by (auto simp: in_set_conv_nth)
    then have "preds E w \<subseteq> set (take k done)" using inv by (simp add: kahn_inv_def deps_first_def)
    then show ?thesis using set_take_subset [of k "done"] by (auto simp: open_edges_0_iff)
  qed
  show "set r \<inter> R = {}" using r inv by (auto simp: kahn_inv_def available_iff)
  show "distinct r" using spec by simp
  have "R - {v} \<union> set r = available n E (done @ [v])"
  proof (rule set_eqI)
    fix w
    show "w \<in> R - {v} \<union> set r \<longleftrightarrow> w \<in> available n E (done @ [v])"
      using inv r split [of w] done_open [of w] v' open_edges_0_iff [of E "done" v]
      by (auto simp: kahn_inv_def available_iff)
  qed
  then show "kahn_inv n E (done @ [v]) d' (R - {v} \<union> set r)"
    using inv v' spec open' by (simp add: kahn_inv_def deps_first_snoc)
qed

section \<open>When no node is ready\<close>

lemma stuck_is_cycle:
  assumes "kahn_inv n E done d {}" "edges_within n E" "acyclic (set E)"
  shows "set done = {..<n}"
proof (rule ccontr)
  assume "set done \<noteq> {..<n}"
  then obtain v where v: "v \<in> {..<n} - set done" using assms(1) by (auto simp: kahn_inv_def)
  have "wf (set E)" using assms(3) by (simp add: finite_acyclic_wf)
  then obtain z where z: "z \<in> {..<n} - set done" "\<And>y. (y, z) \<in> set E \<Longrightarrow> y \<notin> {..<n} - set done"
    using v by (rule wfE_min) blast
  have "preds E z \<subseteq> set done"
    using z assms(2) by (force simp: preds_def edges_within_def list_all_iff)
  then show False using z(1) assms(1) by (auto simp: kahn_inv_def available_def)
qed

lemma deps_first_acyclic:
  assumes "topo_order n E ord" "edges_within n E"
  shows "acyclic (set E)"
proof -
  define pos where "pos v = (LEAST k. k < length ord \<and> ord ! k = v)" for v
  have pos: "pos v < length ord \<and> ord ! pos v = v" if "v < n" for v
  proof -
    have "\<exists>k. k < length ord \<and> ord ! k = v"
      using that assms(1) by (auto simp: topo_order_def in_set_conv_nth dest: equalityD2)
    then show ?thesis unfolding pos_def by (rule LeastI_ex)
  qed
  have "(u, v) \<in> measure pos" if "(u, v) \<in> set E" for u v
  proof -
    have n: "u < n" "v < n" using that assms(2) by (auto simp: edges_within_def list_all_iff)
    then have "preds E (ord ! pos v) \<subseteq> set (take (pos v) ord)"
      using pos [of v] assms(1) unfolding topo_order_def deps_first_def by blast
    then have "u \<in> set (take (pos v) ord)" using that pos [OF n(2)] by (auto simp: preds_def)
    then obtain k where k: "k < pos v" "ord ! k = u" by (auto simp: in_set_conv_nth)
    then have "pos u = k"
      using pos [OF n(1)] pos [OF n(2)] assms(1) nth_eq_iff_index_eq [of ord "pos u" k]
      by (auto simp: topo_order_def)
    then show ?thesis using k by simp
  qed
  then have "set E \<subseteq> measure pos" by auto
  then show ?thesis by (rule wf_acyclic [OF wf_subset [OF wf_measure]])
qed

end
