(* ===== verification/Rust_Str.thy ===== *)
theory Rust_Str
  imports Syntax
begin

text \<open>
  The string operations of the Rust standard library that the intermediate representation uses, over
  UTF-8 byte strings: \<open>trim_start\<close>, \<open>trim_end\<close> and \<open>trim\<close> for the Unicode white space characters, the
  split into characters, and \<open>split_once\<close>. Unicode's Alphabetic and Numeric tables are the parameter
  \<open>uni\<close> of the definitions that ask for them.
\<close>

section \<open>White space\<close>

definition whitespace_prefix :: "string \<Rightarrow> nat option" where
  "whitespace_prefix s =
     map_option length (find (\<lambda>w. take (length w) (map char_code s) = w) whitespace_encodings)"

definition whitespace_suffix :: "string \<Rightarrow> nat option" where
  "whitespace_suffix s =
     map_option length (find (\<lambda>w. length w \<le> length s \<and> drop (length s - length w) (map char_code s) = w)
       whitespace_encodings)"

lemma whitespace_encodings_nonempty: "w \<in> set whitespace_encodings \<Longrightarrow> 0 < length w"
  by (auto simp: whitespace_encodings_def)

lemma find_SomeD: "find P xs = Some x \<Longrightarrow> x \<in> set xs \<and> P x"
  by (auto simp: find_Some_iff)

lemma whitespace_prefix_pos: "whitespace_prefix s = Some k \<Longrightarrow> 0 < k \<and> k \<le> length s"
proof -
  assume "whitespace_prefix s = Some k"
  then obtain w where w: "w \<in> set whitespace_encodings" "take (length w) (map char_code s) = w" "k = length w"
    unfolding whitespace_prefix_def map_option_eq_Some by (blast dest: find_SomeD)
  have "length w \<le> length s" using arg_cong [OF w(2), of length] by simp
  then show ?thesis using whitespace_encodings_nonempty [OF w(1)] w(3) by simp
qed

lemma whitespace_suffix_pos: "whitespace_suffix s = Some k \<Longrightarrow> 0 < k \<and> k \<le> length s"
  unfolding whitespace_suffix_def map_option_eq_Some
  by (blast dest: find_SomeD whitespace_encodings_nonempty)

function trim_start :: "string \<Rightarrow> string" where
  "trim_start s = (case whitespace_prefix s of None \<Rightarrow> s | Some k \<Rightarrow> trim_start (drop k s))"
  by pat_completeness auto

termination trim_start
  by (relation "measure length") (auto dest: whitespace_prefix_pos)

function trim_end :: "string \<Rightarrow> string" where
  "trim_end s = (case whitespace_suffix s of None \<Rightarrow> s | Some k \<Rightarrow> trim_end (take (length s - k) s))"
  by pat_completeness auto

termination trim_end
  by (relation "measure length") (auto dest: whitespace_suffix_pos)

declare trim_start.simps [simp del] trim_end.simps [simp del]

definition trim_str :: "string \<Rightarrow> string" where
  "trim_str s = trim_end (trim_start s)"

section \<open>Characters\<close>

text \<open>The characters of a string, each as its encoding; a lead byte says how many bytes follow.\<close>

function str_chars :: "string \<Rightarrow> string list" where
  "str_chars [] = []"
| "str_chars (c # cs) = take (utf8_len c) (c # cs) # str_chars (drop (utf8_len c) (c # cs))"
  by pat_completeness auto

termination str_chars
proof (relation "measure length")
  fix c :: char and cs :: string
  show "(drop (utf8_len c) (c # cs), c # cs) \<in> measure length" using utf8_len_pos [of c] by simp
qed simp

declare str_chars.simps [simp del]

definition is_whitespace_char :: "string \<Rightarrow> bool" where
  "is_whitespace_char ch \<longleftrightarrow> map char_code ch \<in> set whitespace_encodings"

text \<open>\<open>char::is_alphanumeric\<close>: the ASCII letters and digits, and \<open>uni\<close> beyond ASCII.\<close>

definition is_alphanumeric_char :: "(string \<Rightarrow> bool) \<Rightarrow> string \<Rightarrow> bool" where
  "is_alphanumeric_char uni ch =
     (case ch of [c] \<Rightarrow> is_ascii_alphabetic c \<or> is_digit c | _ \<Rightarrow> uni ch)"

section \<open>Splitting\<close>

text \<open>\<open>split_once(sep)\<close>, the part after the separator.\<close>

definition after_first :: "char \<Rightarrow> string \<Rightarrow> string option" where
  "after_first sep s = (if sep \<in> set s then Some (tl (dropWhile (\<lambda>c. c \<noteq> sep) s)) else None)"

lemma concat_str_chars: "concat (str_chars s) = s"
proof (induction s rule: str_chars.induct)
  case (2 c cs)
  then show ?case by (subst str_chars.simps) simp
qed (simp add: str_chars.simps)

end
