(* ===== verification/Plan.thy ===== *)
theory Plan
  imports Kahn Rust_Str
begin

text \<open>
  Execution plans, the second half of \<^verbatim>\<open>crates/ostadix-api/src/ir.rs\<close>: plan nodes and edges, validation, the
  stable topological order, the root and child schedules, and the per-pass index over a validated
  plan. A \<open>PlanNodeId\<close> is the number it wraps.
\<close>

section \<open>Vocabulary\<close>

datatype GroupMode = BatchMode | AllMode | AnyMode | RaceMode

fun group_mode_name :: "GroupMode \<Rightarrow> string" where
  "group_mode_name BatchMode = ''batch''"
| "group_mode_name AllMode = ''all''"
| "group_mode_name AnyMode = ''any''"
| "group_mode_name RaceMode = ''race''"

datatype InvokeMode = Eager | Lazy | Autonomous | Group GroupMode

definition invoke_mode_for_name :: "string \<Rightarrow> InvokeMode" where
  "invoke_mode_for_name name =
     (if name = ''lazy'' then Lazy
      else if name = ''autonomous'' then Autonomous
      else if name = ''batch'' then Group BatchMode
      else if name = ''all'' then Group AllMode
      else if name = ''any'' then Group AnyMode
      else if name = ''race'' then Group RaceMode
      else Eager)"

datatype PlanEdgeKind = Structural | Sequence | Data

datatype PlanNodeClass = Pure | Effect | Control

datatype CachePolicy = Memoize | Bypass

fun cacheable :: "CachePolicy \<Rightarrow> bool" where
  "cacheable Memoize = True"
| "cacheable Bypass = False"

datatype PlanRequestKind = Instantiate | Realise | DryActivate | Activate

fun cache_policy :: "PlanRequestKind \<Rightarrow> CachePolicy" where
  "cache_policy Instantiate = Memoize"
| "cache_policy Realise = Memoize"
| "cache_policy DryActivate = Bypass"
| "cache_policy Activate = Bypass"

datatype PlanScheduleKind = Force | LazySchedule | AutonomousSchedule

record plan_edge =
  edge_from :: nat
  edge_to :: nat
  edge_kind :: PlanEdgeKind

datatype PlanNodeKind =
    TextNode
  | LoadNode string
  | StoreNode string
  | NativeI64Node "string option" nat
  | CallNode string InvokeMode nat
  | RequestNode string PlanRequestKind nat
  | GroupNode GroupMode nat
  | ScheduleNode string PlanScheduleKind nat
  | ExecNode string u32 "string option" backend_interface

record plan_node =
  node_id :: nat
  node_kind :: PlanNodeKind

record execution_plan =
  roots :: "nat list"
  nodes :: "plan_node list"
  edges :: "plan_edge list"

text \<open>Errors of plan operations; \<open>PlanPanic\<close> is an index out of range in an unvalidated plan.\<close>

datatype plan_error =
    RootCount nat nat
  | NodeIdentity nat nat
  | RootOutOfBounds nat
  | RootDuplicated nat
  | EdgeOutOfBounds nat nat
  | DependencyCycle
  | UnscheduledRoot
  | ParentOutOfBounds nat
  | PlanPanic

section \<open>Orders and schedules\<close>

definition edge_pairs :: "execution_plan \<Rightarrow> (nat \<times> nat) list" where
  "edge_pairs plan = map (\<lambda>e. (edge_from e, edge_to e)) (edges plan)"

text \<open>
  The loop of \<open>topological_order\<close>. The ready set is the ascending list of its members; every node is
  scheduled at most once, so the number of nodes bounds the iterations.
\<close>

fun order_loop :: "nat \<Rightarrow> nat list list \<Rightarrow> nat list \<Rightarrow> nat list \<Rightarrow> nat list \<Rightarrow> nat list" where
  "order_loop 0 succs indegree ready order = order"
| "order_loop (Suc fuel) succs indegree ready order =
     (case ready of
        [] \<Rightarrow> order
      | v # rest \<Rightarrow>
        let (indegree', released) = release (succs ! v) indegree in
        order_loop fuel succs indegree' (fold insort_insert released rest) (order @ [v]))"

definition topological_order :: "execution_plan \<Rightarrow> plan_error + nat list" where
  "topological_order plan =
     (let n = length (nodes plan); E = edge_pairs plan in
      if \<not> edges_within n E then Inl PlanPanic
      else let indegree = indegrees n E;
               ready = filter (\<lambda>v. indegree ! v = 0) [0..<n];
               order = order_loop n (successors n E) indegree ready [] in
        if length order \<noteq> n then Inl DependencyCycle else Inr order)"

text \<open>The position of a root; a later duplicate replaces an earlier one in the map.\<close>

definition root_position :: "nat list \<Rightarrow> nat \<Rightarrow> nat option" where
  "root_position rs v = map_of (rev (zip rs [0..<length rs])) v"

definition root_schedule :: "execution_plan \<Rightarrow> plan_error + nat list" where
  "root_schedule plan =
     and_then (topological_order plan) (\<lambda>order.
       let schedule = List.map_filter (root_position (roots plan)) order in
       if length schedule \<noteq> length (roots plan) then Inl UnscheduledRoot else Inr schedule)"

definition child_schedule :: "execution_plan \<Rightarrow> nat \<Rightarrow> plan_error + nat list" where
  "child_schedule plan parent =
     (if parent \<ge> length (nodes plan) then Inl (ParentOutOfBounds parent)
      else let children = set (map edge_from (filter (\<lambda>e. edge_kind e = Structural \<and> edge_to e = parent) (edges plan))) in
        and_then (topological_order plan) (\<lambda>order. Inr (filter (\<lambda>v. v \<in> children) order)))"

section \<open>Validation\<close>

fun check_node_ids :: "nat \<Rightarrow> plan_node list \<Rightarrow> plan_error + unit" where
  "check_node_ids index [] = Inr ()"
| "check_node_ids index (n # ns) =
     (if node_id n \<noteq> index then Inl (NodeIdentity index (node_id n)) else check_node_ids (Suc index) ns)"

fun check_roots :: "nat \<Rightarrow> nat set \<Rightarrow> nat list \<Rightarrow> plan_error + unit" where
  "check_roots n seen [] = Inr ()"
| "check_roots n seen (r # rs) =
     (if r \<ge> n then Inl (RootOutOfBounds r)
      else if r \<in> seen then Inl (RootDuplicated r)
      else check_roots n (insert r seen) rs)"

fun check_edges :: "nat \<Rightarrow> plan_edge list \<Rightarrow> plan_error + unit" where
  "check_edges n [] = Inr ()"
| "check_edges n (e # es) =
     (if edge_from e \<ge> n \<or> edge_to e \<ge> n then Inl (EdgeOutOfBounds (edge_from e) (edge_to e))
      else check_edges n es)"

definition validate :: "execution_plan \<Rightarrow> nat \<Rightarrow> plan_error + unit" where
  "validate plan root_count =
     (if length (roots plan) \<noteq> root_count then Inl (RootCount (length (roots plan)) root_count)
      else and_then (check_node_ids 0 (nodes plan)) (\<lambda>_.
        and_then (check_roots (length (nodes plan)) {} (roots plan)) (\<lambda>_.
        and_then (check_edges (length (nodes plan)) (edges plan)) (\<lambda>_.
        and_then (topological_order plan) (\<lambda>_.
        and_then (root_schedule plan) (\<lambda>_. Inr ()))))))"

section \<open>The index of a validated plan\<close>

record plan_index =
  incoming :: "plan_edge list list"
  outgoing :: "plan_edge list list"
  index_order :: "nat list"
  children :: "nat list list"

text \<open>One structural edge of a child: the child is appended unless it was the last one appended.\<close>

definition push_child :: "nat \<Rightarrow> plan_edge \<Rightarrow> nat list list \<Rightarrow> nat list list" where
  "push_child child e cs =
     (if edge_kind e = Structural \<and> \<not> (cs ! edge_to e \<noteq> [] \<and> last (cs ! edge_to e) = child)
      then cs[edge_to e := cs ! edge_to e @ [child]] else cs)"

definition index_new :: "execution_plan \<Rightarrow> plan_error + plan_index" where
  "index_new plan =
     and_then (validate plan (length (roots plan))) (\<lambda>_.
     and_then (topological_order plan) (\<lambda>ord.
       let n = length (nodes plan);
           inc = fold (\<lambda>e t. t[edge_to e := t ! edge_to e @ [e]]) (edges plan) (replicate n []);
           out = fold (\<lambda>e t. t[edge_from e := t ! edge_from e @ [e]]) (edges plan) (replicate n []);
           cs = fold (\<lambda>child cs. fold (push_child child) (out ! child) cs) ord (replicate n []) in
       Inr \<lparr>incoming = inc, outgoing = out, index_order = ord, children = cs\<rparr>))"

definition index_child_schedule :: "plan_index \<Rightarrow> nat \<Rightarrow> plan_error + nat list" where
  "index_child_schedule idx parent =
     (if parent < length (children idx) then Inr (children idx ! parent) else Inl (ParentOutOfBounds parent))"

section \<open>Classification of nodes\<close>

text \<open>The last \<open>lazy\<close> or \<open>defer\<close> entry of an attribute list decides.\<close>

definition parse_eval_cache_policy :: "string option \<Rightarrow> CachePolicy option" where
  "parse_eval_cache_policy attr =
     (case attr of
        None \<Rightarrow> None
      | Some a \<Rightarrow>
        fold (\<lambda>entry policy.
          if trim_str entry = ''lazy'' then Some Memoize
          else if trim_str entry = ''defer'' then Some Bypass else policy)
          (split_on (CHR '','') a) None)"

fun eval_cache_policy :: "PlanNodeKind \<Rightarrow> CachePolicy option" where
  "eval_cache_policy (ExecNode lang env_id attr backend) = parse_eval_cache_policy attr"
| "eval_cache_policy (RequestNode fn_name kind arg_count) = Some (cache_policy kind)"
| "eval_cache_policy _ = None"

fun plan_node_class :: "PlanNodeKind \<Rightarrow> PlanNodeClass" where
  "plan_node_class TextNode = Pure"
| "plan_node_class (LoadNode _) = Pure"
| "plan_node_class (StoreNode _) = Pure"
| "plan_node_class (CallNode _ _ _) = Pure"
| "plan_node_class (NativeI64Node _ _) = Pure"
| "plan_node_class (ExecNode lang env_id attr backend) =
     (if eval_cache_policy (ExecNode lang env_id attr backend) \<noteq> None then Control else Effect)"
| "plan_node_class (RequestNode _ _ _) = Control"
| "plan_node_class (GroupNode _ _) = Control"
| "plan_node_class (ScheduleNode _ _ _) = Control"

fun is_plain_bash_exec :: "PlanNodeKind \<Rightarrow> bool" where
  "is_plain_bash_exec (ExecNode lang env_id attr backend) =
     (bi_canonical backend = ''bash'' \<and> bi_execution backend = Shim \<and> env_id > MAX_PERSISTENT_ENV_ID)"
| "is_plain_bash_exec _ = False"

section \<open>The textual form\<close>

fun invoke_mode_label :: "InvokeMode \<Rightarrow> string" where
  "invoke_mode_label Eager = ''eager''"
| "invoke_mode_label Lazy = ''lazy''"
| "invoke_mode_label Autonomous = ''autonomous''"
| "invoke_mode_label (Group mode) = ''group:'' @ group_mode_name mode"

fun request_kind_label :: "PlanRequestKind \<Rightarrow> string" where
  "request_kind_label Instantiate = ''instantiate''"
| "request_kind_label Realise = ''realise''"
| "request_kind_label DryActivate = ''dry_activate''"
| "request_kind_label Activate = ''activate''"

fun schedule_kind_label :: "PlanScheduleKind \<Rightarrow> string" where
  "schedule_kind_label Force = ''force''"
| "schedule_kind_label LazySchedule = ''lazy''"
| "schedule_kind_label AutonomousSchedule = ''autonomous''"

fun edge_kind_label :: "PlanEdgeKind \<Rightarrow> string" where
  "edge_kind_label Structural = ''structural''"
| "edge_kind_label Sequence = ''sequence''"
| "edge_kind_label Data = ''data''"

fun renderer_debug :: "SpliceRenderer \<Rightarrow> string" where
  "renderer_debug PythonRenderer = ''Python''"
| "renderer_debug HtmlRenderer = ''Html''"
| "renderer_debug LatexRenderer = ''Latex''"
| "renderer_debug MarkdownRenderer = ''Markdown''"
| "renderer_debug NixRenderer = ''Nix''"
| "renderer_debug DefaultRenderer = ''Default''"

fun environment_text :: "EnvironmentRefV2 \<Rightarrow> string" where
  "environment_text Ephemeral = ''ephemeral''"
| "environment_text LinkerIsolated = ''*''"
| "environment_text (Persistent i) = show_nat (unat i)"

fun describe :: "(bytes \<Rightarrow> string) \<Rightarrow> PlanNodeKind \<Rightarrow> string" where
  "describe sha256 TextNode = ''text''"
| "describe sha256 (LoadNode name) = ''load $'' @ name"
| "describe sha256 (StoreNode name) = ''store $'' @ name"
| "describe sha256 (NativeI64Node descriptor argument_count) =
     ''native-i64/'' @ show_nat argument_count @ '' descriptor='' @
     (case descriptor of Some t \<Rightarrow> sha256 (as_bytes t) | None \<Rightarrow> ''invalid-static-descriptor'')"
| "describe sha256 (CallNode fn_name mode arg_count) =
     ''call '' @ fn_name @ ''/'' @ show_nat arg_count @ '' ['' @ invoke_mode_label mode @ '']''"
| "describe sha256 (RequestNode fn_name kind arg_count) =
     ''request '' @ fn_name @ ''/'' @ show_nat arg_count @ '' ['' @ request_kind_label kind @ '']''"
| "describe sha256 (GroupNode mode member_count) =
     ''group '' @ group_mode_name mode @ ''/'' @ show_nat member_count"
| "describe sha256 (ScheduleNode fn_name kind arg_count) =
     ''schedule '' @ fn_name @ ''/'' @ show_nat arg_count @ '' ['' @ schedule_kind_label kind @ '']''"
| "describe sha256 (ExecNode lang env_id attr backend) =
     ''exec '' @ lang @ '' [env '' @ environment_text (from_encoded env_id) @ '']'' @
     (case attr of None \<Rightarrow> [] | Some a \<Rightarrow> '' {'' @ a @ ''}'') @
     '' backend='' @ bi_canonical backend @
     '' spec='' @ (case bi_specification_sha256 backend of Some d \<Rightarrow> d | None \<Rightarrow> ''unknown'') @
     '' pure='' @ (if bi_pure backend then ''true'' else ''false'') @
     '' renderer='' @ renderer_debug (bi_renderer backend) @
     '' execution='' @ execution_label (bi_execution backend) @
     '' required=['' @ join_comma (map authority_name (bi_required_authorities backend)) @ '']''"

fun join_comma_space :: "string list \<Rightarrow> string" where
  "join_comma_space [] = []"
| "join_comma_space [s] = s"
| "join_comma_space (s # t # ss) = s @ '', '' @ join_comma_space (t # ss)"

definition plan_to_text :: "(bytes \<Rightarrow> string) \<Rightarrow> execution_plan \<Rightarrow> string" where
  "plan_to_text sha256 plan =
     ''; ExecutionPlan'' @ [newline] @
     (if roots plan = [] then [] else ''roots ['' @ join_comma_space (map show_nat (roots plan)) @ '']'' @ [newline]) @
     concat (map (\<lambda>n. ''node '' @ show_nat (node_id n) @ '' '' @ describe sha256 (node_kind n) @ [newline]) (nodes plan)) @
     concat (map (\<lambda>e. ''edge '' @ show_nat (edge_from e) @ '' -> '' @ show_nat (edge_to e) @ '' '' @
       edge_kind_label (edge_kind e) @ [newline]) (edges plan))"

end
