(* ===== verification/Oir.thy ===== *)
theory Oir
  imports Plan Parser_Origins
begin

text \<open>
  The intermediate representation, the first half of \<^verbatim>\<open>crates/ostadix-api/src/ir.rs\<close>: instructions, lowering of
  syntax nodes with the backend interface of the catalog, the executable preorder, native leaf
  descriptors, and source reconstruction. Lowering and planning are total functions on syntax.
\<close>

section \<open>Instructions\<close>

datatype NativeLeafKind = OcoreI64

fun builtin_name :: "NativeLeafKind \<Rightarrow> string" where
  "builtin_name OcoreI64 = NATIVE_LEAF_BUILTIN"

datatype NativeLeafInterface = ScalarI64AcyclicV1 nat

fun parameter_count :: "NativeLeafInterface \<Rightarrow> nat" where
  "parameter_count (ScalarI64AcyclicV1 n) = n"

record native_leaf_provenance =
  descriptor_sha256 :: "string option"

datatype OIr =
    Text string
  | Load string
  | Store string OIr
  | Invoke string InvokeMode "OIr list"
  | NativeLeaf NativeLeafKind NativeLeafInterface native_leaf_provenance "string option" "OIr list"
  | Exec string u32 "string option" backend_interface "OIr list"

text \<open>The literal text of a first argument that is an attribute-free block of the pure text backend.\<close>

definition extract_static_text_descriptor :: "OIr list \<Rightarrow> string option" where
  "extract_static_text_descriptor args =
     (case args of
        Exec _ _ None backend body # _ \<Rightarrow>
          if bi_canonical backend = ''text'' \<and> bi_pure backend
          then (case body of [Text t] \<Rightarrow> Some t | _ \<Rightarrow> None) else None
      | _ \<Rightarrow> None)"

definition native_leaf_source_descriptor :: "(bytes \<Rightarrow> string) \<Rightarrow> OIr \<Rightarrow> string option" where
  "native_leaf_source_descriptor sha256 oir =
     (case oir of
        NativeLeaf OcoreI64 (ScalarI64AcyclicV1 n) provenance (Some descriptor) args \<Rightarrow>
          if n \<noteq> length args - 1 then None
          else (case extract_static_text_descriptor args of
              None \<Rightarrow> None
            | Some arg_text \<Rightarrow>
              if arg_text \<noteq> descriptor then None
              else if descriptor_sha256 provenance \<noteq> Some (sha256 (as_bytes descriptor)) then None
              else Some descriptor)
      | _ \<Rightarrow> None)"

definition native_leaf_source_descriptor_sha256 :: "(bytes \<Rightarrow> string) \<Rightarrow> OIr \<Rightarrow> string option" where
  "native_leaf_source_descriptor_sha256 sha256 oir =
     (case native_leaf_source_descriptor sha256 oir of
        None \<Rightarrow> None
      | Some _ \<Rightarrow> (case oir of NativeLeaf _ _ provenance _ _ \<Rightarrow> descriptor_sha256 provenance | _ \<Rightarrow> None))"

section \<open>Lowering\<close>

fun lower_node :: "catalog \<Rightarrow> ONode \<Rightarrow> OIr" where
  "lower_node C (RawText s) = Text s"
| "lower_node C (VarRef name) = Load name"
| "lower_node C (LetBinding name expr) = Store name (lower_node C expr)"
| "lower_node C (Call fn_name args) =
     (let lowered_args = map (lower_node C) args in
      if fn_name = NATIVE_LEAF_BUILTIN then
        let descriptor = extract_static_text_descriptor lowered_args in
        NativeLeaf OcoreI64 (ScalarI64AcyclicV1 (length lowered_args - 1))
          \<lparr>descriptor_sha256 = map_option (\<lambda>t. cat_sha256 C (as_bytes t)) descriptor\<rparr> descriptor lowered_args
      else Invoke fn_name (invoke_mode_for_name fn_name) lowered_args)"
| "lower_node C (TypedExpr lang env_id attr body) =
     Exec lang env_id attr (interface_for C lang) (map (lower_node C) body)"

definition lower :: "catalog \<Rightarrow> ONode list \<Rightarrow> OIr list" where
  "lower C ns = map (lower_node C) ns"

section \<open>The executable preorder\<close>

fun is_quote_exec :: "OIr \<Rightarrow> bool" where
  "is_quote_exec (Exec _ _ _ backend _) = (bi_execution backend = InlineAst \<and> bi_canonical backend = ''quote'')"
| "is_quote_exec _ = False"

fun flatten_node_for_plan :: "OIr \<Rightarrow> OIr list" where
  "flatten_node_for_plan (Text s) = [Text s]"
| "flatten_node_for_plan (Load name) = [Load name]"
| "flatten_node_for_plan (Store name expr) = Store name expr # flatten_node_for_plan expr"
| "flatten_node_for_plan (Invoke fn_name mode args) =
     Invoke fn_name mode args # concat (map flatten_node_for_plan args)"
| "flatten_node_for_plan (NativeLeaf kind interface provenance descriptor args) =
     NativeLeaf kind interface provenance descriptor args # concat (map flatten_node_for_plan args)"
| "flatten_node_for_plan (Exec lang env_id attr backend body) =
     Exec lang env_id attr backend body #
     (if is_quote_exec (Exec lang env_id attr backend body) then []
      else concat (map flatten_node_for_plan body))"

definition flatten_for_plan :: "OIr list \<Rightarrow> OIr list" where
  "flatten_for_plan ns = concat (map flatten_node_for_plan ns)"

section \<open>Source reconstruction\<close>

fun oir_reconstruct_node :: "OIr \<Rightarrow> string" where
  "oir_reconstruct_node (Text t) = t"
| "oir_reconstruct_node (Load name) = ''$'' @ name"
| "oir_reconstruct_node (Store name expr) = ''let '' @ name @ '' = '' @ oir_reconstruct_node expr"
| "oir_reconstruct_node (Invoke fn_name mode args) =
     fn_name @ ''('' @ join_args (map oir_reconstruct_node args) @ '')''"
| "oir_reconstruct_node (NativeLeaf kind interface provenance descriptor args) =
     builtin_name kind @ ''('' @ join_args (map oir_reconstruct_node args) @ '')''"
| "oir_reconstruct_node (Exec lang env_id attr backend body) =
     tag_text lang env_id attr @ ''^('' @ concat (map oir_reconstruct_node body) @ '')_'' @ tag_text lang env_id attr"

definition oir_reconstruct_source :: "OIr list \<Rightarrow> string" where
  "oir_reconstruct_source ns = concat (map oir_reconstruct_node ns)"

section \<open>Laws\<close>

lemma is_quote_lower:
  "is_quote_exec (lower_node C (TypedExpr lang env_id attr body)) \<longleftrightarrow>
     owns_quoted_syntax (hash_set_dialect tags (cat_specs C)) lang"
  by (simp add: hash_set_dialect_def interface_for_def registry_execution_def Let_def)

lemma flatten_lower_node:
  "flatten_node_for_plan (lower_node C n) =
     map (lower_node C) (plan_preorder (hash_set_dialect tags (cat_specs C)) n)"
proof (induction n)
  case (TypedExpr lang env_id attr body)
  then have "concat (map (flatten_node_for_plan \<circ> lower_node C) body) =
      map (lower_node C) (concat (map (plan_preorder (hash_set_dialect tags (cat_specs C))) body))"
    by (induction body) auto
  then show ?case
    using is_quote_lower [of C lang env_id attr body tags] by simp
next
  case (Call fn_name args)
  then have "concat (map (flatten_node_for_plan \<circ> lower_node C) args) =
      map (lower_node C) (concat (map (plan_preorder (hash_set_dialect tags (cat_specs C))) args))"
    by (induction args) auto
  then show ?case by (simp add: Let_def)
qed simp_all

lemma reconstruct_lower_node: "oir_reconstruct_node (lower_node C n) = reconstruct_node n"
proof (induction n)
  case (TypedExpr lang env_id attr body)
  then have eq: "map (oir_reconstruct_node \<circ> lower_node C) body = map reconstruct_node body" by simp
  show ?case by (simp add: eq)
next
  case (Call fn_name args)
  then have eq: "map (oir_reconstruct_node \<circ> lower_node C) args = map reconstruct_node args" by simp
  show ?case by (simp add: Let_def eq)
qed simp_all

lemma flatten_lower_nodes:
  "flatten_for_plan (lower C ns) =
     map (lower_node C) (plan_preorders (hash_set_dialect tags (cat_specs C)) ns)"
  by (induction ns) (simp_all add: flatten_for_plan_def lower_def flatten_lower_node [of C _ tags])

section \<open>Properties\<close>

text \<open>C38: The executable preorder of a lowered document lists the lowered syntax nodes in the order in which
  the parser records their origins, for the dialect of the same catalog.\<close>

theorem flatten_lower:
  "flatten_for_plan (lower C ns) =
     map (lower_node C) (plan_preorders (hash_set_dialect tags (cat_specs C)) ns)"
  by (rule flatten_lower_nodes)

text \<open>C27: Reconstructing source from the lowered instructions gives the source reconstructed from the
  syntax nodes, native leaf calls included.\<close>

theorem reconstruct_lower: "oir_reconstruct_source (lower C ns) = reconstruct_source ns"
  by (simp add: oir_reconstruct_source_def lower_def reconstruct_source_def reconstruct_lower_node o_def)

text \<open>The static descriptor that lowering freezes into a native leaf is always confirmed when the plan
  asks for it again: the leaf qualifies exactly when its first argument is a literal text block.\<close>

theorem lowered_native_leaf_descriptor:
  "native_leaf_source_descriptor (cat_sha256 C) (lower_node C (Call NATIVE_LEAF_BUILTIN args)) =
     extract_static_text_descriptor (map (lower_node C) args)"
  by (auto simp: native_leaf_source_descriptor_def Let_def split: option.splits)

end
