(* ===== verification/Plan_Refs.thy ===== *)
theory Plan_Refs
  imports Oir
begin

text \<open>
  References of a block, \<^verbatim>\<open>crates/ostadix-api/src/ir.rs\<close>: the identifier tokens of a body, the names that a bash
  body reads through braced expansion or in arithmetic context, and the bash special names. Texts are
  byte strings; Unicode's alphanumeric characters beyond ASCII are the parameter \<open>uni\<close>.
\<close>

section \<open>Identifier tokens\<close>

definition SHELL_BACKENDS :: "string list" where
  "SHELL_BACKENDS = [''bash'', ''shell'', ''sh'']"

definition SHELL_RECEIVES_REFERENCED_LETS :: bool where
  "SHELL_RECEIVES_REFERENCED_LETS = False"

definition REFLECTION_FULL_SCOPE_FALLBACK :: bool where
  "REFLECTION_FULL_SCOPE_FALLBACK = False"

definition REFLECTIVE_TOKENS :: "string list" where
  "REFLECTIVE_TOKENS =
     [
      ''globals'', ''locals'', ''vars'', ''eval'', ''exec'', ''compile'', ''__dict__'',
      ''__builtins__'', ''__import__'', ''importlib'', ''inspect'', ''currentframe'', ''_getframe'',
      ''f_locals'', ''f_globals'', ''f_back'', ''tb_frame'', ''gi_frame'', ''getattr'',
      ''__getattribute__'', ''modules'', ''environ'', ''globalThis'', ''Function'', ''process'',
      ''require'', ''__filename'', ''__dirname'', ''readFileSync'']"

definition REFLECTIVE_ACCESSORS :: "(string \<times> char list) list" where
  "REFLECTIVE_ACCESSORS = [(''O'', ''.[''), (''this'', ''[''), (''import'', ''('')]"

definition is_identifier_char :: "(string \<Rightarrow> bool) \<Rightarrow> string \<Rightarrow> bool" where
  "is_identifier_char uni c \<longleftrightarrow> is_alphanumeric_char uni c \<or> c = ''_''"

text \<open>What a scan collects: the tokens, whether \<open>O.scope\<close> is read, and whether a token is reflective.\<close>

type_synonym references = "string set \<times> bool \<times> bool"

definition no_references :: references where
  "no_references = ({}, False, False)"

definition join_references :: "references \<Rightarrow> references \<Rightarrow> references" where
  "join_references r s = (fst r \<union> fst s, fst (snd r) \<or> fst (snd s), snd (snd r) \<or> snd (snd s))"

definition reflective_token :: "string \<Rightarrow> string \<Rightarrow> bool" where
  "reflective_token token after =
     (token \<in> set REFLECTIVE_TOKENS \<or>
      list_ex (\<lambda>(name, follow). name = token \<and>
        (case trim_start after of [] \<Rightarrow> False | c # _ \<Rightarrow> c \<in> set follow)) REFLECTIVE_ACCESSORS)"

lemma token_progress:
  "dropWhile (\<lambda>c. \<not> f c) xs \<noteq> [] \<Longrightarrow> length (dropWhile f (dropWhile (\<lambda>c. \<not> f c) xs)) < length xs"
  by (induction xs) (auto simp: length_dropWhile_le less_Suc_eq_le)

function scan_exec_chars :: "(string \<Rightarrow> bool) \<Rightarrow> string option \<Rightarrow> string list \<Rightarrow> references" where
  "scan_exec_chars uni previous rest =
     (let gap = takeWhile (\<lambda>c. \<not> is_identifier_char uni c) rest;
          after_start = dropWhile (\<lambda>c. \<not> is_identifier_char uni c) rest in
      if after_start = [] then no_references
      else let token = concat (takeWhile (is_identifier_char uni) after_start);
               next_rest = dropWhile (is_identifier_char uni) after_start;
               after = concat next_rest;
               o_scope = (token = ''scope'' \<and> previous = Some ''O'' \<and>
                 (case rev (trim_end (concat gap)) of [] \<Rightarrow> False | c # _ \<Rightarrow> c = CHR ''.''));
               previous' = (case trim_start after of [] \<Rightarrow> None | c # _ \<Rightarrow> if c = CHR ''.'' then Some token else None) in
        join_references ({token}, o_scope, reflective_token token after) (scan_exec_chars uni previous' next_rest))"
  by pat_completeness auto

termination scan_exec_chars
  by (relation "measure (\<lambda>(uni, previous, rest). length rest)") (auto intro: token_progress)

declare scan_exec_chars.simps [simp del]

definition scan_exec_text :: "(string \<Rightarrow> bool) \<Rightarrow> string \<Rightarrow> references" where
  "scan_exec_text uni t = scan_exec_chars uni None (str_chars t)"

fun collect_exec_node :: "(string \<Rightarrow> bool) \<Rightarrow> OIr \<Rightarrow> references" where
  "collect_exec_node uni (Text t) = scan_exec_text uni t"
| "collect_exec_node uni (Load name) = ({name}, False, False)"
| "collect_exec_node uni (Store name expr) = join_references ({name}, False, False) (collect_exec_node uni expr)"
| "collect_exec_node uni (Invoke fn_name mode args) =
     join_references ({}, fn_name = ''scope'', fn_name = ''eval'' \<or> fn_name = ''quote'')
       (foldr join_references (map (collect_exec_node uni) args) no_references)"
| "collect_exec_node uni (NativeLeaf kind interface provenance descriptor args) =
     foldr join_references (map (collect_exec_node uni) args) no_references"
| "collect_exec_node uni (Exec lang env_id attr backend body) =
     join_references ({}, False, bi_canonical backend = ''quote'')
       (foldr join_references (map (collect_exec_node uni) body) no_references)"

definition collect_exec_references :: "(string \<Rightarrow> bool) \<Rightarrow> OIr list \<Rightarrow> references" where
  "collect_exec_references uni ns = foldr join_references (map (collect_exec_node uni) ns) no_references"

section \<open>Braced references of bash\<close>

text \<open>One scan of a text node, from byte \<open>i\<close>.\<close>

definition braced_end :: "string \<Rightarrow> nat \<Rightarrow> nat" where
  "braced_end t start =
     (case byte_at t start of
        None \<Rightarrow> start
      | Some c \<Rightarrow> if is_ident_start c then scan is_ident_continue t (start + 1) else start)"

function braced_names :: "string \<Rightarrow> nat \<Rightarrow> string set" where
  "braced_names t i =
     (if i + 1 \<ge> length t then {}
      else if t ! i \<noteq> CHR ''$'' \<or> t ! (i + 1) \<noteq> CHR ''{'' then braced_names t (i + 1)
      else let start = (if byte_at t (i + 2) = Some (CHR ''#'') then i + 3 else i + 2);
               e = braced_end t start;
               found = (e > start \<and> (case byte_at t e of None \<Rightarrow> False | Some c \<Rightarrow> c \<in> set ''}:-=+?#%/^,@['')) in
        (if found then {substr t start e} else {}) \<union> braced_names t (max e (i + 2)))"
  by pat_completeness auto

termination braced_names
  by (relation "measure (\<lambda>(t, i). length t - i)") (auto simp: Let_def)

declare braced_names.simps [simp del]

definition bash_braced_references :: "OIr list \<Rightarrow> string set" where
  "bash_braced_references body =
     (\<Union>node \<in> set body. case node of Text t \<Rightarrow> braced_names t 0 | _ \<Rightarrow> {})"

section \<open>Bash special names\<close>

datatype BashSpecial = Readonly | Writable

definition BASH_READONLY_NAMES :: "string list" where
  "BASH_READONLY_NAMES =
     [
      ''BASHOPTS'', ''BASHPID'', ''BASH_ARGC'', ''BASH_ARGV'', ''BASH_COMMAND'', ''BASH_LINENO'',
      ''BASH_MONOSECONDS'', ''BASH_SOURCE'', ''BASH_SUBSHELL'', ''BASH_VERSINFO'', ''EPOCHREALTIME'',
      ''EPOCHSECONDS'', ''EUID'', ''FUNCNAME'', ''GROUPS'', ''HISTCMD'', ''LINENO'', ''PPID'',
      ''RANDOM'', ''SECONDS'', ''SHELLOPTS'', ''SRANDOM'', ''UID'']"

definition BASH_WRITABLE_SPECIAL_NAMES :: "string list" where
  "BASH_WRITABLE_SPECIAL_NAMES =
     [
      ''BASH'', ''BASH_COMPAT'', ''BASH_ENV'', ''BASH_VERSION'', ''BASH_XTRACEFD'', ''CDPATH'',
      ''COLUMNS'', ''ENV'', ''FIGNORE'', ''GLOBIGNORE'', ''HISTCONTROL'', ''HISTFILE'',
      ''HISTFILESIZE'', ''HISTIGNORE'', ''HISTSIZE'', ''HOME'', ''HOSTNAME'', ''HOSTTYPE'', ''IFS'',
      ''INPUTRC'', ''LANG'', ''LINES'', ''LOGNAME'', ''MACHTYPE'', ''MAIL'', ''MAILCHECK'',
      ''MAILPATH'', ''OLDPWD'', ''OPTARG'', ''OPTERR'', ''OPTIND'', ''OSTYPE'', ''PATH'',
      ''POSIXLY_CORRECT'', ''PROMPT_COMMAND'', ''PS1'', ''PS2'', ''PS3'', ''PS4'', ''PWD'',
      ''SHELL'', ''SHLVL'', ''TERM'', ''TIMEFORMAT'', ''TMOUT'', ''TMPDIR'', ''TZ'', ''USER'',
      ''AUTO_RESUME'', ''BASH_ALIASES'', ''BASH_ARGV0'', ''BASH_CMDS'', ''BASH_LOADABLES_PATH'',
      ''BASH_REMATCH'', ''CHILD_MAX'', ''COMPREPLY'', ''COMP_CWORD'', ''COMP_KEY'', ''COMP_LINE'',
      ''COMP_POINT'', ''COMP_TYPE'', ''COMP_WORDBREAKS'', ''COMP_WORDS'', ''COPROC'', ''DIRSTACK'',
      ''EMACS'', ''EXECIGNORE'', ''FCEDIT'', ''FUNCNEST'', ''HISTCHARS'', ''HISTTIMEFORMAT'',
      ''HOSTFILE'', ''IGNOREEOF'', ''INSIDE_EMACS'', ''MAPFILE'', ''PIPESTATUS'', ''PROMPT_DIRTRIM'',
      ''PS0'', ''READLINE_ARGUMENT'', ''READLINE_LINE'', ''READLINE_MARK'', ''READLINE_POINT'',
      ''REPLY'', ''TEXTDOMAIN'', ''TEXTDOMAINDIR'']"

definition bash_special_name :: "string \<Rightarrow> BashSpecial option" where
  "bash_special_name name =
     (if name \<in> set BASH_READONLY_NAMES then Some Readonly
      else if name \<in> set BASH_WRITABLE_SPECIAL_NAMES \<or> starts_with name ''LC_'' then Some Writable
      else None)"

end
