(* ===== verification/Bash_Scan.thy ===== *)
theory Bash_Scan
  imports Plan_Refs
begin

text \<open>
  The arithmetic references of a bash body, \<^verbatim>\<open>crates/ostadix-api/src/ir.rs\<close>: the scanner that keeps a stack of
  arithmetic regions over the joined text, and the simple-command helpers it uses. The scan of a
  builtin's arguments is a recursive scan of a shorter text, so the scanner is a total function.
\<close>

section \<open>Simple commands\<close>

definition ends_with :: "string \<Rightarrow> string \<Rightarrow> bool" where
  "ends_with s t \<longleftrightarrow> length t \<le> length s \<and> drop (length s - length t) s = t"

definition bash_command_position :: "string \<Rightarrow> nat \<Rightarrow> bool" where
  "bash_command_position t start =
     (let leading = rev (dropWhile (\<lambda>c. c = CHR '' '' \<or> c = tab) (rev (take start t))) in
      leading = [] \<or> last leading \<in> set ('';&|({'' @ [newline]) \<or>
      list_ex (\<lambda>word. ends_with leading word \<and>
          (length leading = length word \<or> \<not> is_ident_continue (leading ! (length leading - length word - 1))))
        [''do'', ''then'', ''else'', ''!'', ''if'', ''elif'', ''while'', ''until'', ''time''])"

text \<open>The bytes before the first unquoted terminator.\<close>

fun command_length :: "char option \<Rightarrow> string \<Rightarrow> nat" where
  "command_length quote [] = 0"
| "command_length (Some q) (c # cs) = Suc (command_length (if c = q then None else Some q) cs)"
| "command_length None (c # cs) =
     (if c = backslash then (case cs of [] \<Rightarrow> 1 | d # ds \<Rightarrow> 2 + command_length None ds)
      else if c = CHR 0x27 \<or> c = CHR 0x22 then Suc (command_length (Some c) cs)
      else if c \<in> set ('';&|)'' @ [newline]) then 0
      else Suc (command_length None cs))"

definition bash_command_end :: "string \<Rightarrow> nat \<Rightarrow> nat" where
  "bash_command_end t start = start + command_length None (drop start t)"

fun command_words :: "string option \<Rightarrow> string \<Rightarrow> string list \<Rightarrow> string list" where
  "command_words quote word [] = (if word = [] then [] else [word])"
| "command_words (Some q) word (ch # chs) =
     (if ch = q then command_words None word chs else command_words (Some q) (word @ ch) chs)"
| "command_words None word (ch # chs) =
     (if ch = [CHR 0x27] \<or> ch = [CHR 0x22] then command_words (Some ch) word chs
      else if is_whitespace_char ch then
        (if word = [] then command_words None [] chs else word # command_words None [] chs)
      else command_words None (word @ ch) chs)"

definition bash_command_words :: "string \<Rightarrow> string list" where
  "bash_command_words segment = command_words None [] (str_chars segment)"

text \<open>The option letters and the operands of a \<open>declare\<close>, \<open>local\<close> or \<open>typeset\<close> command.\<close>

definition bash_declaration :: "string \<Rightarrow> nat \<Rightarrow> (string \<times> string list) option" where
  "bash_declaration t start =
     (let word_end = scan is_ident_continue t start in
      if substr t start word_end \<notin> set [''declare'', ''local'', ''typeset''] \<or> \<not> bash_command_position t start
      then None
      else let words = bash_command_words (substr t word_end (bash_command_end t word_end)) in
        Some (concat (map tl (filter (\<lambda>w. starts_with w ''-'') words)),
              filter (\<lambda>w. \<not> starts_with w ''-'') words))"

section \<open>The joined text\<close>

fun bash_scan_text :: "OIr list \<Rightarrow> string" where
  "bash_scan_text [] = []"
| "bash_scan_text (Text t # rest) =
     (if ends_with t ''$'' \<and> (case rest of Text _ # _ \<Rightarrow> True | _ \<Rightarrow> False)
      then butlast t @ [backslash, CHR ''$''] else t) @ bash_scan_text rest"
| "bash_scan_text (n # rest) = CHR ''0'' # bash_scan_text rest"

section \<open>Regions\<close>

datatype ArithClose = Parens | Bracket | Brace | Never

record arith_frame =
  frame_close :: ArithClose
  frame_depth :: nat

definition opened :: "ArithClose \<Rightarrow> arith_frame" where
  "opened c = \<lparr>frame_close = c, frame_depth = 0\<rparr>"

text \<open>What one byte does to the innermost region: the region, and the bytes consumed when it closes.\<close>

definition arith_close :: "string \<Rightarrow> nat \<Rightarrow> arith_frame \<Rightarrow> arith_frame \<times> nat option" where
  "arith_close t i f =
     (let b = t ! i; c = frame_close f in
      if c = Parens \<and> b = CHR ''('' \<or> c = Bracket \<and> b = CHR ''['' \<or> c = Brace \<and> b = CHR ''{''
      then (f\<lparr>frame_depth := frame_depth f + 1\<rparr>, None)
      else if c = Parens \<and> b = CHR '')'' \<and> frame_depth f = 0 \<and> byte_at t (i + 1) = Some (CHR '')'')
      then (f, Some 2)
      else if (c = Bracket \<and> b = CHR '']'' \<or> c = Brace \<and> b = CHR ''}'') \<and> frame_depth f = 0
      then (f, Some 1)
      else if c = Parens \<and> b = CHR '')'' \<or> c = Bracket \<and> b = CHR '']'' \<or> c = Brace \<and> b = CHR ''}''
      then (f\<lparr>frame_depth := frame_depth f - 1\<rparr>, None)
      else (f, None))"

definition find_str :: "string \<Rightarrow> string \<Rightarrow> nat option" where
  "find_str needle s = find (\<lambda>k. starts_with (drop k s) needle) [0..<length s]"

definition is_test_operator :: "string \<Rightarrow> bool" where
  "is_test_operator w \<longleftrightarrow> w \<in> set [''-eq'', ''-ne'', ''-lt'', ''-le'', ''-gt'', ''-ge'']"

definition operator_operands :: "string list \<Rightarrow> string list" where
  "operator_operands words =
     concat (map (\<lambda>k.
       if is_test_operator (words ! k)
       then (if k = 0 then [] else [words ! (k - 1)]) @ (if k + 1 < length words then [words ! (k + 1)] else [])
       else []) [0..<length words])"

text \<open>The operands of the arithmetic operators of a test that starts at \<open>start\<close>.\<close>

definition test_operands :: "string \<Rightarrow> nat \<Rightarrow> string list" where
  "test_operands t start =
     (let stop = (case find_str '']]'' (drop start t) of None \<Rightarrow> length t | Some offset \<Rightarrow> start + offset) in
      operator_operands (bash_command_words (substr t start stop)))"

text \<open>One iteration of the scanner: the regions, the next position, the names read, and the argument texts
  that are scanned as arithmetic of their own.\<close>

type_synonym arith_step = "arith_frame list \<times> nat \<times> string list \<times> string list"

definition builtin_arguments :: "string \<Rightarrow> nat \<Rightarrow> nat \<Rightarrow> string list" where
  "builtin_arguments t start e =
     (if substr t start e = ''let'' then bash_command_words (substr t e (bash_command_end t e))
      else case bash_declaration t start of
        None \<Rightarrow> []
      | Some (options, operands) \<Rightarrow>
        if CHR ''i'' \<in> set options \<and> CHR ''A'' \<notin> set options
        then List.map_filter (after_first (CHR ''='')) operands else [])"

definition arith_identifier :: "string \<Rightarrow> arith_frame list \<Rightarrow> nat \<Rightarrow> arith_step" where
  "arith_identifier t stack start =
     (let e = scan is_ident_continue t (start + 1);
          prev = (if start = 0 then None else Some (t ! (start - 1)));
          braced = (prev = Some (CHR ''{'') \<or>
            (prev = Some (CHR ''!'') \<or> prev = Some (CHR ''#'')) \<and> start \<ge> 2 \<and> t ! (start - 2) = CHR ''{'');
          named = (prev \<notin> {Some (CHR ''$''), Some (CHR ''#''), Some (CHR ''{'')} \<and>
            \<not> (prev = Some (CHR ''!'') \<and> braced));
          arith = (stack \<noteq> []);
          names = (if arith \<and> named then [substr t start e] else []) in
      if byte_at t e = Some (CHR ''['') then (opened Bracket # stack, e + 1, names, [])
      else if braced \<and> prev = Some (CHR ''{'') \<and> byte_at t e = Some (CHR '':'') \<and>
        byte_at t (e + 1) \<notin> {Some (CHR ''-''), Some (CHR ''=''), Some (CHR ''+''), Some (CHR ''?'')}
      then (opened Brace # stack, e + 1, names, [])
      else (stack, e, names,
        if \<not> arith \<and> bash_command_position t start then builtin_arguments t start e else []))"

definition arith_rest :: "string \<Rightarrow> arith_frame list \<Rightarrow> nat \<Rightarrow> arith_step" where
  "arith_rest t stack i =
     (if is_ident_start (t ! i) \<and> (i = 0 \<or> \<not> is_ident_continue (t ! (i - 1)))
      then arith_identifier t stack i else (stack, i + 1, [], []))"

definition arith_step :: "string \<Rightarrow> arith_frame list \<Rightarrow> nat \<Rightarrow> arith_step" where
  "arith_step t stack i =
     (let b = t ! i; arith = (stack \<noteq> []); n1 = byte_at t (i + 1); n2 = byte_at t (i + 2); n3 = byte_at t (i + 3) in
      if b = backslash then
        (stack, i + (if n1 = Some (CHR ''$'') \<and> n2 = Some (CHR ''('') \<and> n3 = Some (CHR ''('') then 4
           else if n1 = Some (CHR ''$'') \<and> n2 = Some (CHR ''['') then 3 else 2), [], [])
      else if b = CHR 0x27 \<and> \<not> arith then (stack, scan (\<lambda>c. c \<noteq> CHR 0x27) t (i + 1) + 1, [], [])
      else if b = CHR ''$'' \<and> n1 = Some (CHR ''('') \<and> n2 = Some (CHR ''('')
      then (opened Parens # stack, i + 3, [], [])
      else if b = CHR ''$'' \<and> n1 = Some (CHR ''['') then (opened Bracket # stack, i + 2, [], [])
      else if b = CHR ''('' \<and> n1 = Some (CHR ''('') \<and> \<not> arith then (opened Parens # stack, i + 2, [], [])
      else if b = CHR ''['' \<and> n1 = Some (CHR ''['') \<and> \<not> arith \<and> bash_command_position t i
      then (stack, i + 2, [], test_operands t (i + 2))
      else case stack of
        [] \<Rightarrow> arith_rest t [] i
      | f # fs \<Rightarrow>
        (case arith_close t i f of
           (f', Some width) \<Rightarrow> (fs, i + width, [], [])
         | (f', None) \<Rightarrow> arith_rest t (f' # fs) i))"

section \<open>Progress\<close>

lemma scan_ge: "i \<le> scan f t i"
  by (simp add: scan_def)

lemma length_substr: "length (substr t a b) \<le> length t - a"
  by (simp add: substr_def)

lemma command_words_length:
  "w \<in> set (command_words q word chs) \<Longrightarrow> length w \<le> length word + length (concat chs)"
  by (induction q word chs rule: command_words.induct) (fastforce split: if_splits)+

lemma bash_command_words_length: "w \<in> set (bash_command_words s) \<Longrightarrow> length w \<le> length s"
  using command_words_length [of w None "[]" "str_chars s"]
  by (simp add: bash_command_words_def concat_str_chars)

lemma after_first_length: "after_first c s = Some v \<Longrightarrow> length v < length s"
  by (induction s) (auto simp: after_first_def split: if_splits)

lemma operator_operands_subset: "set (operator_operands words) \<subseteq> set words"
  by (auto simp: operator_operands_def split: if_splits)

lemma test_operands_shorter:
  assumes "w \<in> set (test_operands t start)" "0 < start" "t \<noteq> []"
  shows "length w < length t"
proof -
  obtain stop where "w \<in> set (bash_command_words (substr t start stop))"
    using assms(1) operator_operands_subset by (auto simp: test_operands_def Let_def)
  then have "length w \<le> length (substr t start stop)" by (rule bash_command_words_length)
  moreover have "length (substr t start stop) < length t"
    using assms(2,3) length_substr [of t start stop] by (metis diff_less le_trans length_greater_0_conv not_le)
  ultimately show ?thesis by simp
qed

lemma builtin_arguments_shorter:
  assumes "w \<in> set (builtin_arguments t start (scan is_ident_continue t (start + 1)))" "start < length t"
    "is_ident_continue (t ! start)"
  shows "length w < length t"
proof -
  have e: "scan is_ident_continue t start = scan is_ident_continue t (start + 1)"
    using assms(2,3) by (simp add: scan_def Cons_nth_drop_Suc [symmetric])
  obtain a stop v where a: "0 < a" and v: "v \<in> set (bash_command_words (substr t a stop))" "length w \<le> length v"
  proof (cases "substr t start (scan is_ident_continue t (start + 1)) = ''let''")
    case True
    then show thesis
      using assms(1) that [of "scan is_ident_continue t (start + 1)" w] scan_ge [of "start + 1" is_ident_continue t]
      by (auto simp: builtin_arguments_def)
  next
    case False
    then obtain options operands v where "bash_declaration t start = Some (options, operands)"
      "v \<in> set operands" "after_first (CHR ''='') v = Some w"
      using assms(1) by (cases "bash_declaration t start")
        (auto simp: builtin_arguments_def map_filter_def split: if_splits)
    then show thesis
      using that [of "scan is_ident_continue t start" v "bash_command_end t (scan is_ident_continue t start)"]
        after_first_length [of "CHR ''=''" v w] scan_ge [of "start + 1" is_ident_continue t]
      by (auto simp: bash_declaration_def e Let_def split: if_splits intro: less_imp_le)
  qed
  have "length v \<le> length (substr t a stop)" using v(1) by (rule bash_command_words_length)
  then show ?thesis using a v(2) assms(2) length_substr [of t a stop] by linarith
qed

lemma arith_identifier_progress:
  assumes "arith_identifier t stack i = (stack', i', names, subs)" "i < length t" "is_ident_start (t ! i)"
  shows "i < i' \<and> (\<forall>w \<in> set subs. length w < length t)"
proof -
  have "is_ident_continue (t ! i)" using assms(3) by (auto simp: is_ident_start_def is_ident_continue_def)
  then show ?thesis
    using assms(1,2) scan_ge [of "i + 1" is_ident_continue t] builtin_arguments_shorter [of _ t i]
    by (auto simp: arith_identifier_def Let_def split: if_splits)
qed

lemma arith_step_progress:
  assumes "arith_step t stack i = (stack', i', names, subs)" "i < length t"
  shows "i < i' \<and> (\<forall>w \<in> set subs. length w < length t)"
proof -
  have rest: "arith_rest t st i = (stack', i', names, subs) \<Longrightarrow> ?thesis" for st
    using arith_identifier_progress [of t st i] assms(2) by (auto simp: arith_rest_def split: if_splits)
  have width: "arith_close t i f = (f', Some w) \<Longrightarrow> 0 < w" for f f' w
    by (auto simp: arith_close_def Let_def split: if_splits)
  have operands: "w \<in> set (test_operands t (i + 2)) \<Longrightarrow> length w < length t" for w
    using test_operands_shorter [of w t "i + 2"] assms(2) by fastforce
  have quote: "i < scan f t (i + 1) + 1" for f using scan_ge [of "i + 1" f t] by simp
  show ?thesis
    using assms(1) rest width operands quote
    by (auto simp: arith_step_def Let_def split: if_splits list.splits prod.splits option.splits)
qed

section \<open>The scanner\<close>

function scan_bash_regions :: "string \<Rightarrow> arith_frame list \<Rightarrow> nat \<Rightarrow> string list" where
  "scan_bash_regions t stack i =
     (if i \<ge> length t then []
      else case arith_step t stack i of (stack', i', names, subs) \<Rightarrow>
        names @ concat (map (\<lambda>e. scan_bash_regions e [opened Never] 0) subs) @ scan_bash_regions t stack' i')"
  by pat_completeness auto

termination scan_bash_regions
proof (relation "measures [\<lambda>(t, stack, i). length t, \<lambda>(t, stack, i). length t - i]", goal_cases)
  case (2 t stack i stack' x i' y names subs e)
  then show ?case using arith_step_progress [of t stack i stack' i' names subs] by simp
next
  case (3 t stack i stack' x i' y names subs)
  then show ?case using arith_step_progress [of t stack i stack' i' names subs] by (simp add: diff_less_mono2)
qed simp

declare scan_bash_regions.simps [simp del]

definition scan_bash_arithmetic :: "string \<Rightarrow> bool \<Rightarrow> string set" where
  "scan_bash_arithmetic t whole = set (scan_bash_regions t (if whole then [opened Never] else []) 0)"

definition bash_arithmetic_references :: "OIr list \<Rightarrow> string set" where
  "bash_arithmetic_references body = scan_bash_arithmetic (bash_scan_text body) False"

text \<open>Writable specials that a body splices by name.\<close>

definition bash_special_splices :: "OIr list \<Rightarrow> string set" where
  "bash_special_splices body =
     (\<Union>node \<in> set body.
        case node of Load name \<Rightarrow> if bash_special_name name = Some Writable then {name} else {} | _ \<Rightarrow> {})"

end
