(* ===== verification/Plan_Correct.thy ===== *)
theory Plan_Correct
  imports Plan
begin

text \<open>
  What the plan operations guarantee: the topological order is the least-first order of the dependency
  graph and fails exactly on cycles, validation accepts exactly the well-formed acyclic plans, and the
  index over a plan answers as the plan itself does.
\<close>

section \<open>The least-first order\<close>

definition min_first :: "nat \<Rightarrow> (nat \<times> nat) list \<Rightarrow> nat list \<Rightarrow> bool" where
  "min_first n E ord \<longleftrightarrow> (\<forall>k < length ord. ord ! k = Min (available n E (take k ord)))"

lemma min_first_snoc:
  "min_first n E (ord @ [v]) \<longleftrightarrow> min_first n E ord \<and> v = Min (available n E ord)"
proof -
  have "(\<forall>k < Suc (length ord). P k) \<longleftrightarrow> (\<forall>k < length ord. P k) \<and> P (length ord)" for P
    using less_Suc_eq by auto
  then show ?thesis by (simp add: min_first_def nth_append)
qed

lemma min_first_unique:
  assumes "min_first n E xs" "min_first n E ys" "length xs = length ys"
  shows "xs = ys"
proof -
  have "k \<le> length xs \<Longrightarrow> take k xs = take k ys" for k
  proof (induction k)
    case (Suc k)
    then show ?case using assms by (simp add: take_Suc_conv_app_nth min_first_def)
  qed simp
  from this [of "length xs"] show ?thesis using assms(3) by simp
qed

lemma fold_insort_insert:
  "sorted xs \<Longrightarrow> distinct xs \<Longrightarrow>
   sorted (fold insort_insert rs xs) \<and> distinct (fold insort_insert rs xs) \<and>
   set (fold insort_insert rs xs) = set rs \<union> set xs"
  by (induction rs arbitrary: xs)
    (auto simp: sorted_insort_insert distinct_insort_insert set_insort_insert)

lemma order_loop_complete:
  assumes "kahn_inv n E ord d (set ready)" "edges_within n E" "sorted ready" "distinct ready"
    "n - length ord \<le> fuel" "min_first n E ord"
  shows "\<exists>d'. kahn_inv n E (order_loop fuel (successors n E) d ready ord) d' {} \<and>
    min_first n E (order_loop fuel (successors n E) d ready ord)"
  using assms
proof (induction fuel arbitrary: d ready ord)
  case 0
  then have "length ord = n" "set ord \<subseteq> {..<n}" "distinct ord"
    using card_mono [of "{..<n}" "set ord"] distinct_card [of ord] by (auto simp: kahn_inv_def)
  then have "set ord = {..<n}" by (simp add: card_subset_eq distinct_card)
  then have "available n E ord = {}" by (auto simp: available_def)
  then show ?case using 0 by (auto simp: kahn_inv_def)
next
  case (Suc fuel)
  show ?case
  proof (cases ready)
    case Nil
    then show ?thesis using Suc.prems by auto
  next
    case (Cons v rest)
    obtain d' r where rel: "release (successors n E ! v) d = (d', r)" by fastforce
    have v: "v \<in> set ready" by (simp add: Cons)
    note step = kahn_inv_step [OF Suc.prems(1,2) v rel]
    have rest: "sorted rest" "distinct rest" "set ready - {v} = set rest"
      using Suc.prems(3,4) by (auto simp: Cons)
    have "kahn_inv n E (ord @ [v]) d' (set (fold insort_insert r rest))"
      using step(1) fold_insort_insert [OF rest(1,2), of r] rest(3) by (simp add: Un_commute)
    moreover have "v = Min (available n E ord)"
      using Suc.prems(1,3) by (auto simp: kahn_inv_def Cons intro!: Min_eqI [symmetric])
    moreover have "n - length (ord @ [v]) \<le> fuel" using Suc.prems(5) by simp
    ultimately show ?thesis
      using Suc.IH [of "ord @ [v]" d' "fold insort_insert r rest"] fold_insort_insert [OF rest(1,2), of r]
        Suc.prems(2,6) rel
      by (simp add: Cons min_first_snoc)
  qed
qed

text \<open>The order that the loop computes, whether or not it covers every node.\<close>

lemma order_loop_run:
  assumes "edges_within n E"
  obtains d where "kahn_inv n E (order_loop n (successors n E) (indegrees n E) (filter (\<lambda>v. indegrees n E ! v = 0) [0..<n]) []) d {}"
    "min_first n E (order_loop n (successors n E) (indegrees n E) (filter (\<lambda>v. indegrees n E ! v = 0) [0..<n]) [])"
proof -
  let ?ready = "filter (\<lambda>v. indegrees n E ! v = 0) [0..<n]"
  have set_ready: "set ?ready = {v. v < n \<and> indegrees n E ! v = 0}" by auto
  have "sorted ?ready" by (rule sorted_wrt_filter) simp
  moreover have "distinct ?ready" by simp
  ultimately show thesis
    using order_loop_complete [of n E "[]" "indegrees n E" ?ready n] kahn_inv_init [OF assms] assms that
    by (auto simp: set_ready min_first_def)
qed

lemma topological_order_run:
  assumes "edges_within (length (nodes plan)) (edge_pairs plan)"
  obtains ord d where "kahn_inv (length (nodes plan)) (edge_pairs plan) ord d {}"
    "min_first (length (nodes plan)) (edge_pairs plan) ord"
    "topological_order plan = (if length ord \<noteq> length (nodes plan) then Inl DependencyCycle else Inr ord)"
  using order_loop_run [OF assms] assms that by (auto simp: topological_order_def Let_def)

lemma complete_iff:
  assumes "kahn_inv n E ord d {}"
  shows "length ord = n \<longleftrightarrow> set ord = {..<n}"
proof -
  have "distinct ord" "set ord \<subseteq> {..<n}" using assms by (auto simp: kahn_inv_def)
  then show ?thesis by (metis card_lessThan card_subset_eq distinct_card finite_lessThan)
qed

lemma topological_order_sound:
  assumes "edges_within (length (nodes plan)) (edge_pairs plan)" "topological_order plan = Inr ord"
  shows "topo_order (length (nodes plan)) (edge_pairs plan) ord"
proof -
  obtain ord0 d where run: "kahn_inv (length (nodes plan)) (edge_pairs plan) ord0 d {}"
    "topological_order plan = (if length ord0 \<noteq> length (nodes plan) then Inl DependencyCycle else Inr ord0)"
    by (rule topological_order_run [OF assms(1)])
  then show ?thesis
    using assms(2) complete_iff [OF run(1)] by (auto simp: topo_order_def kahn_inv_def split: if_splits)
qed

section \<open>Validation\<close>

lemma check_node_ids_iff:
  "check_node_ids i ns = Inr () \<longleftrightarrow> map node_id ns = [i..<i + length ns]"
  by (induction ns arbitrary: i) (auto simp: upt_rec)

lemma check_roots_iff:
  "check_roots n seen rs = Inr () \<longleftrightarrow> set rs \<subseteq> {..<n} \<and> distinct rs \<and> set rs \<inter> seen = {}"
  by (induction rs arbitrary: seen) auto

lemma check_edges_iff:
  "check_edges n es = Inr () \<longleftrightarrow> edges_within n (map (\<lambda>e. (edge_from e, edge_to e)) es)"
  by (induction es) (auto simp: edges_within_def)

lemma root_position_iff:
  assumes "distinct rs"
  shows "root_position rs v = Some k \<longleftrightarrow> k < length rs \<and> rs ! k = v"
proof -
  have "distinct (map fst (rev (zip rs [0..<length rs])))" using assms by (simp flip: rev_map)
  then have "root_position rs v = Some k \<longleftrightarrow> (v, k) \<in> set (rev (zip rs [0..<length rs]))"
    unfolding root_position_def by (rule map_of_eq_Some_iff)
  then show ?thesis by (auto simp: set_zip)
qed

lemma root_position_None:
  "distinct rs \<Longrightarrow> root_position rs v = None \<longleftrightarrow> v \<notin> set rs"
  using root_position_iff [of rs v] by (metis in_set_conv_nth not_None_eq)

lemma length_map_filter_positions:
  assumes "distinct rs" "distinct ord" "set rs \<subseteq> set ord"
  shows "length (List.map_filter (root_position rs) ord) = length rs"
proof -
  have "length (List.map_filter (root_position rs) ord) = length (filter (\<lambda>v. v \<in> set rs) ord)"
    using root_position_None [OF assms(1)]
    by (induction ord) (auto simp: map_filter_simps split: option.split, metis option.distinct(1))
  also have "\<dots> = card (set ord \<inter> set rs)"
    using assms(2) by (metis distinct_card distinct_filter inter_set_filter Int_commute)
  finally show ?thesis using assms(1,3) by (simp add: Int_absorb1 distinct_card)
qed

definition well_formed_plan :: "execution_plan \<Rightarrow> bool" where
  "well_formed_plan plan \<longleftrightarrow>
     map node_id (nodes plan) = [0..<length (nodes plan)] \<and>
     distinct (roots plan) \<and> set (roots plan) \<subseteq> {..<length (nodes plan)} \<and>
     edges_within (length (nodes plan)) (edge_pairs plan) \<and> acyclic (set (edge_pairs plan))"

lemma validate_characterised:
  "validate plan k = Inr () \<longleftrightarrow> length (roots plan) = k \<and> well_formed_plan plan"
proof (cases "edges_within (length (nodes plan)) (edge_pairs plan)")
  case False
  then show ?thesis
    by (auto simp: validate_def well_formed_plan_def res_simps check_edges_iff edge_pairs_def)
next
  case True
  obtain ord d where run: "kahn_inv (length (nodes plan)) (edge_pairs plan) ord d {}"
    "topological_order plan = (if length ord \<noteq> length (nodes plan) then Inl DependencyCycle else Inr ord)"
    by (rule topological_order_run [OF True])
  have acyc: "acyclic (set (edge_pairs plan)) \<longleftrightarrow> length ord = length (nodes plan)"
    using run stuck_is_cycle [OF run(1) True] complete_iff [OF run(1)] deps_first_acyclic [OF _ True, of ord]
    by (auto simp: topo_order_def kahn_inv_def)
  have sched: "root_schedule plan = Inr (List.map_filter (root_position (roots plan)) ord)"
    if "length ord = length (nodes plan)" "distinct (roots plan)" "set (roots plan) \<subseteq> {..<length (nodes plan)}"
    using that run complete_iff [OF run(1)] length_map_filter_positions [of "roots plan" ord]
    by (simp add: root_schedule_def kahn_inv_def)
  show ?thesis
    using True run(2) acyc sched
    by (auto simp: validate_def well_formed_plan_def res_simps check_node_ids_iff check_roots_iff check_edges_iff
        edge_pairs_def split: if_splits)
qed

lemma well_formed_validates: "well_formed_plan plan \<Longrightarrow> validate plan (length (roots plan)) = Inr ()"
  by (simp add: validate_characterised)

section \<open>The index\<close>

text \<open>Grouping edges by an endpoint keeps their order.\<close>

lemma group_edges:
  assumes "\<forall>e \<in> set es. key e < length t"
  shows "length (fold (\<lambda>e t. t[key e := t ! key e @ [e]]) es t) = length t \<and>
    (\<forall>v < length t. fold (\<lambda>e t. t[key e := t ! key e @ [e]]) es t ! v = t ! v @ filter (\<lambda>e. key e = v) es)"
  using assms by (induction es arbitrary: t) (auto simp: nth_list_update)

lemma push_children:
  assumes "\<forall>e \<in> set es. edge_to e < length cs" "\<forall>q. c \<notin> set (base q)"
    "\<forall>q < length cs. cs ! q = base q @ (if q \<in> D then [c] else [])"
  shows "length (fold (push_child c) es cs) = length cs \<and>
    (\<forall>q < length cs. fold (push_child c) es cs ! q =
       base q @ (if q \<in> D \<union> edge_to ` {e \<in> set es. edge_kind e = Structural} then [c] else []))"
  using assms
proof (induction es arbitrary: cs D)
  case (Cons e es)
  let ?D = "if edge_kind e = Structural then insert (edge_to e) D else D"
  have to: "edge_to e < length cs" using Cons.prems(1) by simp
  have last: "base q \<noteq> [] \<Longrightarrow> last (base q) \<noteq> c" for q using Cons.prems(2) last_in_set by metis
  have "\<forall>q < length (push_child c e cs). push_child c e cs ! q = base q @ (if q \<in> ?D then [c] else [])"
    using Cons.prems(3) to last by (auto simp: push_child_def nth_list_update)
  moreover have len: "length (push_child c e cs) = length cs" by (simp add: push_child_def)
  ultimately have "length (fold (push_child c) es (push_child c e cs)) = length cs \<and>
    (\<forall>q < length cs. fold (push_child c) es (push_child c e cs) ! q =
       base q @ (if q \<in> ?D \<union> edge_to ` {e \<in> set es. edge_kind e = Structural} then [c] else []))"
    using Cons.IH [of "push_child c e cs" ?D] Cons.prems(1,2) by simp
  moreover have "?D \<union> edge_to ` {x \<in> set es. edge_kind x = Structural} =
      D \<union> edge_to ` {x \<in> set (e # es). edge_kind x = Structural}" by auto
  ultimately show ?case by simp
qed simp

definition kids :: "plan_edge list \<Rightarrow> nat \<Rightarrow> nat set" where
  "kids es p = edge_from ` {e \<in> set es. edge_kind e = Structural \<and> edge_to e = p}"

lemma children_fold:
  assumes es: "\<forall>e \<in> set es. edge_from e < n \<and> edge_to e < n"
    and out: "\<forall>v < n. out ! v = filter (\<lambda>e. edge_from e = v) es"
    and ord: "distinct (pre @ ord)" "set ord \<subseteq> {..<n}"
    and cs: "length cs = n" "\<forall>p < n. cs ! p = filter (\<lambda>c. c \<in> kids es p) pre"
  shows "length (fold (\<lambda>c cs. fold (push_child c) (out ! c) cs) ord cs) = n \<and>
    (\<forall>p < n. fold (\<lambda>c cs. fold (push_child c) (out ! c) cs) ord cs ! p = filter (\<lambda>c. c \<in> kids es p) (pre @ ord))"
  using ord cs
proof (induction ord arbitrary: pre cs)
  case (Cons c ord)
  let ?cs = "fold (push_child c) (out ! c) cs"
  have "length ?cs = length cs \<and> (\<forall>q < length cs. ?cs ! q = filter (\<lambda>c. c \<in> kids es q) pre @
      (if q \<in> {} \<union> edge_to ` {e \<in> set (out ! c). edge_kind e = Structural} then [c] else []))"
    using Cons.prems es out by (intro push_children) auto
  moreover have "q \<in> edge_to ` {e \<in> set (out ! c). edge_kind e = Structural} \<longleftrightarrow> c \<in> kids es q" for q
    using out Cons.prems(2) by (auto simp: kids_def)
  ultimately have "length ?cs = n" "\<forall>p < n. ?cs ! p = filter (\<lambda>c. c \<in> kids es p) (pre @ [c])"
    using Cons.prems(3) by auto
  then show ?case using Cons.IH [of "pre @ [c]" ?cs] Cons.prems(1,2) by simp
qed simp

lemma index_new_fields:
  assumes "index_new p = Inr idx"
  shows "validate p (length (roots p)) = Inr ()" "topological_order p = Inr (index_order idx)"
    "edges_within (length (nodes p)) (edge_pairs p)"
    "\<forall>e \<in> set (edges p). edge_from e < length (nodes p) \<and> edge_to e < length (nodes p)"
    "length (incoming idx) = length (nodes p)" "length (outgoing idx) = length (nodes p)"
    "v < length (nodes p) \<Longrightarrow> incoming idx ! v = filter (\<lambda>e. edge_to e = v) (edges p)"
    "v < length (nodes p) \<Longrightarrow> outgoing idx ! v = filter (\<lambda>e. edge_from e = v) (edges p)"
    "children idx = fold (\<lambda>c cs. fold (push_child c) (outgoing idx ! c) cs) (index_order idx) (replicate (length (nodes p)) [])"
proof -
  let ?n = "length (nodes p)"
  have idx: "incoming idx = fold (\<lambda>e t. t[edge_to e := t ! edge_to e @ [e]]) (edges p) (replicate ?n [])"
      "outgoing idx = fold (\<lambda>e t. t[edge_from e := t ! edge_from e @ [e]]) (edges p) (replicate ?n [])"
    using assms by (auto simp: index_new_def res_simps Let_def)
  show "children idx = fold (\<lambda>c cs. fold (push_child c) (outgoing idx ! c) cs) (index_order idx) (replicate ?n [])"
    using assms by (auto simp: index_new_def res_simps Let_def)
  show "topological_order p = Inr (index_order idx)" and ok: "validate p (length (roots p)) = Inr ()"
    using assms by (auto simp: index_new_def res_simps Let_def)
  show "edges_within ?n (edge_pairs p)"
    using ok by (auto simp: validate_def res_simps check_edges_iff edge_pairs_def split: if_splits)
  then show e: "\<forall>e \<in> set (edges p). edge_from e < ?n \<and> edge_to e < ?n"
    by (auto simp: edges_within_def edge_pairs_def list_all_iff)
  show "length (incoming idx) = ?n" "v < ?n \<Longrightarrow> incoming idx ! v = filter (\<lambda>e. edge_to e = v) (edges p)"
    using group_edges [of "edges p" edge_to "replicate ?n []"] e by (simp_all add: idx)
  show "length (outgoing idx) = ?n" "v < ?n \<Longrightarrow> outgoing idx ! v = filter (\<lambda>e. edge_from e = v) (edges p)"
    using group_edges [of "edges p" edge_from "replicate ?n []"] e by (simp_all add: idx)
qed

text \<open>A plan for the witnesses: a binding read by a call whose two arguments run in order.\<close>

definition sample_plan :: execution_plan where
  "sample_plan =
     \<lparr>roots = [0, 1],
      nodes = [\<lparr>node_id = 0, node_kind = StoreNode ''x''\<rparr>, \<lparr>node_id = 1, node_kind = CallNode ''f'' Eager 2\<rparr>,
        \<lparr>node_id = 2, node_kind = LoadNode ''x''\<rparr>, \<lparr>node_id = 3, node_kind = TextNode\<rparr>],
      edges = [\<lparr>edge_from = 0, edge_to = 1, edge_kind = Sequence\<rparr>, \<lparr>edge_from = 2, edge_to = 1, edge_kind = Structural\<rparr>,
        \<lparr>edge_from = 0, edge_to = 2, edge_kind = Data\<rparr>, \<lparr>edge_from = 3, edge_to = 1, edge_kind = Structural\<rparr>,
        \<lparr>edge_from = 2, edge_to = 3, edge_kind = Sequence\<rparr>]\<rparr>"

section \<open>Properties\<close>

text \<open>C13: For a plan whose edges are within bounds, the topological order is the one order that
  schedules every node once, after all nodes it depends on, and always the least node that is ready;
  it is refused exactly when the dependencies are cyclic.\<close>

theorem topological_order_spec:
  assumes "edges_within (length (nodes plan)) (edge_pairs plan)"
  shows "(topological_order plan = Inr ord \<longleftrightarrow>
      topo_order (length (nodes plan)) (edge_pairs plan) ord \<and> min_first (length (nodes plan)) (edge_pairs plan) ord) \<and>
    (topological_order plan = Inl DependencyCycle \<longleftrightarrow> \<not> acyclic (set (edge_pairs plan)))"
proof -
  let ?n = "length (nodes plan)" and ?E = "edge_pairs plan"
  obtain ord0 d where run: "kahn_inv ?n ?E ord0 d {}" "min_first ?n ?E ord0"
    "topological_order plan = (if length ord0 \<noteq> ?n then Inl DependencyCycle else Inr ord0)"
    by (rule topological_order_run [OF assms])
  have topo: "topo_order ?n ?E ord0 \<longleftrightarrow> length ord0 = ?n"
    using run(1) complete_iff [OF run(1)] by (simp add: topo_order_def kahn_inv_def)
  have acyc: "acyclic (set ?E) \<longleftrightarrow> length ord0 = ?n"
    using topo deps_first_acyclic [OF _ assms] stuck_is_cycle [OF run(1) assms] complete_iff [OF run(1)] by blast
  have "topo_order ?n ?E ord \<Longrightarrow> min_first ?n ?E ord \<Longrightarrow> ord = ord0 \<and> length ord0 = ?n"
    using acyc deps_first_acyclic [OF _ assms] min_first_unique [OF _ run(2)]
    by (metis card_lessThan distinct_card topo_order_def)
  then show ?thesis using run topo acyc by auto
qed

theorem topological_order_spec_witness:
  "topo_order (length (nodes sample_plan)) (edge_pairs sample_plan) [0, 2, 3, 1] \<and>
   acyclic (set (edge_pairs sample_plan))"
proof -
  have within: "edges_within (length (nodes sample_plan)) (edge_pairs sample_plan)" by code_simp
  have "topological_order sample_plan = Inr [0, 2, 3, 1]" by code_simp
  then show ?thesis using topological_order_spec [OF within, of "[0, 2, 3, 1]"] by simp
qed

text \<open>C12: Validation accepts a plan for \<open>k\<close> instructions exactly when it has \<open>k\<close> roots, its nodes are numbered
  in order, its roots are distinct nodes, its edges join nodes, and its dependencies are acyclic.\<close>

theorem validate_iff:
  "validate plan k = Inr () \<longleftrightarrow> length (roots plan) = k \<and> well_formed_plan plan"
  by (rule validate_characterised)

text \<open>C25: The index built over a plan answers as the plan does: it exists exactly for the plans that
  validate, holds their topological order, groups the edges by endpoint in their own order, and gives
  the same child schedule, or the same error, for every parent.\<close>

theorem index_agrees:
  assumes "index_new plan = Inr idx"
  shows "topological_order plan = Inr (index_order idx) \<and>
    index_child_schedule idx parent = child_schedule plan parent \<and>
    (v < length (nodes plan) \<longrightarrow>
       incoming idx ! v = filter (\<lambda>e. edge_to e = v) (edges plan) \<and>
       outgoing idx ! v = filter (\<lambda>e. edge_from e = v) (edges plan))"
proof -
  let ?n = "length (nodes plan)" and ?ord = "index_order idx"
  note f = index_new_fields [OF assms]
  have "distinct ?ord" "set ?ord = {..<?n}"
    using topological_order_sound [OF f(3) f(2)] by (auto simp: topo_order_def)
  then have cs: "length (children idx) = ?n"
    "\<forall>p < ?n. children idx ! p = filter (\<lambda>c. c \<in> kids (edges plan) p) ?ord"
    using children_fold [OF f(4), of "outgoing idx" "[]" ?ord "replicate ?n []"] f(8) by (simp_all add: f(9))
  have "kids (edges plan) p =
      set (map edge_from (filter (\<lambda>e. edge_kind e = Structural \<and> edge_to e = p) (edges plan)))" for p
    by (auto simp: kids_def)
  then have "index_child_schedule idx parent = child_schedule plan parent"
    using cs f(2) by (simp add: index_child_schedule_def child_schedule_def)
  then show ?thesis using f(2,7,8) by simp
qed

theorem index_agrees_witness:
  "index_child_schedule (projr (index_new sample_plan)) 1 = child_schedule sample_plan 1 \<and>
   child_schedule sample_plan 1 = Inr [2, 3]"
proof -
  have "is_ok (index_new sample_plan)" by code_simp
  then have "index_new sample_plan = Inr (projr (index_new sample_plan))"
    by (cases "index_new sample_plan") simp_all
  moreover have "child_schedule sample_plan 1 = Inr [2, 3]" by code_simp
  ultimately show ?thesis using index_agrees by blast
qed

end
