(* ===== verification/Plan_Builder.thy ===== *)
theory Plan_Builder
  imports Bash_Scan Plan_Correct "HOL-Library.AList"
begin

text \<open>
  The plan builder, \<^verbatim>\<open>crates/ostadix-api/src/ir.rs\<close>: lexical scopes, the bindings a block receives, and the
  construction of plan nodes with their structural, sequence and data edges. A lexical scope is the
  association list of its bindings; the stack has the innermost scope first. Sources that the code
  collects from a hash map are sorted by node, so the order of the map does not show.
\<close>

section \<open>Scopes\<close>

type_synonym scope = "(string \<times> nat) list"

fun scope_lookup :: "scope list \<Rightarrow> string \<Rightarrow> nat option" where
  "scope_lookup [] name = None"
| "scope_lookup (s # ss) name = (case map_of s name of Some v \<Rightarrow> Some v | None \<Rightarrow> scope_lookup ss name)"

text \<open>The visible bindings, inner ones shadowing outer ones.\<close>

fun visible_bindings :: "string set \<Rightarrow> scope list \<Rightarrow> (string \<times> nat) list" where
  "visible_bindings seen [] = []"
| "visible_bindings seen (s # ss) =
     filter (\<lambda>(name, _). name \<notin> seen) s @ visible_bindings (seen \<union> fst ` set s) ss"

definition sources_named :: "(string \<Rightarrow> bool) \<Rightarrow> scope list \<Rightarrow> nat list" where
  "sources_named wanted stack = sort (map snd (filter (\<lambda>(name, _). wanted name) (visible_bindings {} stack)))"

definition visible_scope_sources :: "scope list \<Rightarrow> nat list" where
  "visible_scope_sources stack = sources_named (\<lambda>_. True) stack"

section \<open>The bindings of a block\<close>

type_synonym quote_references = "string set \<times> bool"

text \<open>
  A referenced binding of a quoted block adds the names of the quoted body, transitively; each round
  expands at least one more binding.
\<close>

function expand_quotes ::
  "(string \<times> nat) list \<Rightarrow> (nat \<rightharpoonup> quote_references) \<Rightarrow> nat set \<Rightarrow> string set \<Rightarrow> bool \<Rightarrow> string set \<times> bool" where
  "expand_quotes visible quotes expanded tokens o_scope =
     (let pending = map snd (filter (\<lambda>(name, source). name \<in> tokens \<and> source \<notin> expanded) visible) in
      if pending = [] then (tokens, o_scope)
      else expand_quotes visible quotes (expanded \<union> set pending)
        (tokens \<union> (\<Union>source \<in> set pending. case quotes source of None \<Rightarrow> {} | Some refs \<Rightarrow> fst refs))
        (o_scope \<or> list_ex (\<lambda>source. case quotes source of None \<Rightarrow> False | Some refs \<Rightarrow> snd refs) pending))"
  by pat_completeness auto

lemma filter_shrinks:
  assumes "x \<in> set xs" "P x" "\<not> Q x" "\<And>y. Q y \<Longrightarrow> P y"
  shows "length (filter Q xs) < length (filter P xs)"
  using assms
proof (induction xs)
  case (Cons y ys)
  have "length (filter Q ys) \<le> length (filter P ys)"
    using Cons.prems(4) by (induction ys) (auto simp: le_Suc_eq)
  then show ?case using Cons by (auto simp: less_Suc_eq_le)
qed simp

termination expand_quotes
proof (relation "measure (\<lambda>(visible, quotes, expanded, tokens, o_scope). length (filter (\<lambda>b. snd b \<notin> expanded) visible))",
    goal_cases)
  case (2 visible quotes expanded tokens o_scope pending)
  then obtain name source where "(name, source) \<in> set visible" "source \<notin> expanded" "source \<in> set pending"
    by (auto simp: filter_empty_conv image_iff)
  then show ?case
    by (auto intro!: filter_shrinks [where x = "(name, source)"])
qed simp

declare expand_quotes.simps [simp del]

definition bash_references :: "OIr list \<Rightarrow> string set" where
  "bash_references body =
     bash_braced_references body \<union> bash_arithmetic_references body \<union> bash_special_splices body"

definition shim_scope_sources ::
  "(string \<Rightarrow> bool) \<Rightarrow> scope list \<Rightarrow> backend_interface \<Rightarrow> OIr list \<Rightarrow> (nat \<rightharpoonup> quote_references) \<Rightarrow> nat list" where
  "shim_scope_sources uni stack backend body quotes =
     (let shell = bi_canonical backend \<in> set SHELL_BACKENDS in
      if shell \<and> \<not> SHELL_RECEIVES_REFERENCED_LETS then
        if bi_canonical backend \<noteq> ''bash'' then []
        else sources_named (\<lambda>name. name \<in> bash_references body) stack
      else
        let (tokens, o_scope, reflective) = collect_exec_references uni body;
            (tokens', o_scope') = expand_quotes (visible_bindings {} stack) quotes {} tokens o_scope in
        if o_scope' \<or> REFLECTION_FULL_SCOPE_FALLBACK \<and> reflective \<and> \<not> shell then visible_scope_sources stack
        else sources_named (\<lambda>name. name \<in> tokens') stack)"

text \<open>The first entry \<open>cap=name\<close> of an attribute list.\<close>

definition attr_capability_binding :: "string option \<Rightarrow> string option" where
  "attr_capability_binding attr =
     (case attr of
        None \<Rightarrow> None
      | Some a \<Rightarrow>
        map_option (drop 4) (find (\<lambda>entry. starts_with entry ''cap='' \<and> length entry > 4)
          (map trim_str (split_on (CHR '','') a))))"

section \<open>The builder\<close>

record plan_builder =
  pb_nodes :: "plan_node list"
  pb_edges :: "plan_edge list"
  edge_membership :: "(nat \<times> nat \<times> PlanEdgeKind) set"
  quote_refs :: "nat \<rightharpoonup> quote_references"

definition builder_new :: plan_builder where
  "builder_new = \<lparr>pb_nodes = [], pb_edges = [], edge_membership = {}, quote_refs = Map.empty\<rparr>"

definition finish :: "nat list \<Rightarrow> plan_builder \<Rightarrow> execution_plan" where
  "finish rs pb = \<lparr>roots = rs, nodes = pb_nodes pb, edges = pb_edges pb\<rparr>"

definition add_edge :: "PlanEdgeKind \<Rightarrow> nat \<Rightarrow> nat \<Rightarrow> plan_builder \<Rightarrow> plan_builder" where
  "add_edge kind to from pb =
     (if (from, to, kind) \<in> edge_membership pb then pb
      else pb\<lparr>edge_membership := insert (from, to, kind) (edge_membership pb),
        pb_edges := pb_edges pb @ [\<lparr>edge_from = from, edge_to = to, edge_kind = kind\<rparr>]\<rparr>)"

fun plan_kind :: "(bytes \<Rightarrow> string) \<Rightarrow> OIr \<Rightarrow> PlanNodeKind" where
  "plan_kind sha256 (Text _) = TextNode"
| "plan_kind sha256 (Load name) = LoadNode name"
| "plan_kind sha256 (Store name _) = StoreNode name"
| "plan_kind sha256 (Invoke fn_name mode args) =
     (case mode of
        Group m \<Rightarrow> GroupNode m (length args)
      | Lazy \<Rightarrow> ScheduleNode fn_name LazySchedule (length args)
      | Autonomous \<Rightarrow> ScheduleNode fn_name AutonomousSchedule (length args)
      | Eager \<Rightarrow>
        if fn_name = ''instantiate'' then RequestNode fn_name Instantiate (length args)
        else if fn_name = ''realise'' then RequestNode fn_name Realise (length args)
        else if fn_name = ''dry_activate'' then RequestNode fn_name DryActivate (length args)
        else if fn_name = ''activate'' then RequestNode fn_name Activate (length args)
        else if fn_name = ''now'' then ScheduleNode fn_name Force (length args)
        else CallNode fn_name mode (length args))"
| "plan_kind sha256 (NativeLeaf kind interface provenance descriptor args) =
     NativeI64Node (native_leaf_source_descriptor sha256 (NativeLeaf kind interface provenance descriptor args))
       (length args - 1)"
| "plan_kind sha256 (Exec lang env_id attr backend body) = ExecNode lang env_id attr backend"

text \<open>The part of \<open>add_node\<close> before the instruction is looked at.\<close>

definition begin_node ::
  "(bytes \<Rightarrow> string) \<Rightarrow> OIr \<Rightarrow> nat option \<Rightarrow> nat option \<Rightarrow> plan_builder \<Rightarrow> nat \<times> plan_builder" where
  "begin_node sha256 node parent previous_sibling pb =
     (let v = length (pb_nodes pb);
          pb1 = pb\<lparr>pb_nodes := pb_nodes pb @ [\<lparr>node_id = v, node_kind = plan_kind sha256 node\<rparr>]\<rparr>;
          pb2 = (case parent of None \<Rightarrow> pb1 | Some p \<Rightarrow> add_edge Structural p v pb1);
          pb3 = (case previous_sibling of None \<Rightarrow> pb2 | Some s \<Rightarrow> add_edge Sequence v s pb2) in
      (v, pb3))"

text \<open>The data edges into a node: the binding of a load, every binding for \<open>scope()\<close>, and for a block the
  bindings that its backend receives and the one that names its capability.\<close>

fun data_sources ::
  "(string \<Rightarrow> bool) \<Rightarrow> OIr \<Rightarrow> (nat \<rightharpoonup> quote_references) \<Rightarrow> scope list \<Rightarrow> nat list" where
  "data_sources uni (Load name) quotes stack =
     (case scope_lookup stack name of None \<Rightarrow> [] | Some s \<Rightarrow> [s])"
| "data_sources uni (Invoke fn_name mode args) quotes stack =
     (if fn_name = ''scope'' then visible_scope_sources stack else [])"
| "data_sources uni (Exec lang env_id attr backend body) quotes stack =
     (if bi_execution backend = Shim then shim_scope_sources uni stack backend body quotes else []) @
     (case attr_capability_binding attr of
        None \<Rightarrow> []
      | Some binding \<Rightarrow> (case scope_lookup stack binding of None \<Rightarrow> [] | Some s \<Rightarrow> [s]))"
| "data_sources uni _ quotes stack = []"

text \<open>A binding of a quoted block records the names of the quoted body.\<close>

definition note_quote :: "(string \<Rightarrow> bool) \<Rightarrow> nat \<Rightarrow> OIr \<Rightarrow> plan_builder \<Rightarrow> plan_builder" where
  "note_quote uni v expr pb =
     (case expr of
        Exec _ _ _ backend body \<Rightarrow>
          if is_quote_exec expr
          then let (tokens, o_scope, _) = collect_exec_references uni body in
            pb\<lparr>quote_refs := (quote_refs pb)(v \<mapsto> (tokens, o_scope))\<rparr>
          else pb
      | _ \<Rightarrow> pb)"

fun bind_in :: "string \<Rightarrow> nat \<Rightarrow> scope list \<Rightarrow> scope list" where
  "bind_in name v [] = []"
| "bind_in name v (s # ss) = AList.update name v s # ss"

fun add_node ::
    "(string \<Rightarrow> bool) \<Rightarrow> (bytes \<Rightarrow> string) \<Rightarrow> OIr \<Rightarrow> plan_builder \<Rightarrow> scope list \<Rightarrow> nat option \<Rightarrow> nat option \<Rightarrow>
     nat \<times> plan_builder \<times> scope list"
  and add_siblings ::
    "(string \<Rightarrow> bool) \<Rightarrow> (bytes \<Rightarrow> string) \<Rightarrow> OIr list \<Rightarrow> plan_builder \<Rightarrow> scope list \<Rightarrow> nat option \<Rightarrow> nat option \<Rightarrow>
     nat list \<times> plan_builder \<times> scope list" where
  "add_node uni sha256 node pb stack parent previous_sibling =
     (let (v, pb1) = begin_node sha256 node parent previous_sibling pb;
          pb2 = fold (add_edge Data v) (data_sources uni node (quote_refs pb1) stack) pb1 in
      case node of
        Text _ \<Rightarrow> (v, pb2, stack)
      | Load _ \<Rightarrow> (v, pb2, stack)
      | Store name expr \<Rightarrow>
          let (_, pb3, stack') = add_node uni sha256 expr (note_quote uni v expr pb2) ([] # stack) (Some v) None in
          (v, pb3, bind_in name v (tl stack'))
      | Invoke _ _ args \<Rightarrow>
          let (_, pb3, stack') = add_siblings uni sha256 args pb2 ([] # stack) (Some v) None in (v, pb3, tl stack')
      | NativeLeaf _ _ _ _ args \<Rightarrow>
          let (_, pb3, stack') = add_siblings uni sha256 args pb2 ([] # stack) (Some v) None in (v, pb3, tl stack')
      | Exec _ _ _ _ body \<Rightarrow>
          if is_quote_exec node then (v, pb2, stack)
          else let (_, pb3, stack') = add_siblings uni sha256 body pb2 ([] # stack) (Some v) None in
            (v, pb3, tl stack'))"
| "add_siblings uni sha256 [] pb stack parent prev = ([], pb, stack)"
| "add_siblings uni sha256 (node # rest) pb stack parent prev =
     (let (v, pb1, stack1) = add_node uni sha256 node pb stack parent prev;
          (vs, pb2, stack2) = add_siblings uni sha256 rest pb1 stack1 parent (Some v) in
      (v # vs, pb2, stack2))"

declare add_node.simps [simp del]

definition plan :: "(string \<Rightarrow> bool) \<Rightarrow> (bytes \<Rightarrow> string) \<Rightarrow> OIr list \<Rightarrow> execution_plan" where
  "plan uni sha256 ns =
     (let (rs, pb, _) = add_siblings uni sha256 ns builder_new [[]] None None in finish rs pb)"

end
