(* ===== verification/Plan_Builder_Correct.thy ===== *)
theory Plan_Builder_Correct
  imports Plan_Builder
begin

text \<open>
  Plans that the builder makes are well formed: nodes follow the executable preorder, and the
  order in which instructions are completed schedules every edge forwards, so no plan of a program is
  refused by validation.
\<close>

section \<open>Edges\<close>

abbreviation pairs :: "plan_builder \<Rightarrow> (nat \<times> nat) list" where
  "pairs pb \<equiv> map (\<lambda>e. (edge_from e, edge_to e)) (pb_edges pb)"

definition builder_ok :: "plan_builder \<Rightarrow> bool" where
  "builder_ok pb \<longleftrightarrow>
     edge_membership pb = (\<lambda>e. (edge_from e, edge_to e, edge_kind e)) ` set (pb_edges pb) \<and>
     map node_id (pb_nodes pb) = [0..<length (pb_nodes pb)]"

lemma add_edge_simps [simp]:
  "pb_nodes (add_edge k v u pb) = pb_nodes pb" "quote_refs (add_edge k v u pb) = quote_refs pb"
  by (simp_all add: add_edge_def)

lemma builder_ok_add_edge [simp]: "builder_ok pb \<Longrightarrow> builder_ok (add_edge k v u pb)"
  by (auto simp: builder_ok_def add_edge_def)

lemma preds_add_edge:
  assumes "builder_ok pb"
  shows "preds (pairs (add_edge k v u pb)) w = preds (pairs pb) w \<union> (if w = v then {u} else {})"
proof (cases "(u, v, k) \<in> edge_membership pb")
  case True
  then have "(u, v) \<in> set (pairs pb)" using assms by (force simp: builder_ok_def)
  then show ?thesis using True by (auto simp: add_edge_def preds_def)
qed (auto simp: add_edge_def preds_def)

lemma within_add_edge:
  "edges_within n (pairs pb) \<Longrightarrow> u < n \<Longrightarrow> v < n \<Longrightarrow> edges_within n (pairs (add_edge k v u pb))"
  by (auto simp: add_edge_def edges_within_def)

lemma fold_add_edge:
  assumes "builder_ok pb"
  shows "builder_ok (fold (add_edge k v) us pb) \<and> pb_nodes (fold (add_edge k v) us pb) = pb_nodes pb \<and>
    quote_refs (fold (add_edge k v) us pb) = quote_refs pb \<and>
    preds (pairs (fold (add_edge k v) us pb)) w = preds (pairs pb) w \<union> (if w = v then set us else {}) \<and>
    (edges_within n (pairs pb) \<longrightarrow> set us \<subseteq> {..<n} \<longrightarrow> v < n \<longrightarrow> edges_within n (pairs (fold (add_edge k v) us pb)))"
  using assms by (induction us arbitrary: pb) (auto simp: preds_add_edge within_add_edge)

section \<open>Sources are bindings\<close>

definition bound :: "scope list \<Rightarrow> nat set" where
  "bound stack = (\<Union>s \<in> set stack. snd ` set s)"

lemma bound_simps [simp]: "bound [] = {}" "bound (s # ss) = snd ` set s \<union> bound ss"
  by (auto simp: bound_def)

lemma scope_lookup_bound: "scope_lookup stack name = Some v \<Longrightarrow> v \<in> bound stack"
  by (induction stack) (auto split: option.splits dest: map_of_SomeD intro: rev_image_eqI)

lemma visible_bound: "snd ` set (visible_bindings seen stack) \<subseteq> bound stack"
  by (induction seen stack rule: visible_bindings.induct) auto

lemma sources_named_bound: "set (sources_named P stack) \<subseteq> bound stack"
  using visible_bound [of "{}" stack] by (auto simp: sources_named_def)

lemma shim_scope_sources_bound: "set (shim_scope_sources uni stack backend body quotes) \<subseteq> bound stack"
  using sources_named_bound
  by (auto simp: shim_scope_sources_def visible_scope_sources_def Let_def split: prod.splits if_splits)

lemma data_sources_bound: "set (data_sources uni node quotes stack) \<subseteq> bound stack"
  by (cases node)
    (auto simp: visible_scope_sources_def dest!: sym [of "Some _"]
      intro: scope_lookup_bound subsetD [OF sources_named_bound] subsetD [OF shim_scope_sources_bound]
      split: option.splits if_splits)

lemma bound_bind_in: "bound (bind_in name v stack) \<subseteq> insert v (bound stack)"
proof (cases stack)
  case (Cons s ss)
  have "set (AList.update name v s) \<subseteq> insert (name, v) (set s)"
    by (induction s) auto
  then show ?thesis using Cons by auto
qed simp

lemma bound_tl: "bound (tl stack) \<subseteq> bound stack"
  by (cases stack) auto

section \<open>Completion order\<close>

text \<open>
  \<open>P\<close> lists the completed instructions in the order of their completion; every edge into one of them
  comes from an earlier one, and only completed instructions are bound in a scope.
\<close>

definition plan_inv :: "plan_builder \<Rightarrow> nat list \<Rightarrow> scope list \<Rightarrow> bool" where
  "plan_inv pb P stack \<longleftrightarrow>
     builder_ok pb \<and> distinct P \<and> set P \<subseteq> {..<length (pb_nodes pb)} \<and> deps_first (pairs pb) P \<and>
     edges_within (length (pb_nodes pb)) (pairs pb) \<and> bound stack \<subseteq> set P"

lemma deps_first_mono:
  "deps_first E P \<Longrightarrow> (\<And>v. v \<in> set P \<Longrightarrow> preds E' v \<subseteq> preds E v) \<Longrightarrow> deps_first E' P"
  unfolding deps_first_def using nth_mem by blast

lemma edges_within_mono: "edges_within n E \<Longrightarrow> n \<le> m \<Longrightarrow> edges_within m E"
  by (auto simp: edges_within_def list_all_iff)

text \<open>Outside the new nodes only the parent gets new predecessors, the new siblings.\<close>

definition only_parent :: "plan_builder \<Rightarrow> plan_builder \<Rightarrow> nat set \<Rightarrow> nat option \<Rightarrow> nat set \<Rightarrow> bool" where
  "only_parent pb pb' N parent vs \<longleftrightarrow>
     (\<forall>w. w \<notin> N \<longrightarrow> preds (pairs pb') w \<subseteq> preds (pairs pb) w \<union> (if parent = Some w then vs else {}))"

lemma only_parentI:
  "(\<And>w. w \<notin> N \<Longrightarrow> preds (pairs pb') w \<subseteq> preds (pairs pb) w \<union> (if parent = Some w then vs else {})) \<Longrightarrow>
   only_parent pb pb' N parent vs"
  by (simp add: only_parent_def)

lemma only_parentD:
  "only_parent pb pb' N parent vs \<Longrightarrow> w \<notin> N \<Longrightarrow>
   preds (pairs pb') w \<subseteq> preds (pairs pb) w \<union> (if parent = Some w then vs else {})"
  by (simp add: only_parent_def)

lemma only_parent_trans:
  assumes "only_parent pb pb1 N1 parent vs1" "only_parent pb1 pb2 N2 parent vs2"
  shows "only_parent pb pb2 (N1 \<union> N2) parent (vs1 \<union> vs2)"
proof (rule only_parentI)
  fix w assume "w \<notin> N1 \<union> N2"
  then show "preds (pairs pb2) w \<subseteq> preds (pairs pb) w \<union> (if parent = Some w then vs1 \<union> vs2 else {})"
    using only_parentD [OF assms(1), of w] only_parentD [OF assms(2), of w] by (auto split: if_splits)
qed

text \<open>What adding the instructions \<open>ns\<close> below \<open>parent\<close> does to the builder.\<close>

definition extends ::
  "(bytes \<Rightarrow> string) \<Rightarrow> OIr list \<Rightarrow> plan_builder \<Rightarrow> nat list \<Rightarrow> nat option \<Rightarrow> nat list \<Rightarrow> plan_builder \<Rightarrow> nat list \<Rightarrow>
   scope list \<Rightarrow> bool" where
  "extends sha256 ns pb P parent vs pb' Q stack' \<longleftrightarrow>
     set Q = {length (pb_nodes pb)..<length (pb_nodes pb')} \<and> length (pb_nodes pb) \<le> length (pb_nodes pb') \<and>
     map node_kind (pb_nodes pb') = map node_kind (pb_nodes pb) @ map (plan_kind sha256) (flatten_for_plan ns) \<and>
     set vs \<subseteq> set Q \<and> distinct vs \<and> length vs = length ns \<and> plan_inv pb' (P @ Q) stack' \<and>
     only_parent pb pb' (set Q) parent (set vs)"

text \<open>The context in which an instruction is added.\<close>

definition ready_for :: "plan_builder \<Rightarrow> nat list \<Rightarrow> scope list \<Rightarrow> nat option \<Rightarrow> nat option \<Rightarrow> bool" where
  "ready_for pb P stack parent prev \<longleftrightarrow>
     plan_inv pb P stack \<and> (\<forall>p. parent = Some p \<longrightarrow> p \<notin> set P \<and> p < length (pb_nodes pb)) \<and>
     (\<forall>p. prev = Some p \<longrightarrow> p \<in> set P)"

text \<open>The node is started and has its data edges.\<close>

lemma started:
  assumes ready: "ready_for pb P stack parent prev"
    and node: "begin_node sha256 node parent prev pb = (v, pb1)"
    and pb2: "pb2 = fold (add_edge Data v) (data_sources uni node (quote_refs pb1) stack) pb1"
  shows "v = length (pb_nodes pb)" "length (pb_nodes pb2) = Suc v"
    "map node_kind (pb_nodes pb2) = map node_kind (pb_nodes pb) @ [plan_kind sha256 node]"
    "plan_inv pb2 P stack" "preds (pairs pb2) v \<subseteq> set P"
    "w \<noteq> v \<Longrightarrow> preds (pairs pb2) w = preds (pairs pb) w \<union> (if parent = Some w then {v} else {})"
proof -
  show v: "v = length (pb_nodes pb)" using node by (simp add: begin_node_def Let_def)
  let ?pb = "pb\<lparr>pb_nodes := pb_nodes pb @ [\<lparr>node_id = v, node_kind = plan_kind sha256 node\<rparr>]\<rparr>"
  let ?pb' = "case parent of None \<Rightarrow> ?pb | Some p \<Rightarrow> add_edge Structural p v ?pb"
  have pb1: "pb1 = (case prev of None \<Rightarrow> ?pb' | Some s \<Rightarrow> add_edge Sequence v s ?pb')"
    using node by (auto simp: begin_node_def Let_def)
  have inv: "plan_inv pb P stack" and par: "\<And>p. parent = Some p \<Longrightarrow> p \<notin> set P \<and> p < v"
    and prv: "\<And>p. prev = Some p \<Longrightarrow> p \<in> set P"
    using ready v by (auto simp: ready_for_def)
  have P: "set P \<subseteq> {..<v}" "v \<notin> set P" using inv v by (auto simp: plan_inv_def)
  have ok: "builder_ok ?pb" using inv v by (simp add: plan_inv_def builder_ok_def)
  have no_v: "preds (pairs pb) v = {}"
    using inv v by (auto simp: plan_inv_def edges_within_def list_all_iff preds_def)
  have ok1: "builder_ok pb1" using ok by (auto simp: pb1 split: option.splits)
  have nodes1: "pb_nodes pb1 = pb_nodes pb @ [\<lparr>node_id = v, node_kind = plan_kind sha256 node\<rparr>]"
    by (auto simp: pb1 split: option.splits)
  have preds1: "preds (pairs pb1) w = preds (pairs pb) w \<union> (if parent = Some w then {v} else {}) \<union>
      (if w = v then set_option prev else {})" for w
    using ok by (auto simp: pb1 preds_add_edge split: option.splits)
  have sub: "set (data_sources uni node (quote_refs pb1) stack) \<subseteq> set P"
    using data_sources_bound inv by (fastforce simp: plan_inv_def)
  have within1: "edges_within (Suc v) (pairs pb1)"
    using inv v par prv P(1)
    by (auto simp: pb1 plan_inv_def intro!: within_add_edge split: option.splits
        intro: edges_within_mono [of v] less_SucI)
  note f = fold_add_edge [OF ok1, of Data v "data_sources uni node (quote_refs pb1) stack", folded pb2]
  show "length (pb_nodes pb2) = Suc v" using f nodes1 v by simp
  show "map node_kind (pb_nodes pb2) = map node_kind (pb_nodes pb) @ [plan_kind sha256 node]"
    using f nodes1 by simp
  have preds2: "preds (pairs pb2) w = preds (pairs pb) w \<union> (if parent = Some w then {v} else {}) \<union>
      (if w = v then set_option prev \<union> set (data_sources uni node (quote_refs pb1) stack) else {})" for w
    using f [of w] preds1 [of w] by auto
  show "preds (pairs pb2) v \<subseteq> set P"
    using preds2 [of v] sub prv par no_v by (auto split: if_splits)
  show "w \<noteq> v \<Longrightarrow> preds (pairs pb2) w = preds (pairs pb) w \<union> (if parent = Some w then {v} else {})"
    using preds2 [of w] by simp
  have mono: "preds (pairs pb2) w \<subseteq> preds (pairs pb) w" if "w \<in> set P" for w
    using preds2 [of w] that par P(2) by (auto split: if_splits)
  have "deps_first (pairs pb) P" using inv by (simp add: plan_inv_def)
  then have "deps_first (pairs pb2) P" using mono by (rule deps_first_mono)
  moreover have "edges_within (Suc v) (pairs pb2)"
    using f [of v "Suc v"] within1 sub P(1) by auto
  ultimately show "plan_inv pb2 P stack"
    using inv f nodes1 v P(1) by (auto simp: plan_inv_def)
qed

lemma extends_only_parent: "extends sha256 ns pb P parent vs pb' Q stack \<Longrightarrow> only_parent pb pb' (set Q) parent (set vs)"
  unfolding extends_def by blast

lemma extends_Nil: "plan_inv pb P stack \<Longrightarrow> extends sha256 [] pb P parent [] pb [] stack"
  by (simp add: extends_def flatten_for_plan_def only_parent_def)

text \<open>The children are completed, and then the node itself.\<close>

lemma completed:
  assumes start: "v = length (pb_nodes pb)" "length (pb_nodes pb2) = Suc v"
      "map node_kind (pb_nodes pb2) = map node_kind (pb_nodes pb) @ [plan_kind sha256 node]"
      "preds (pairs pb2) v \<subseteq> set P"
      "\<And>w. w \<noteq> v \<Longrightarrow> preds (pairs pb2) w = preds (pairs pb) w \<union> (if parent = Some w then {v} else {})"
    and P: "set P \<subseteq> {..<v}"
    and children: "extends sha256 cs pb2 P (Some v) vs pb3 Q stack'"
    and flat: "flatten_node_for_plan node = node # flatten_for_plan cs"
    and stack: "bound stack'' \<subseteq> insert v (bound stack')"
  shows "extends sha256 [node] pb P parent [v] pb3 (Q @ [v]) stack''"
proof -
  let ?n = "length (pb_nodes pb3)"
  have Q: "set Q = {Suc v..<?n}" "Suc v \<le> ?n" "set vs \<subseteq> set Q"
    and kinds: "map node_kind (pb_nodes pb3) =
      map node_kind (pb_nodes pb) @ map (plan_kind sha256) (flatten_for_plan [node])"
    and inv: "plan_inv pb3 (P @ Q) stack'"
    and op: "only_parent pb2 pb3 (set Q) (Some v) (set vs)"
    using children start(2,3) flat by (auto simp: extends_def flatten_for_plan_def)
  have v: "v \<notin> set Q" "v \<notin> set P" using Q(1) P by auto
  have "preds (pairs pb3) v \<subseteq> set (P @ Q)" using only_parentD [OF op v(1)] start(4) Q(3) by auto
  then have "plan_inv pb3 (P @ Q @ [v]) stack''"
    using inv stack v Q(2) deps_first_snoc [of "pairs pb3" "P @ Q" v]
    by (auto simp: plan_inv_def)
  moreover have "only_parent pb pb3 (set (Q @ [v])) parent {v}"
  proof (rule only_parentI)
    fix w assume "w \<notin> set (Q @ [v])"
    then show "preds (pairs pb3) w \<subseteq> preds (pairs pb) w \<union> (if parent = Some w then {v} else {})"
      using only_parentD [OF op, of w] start(5) [of w] by auto
  qed
  moreover have "set (Q @ [v]) = {v..<?n}" using Q(1,2) by auto
  ultimately show ?thesis
    using Q(2) kinds start(1) by (simp add: extends_def)
qed

lemma extends_Cons:
  assumes "extends sha256 [n] pb P parent [v] pb1 Q1 stack1"
    and "extends sha256 ns pb1 (P @ Q1) parent vs pb2 Q2 stack2"
  shows "extends sha256 (n # ns) pb P parent (v # vs) pb2 (Q1 @ Q2) stack2"
proof -
  have Q: "set Q1 = {length (pb_nodes pb)..<length (pb_nodes pb1)}" "length (pb_nodes pb) \<le> length (pb_nodes pb1)"
    "set Q2 = {length (pb_nodes pb1)..<length (pb_nodes pb2)}" "length (pb_nodes pb1) \<le> length (pb_nodes pb2)"
    "v \<in> set Q1" "set vs \<subseteq> set Q2" "distinct vs"
    using assms by (auto simp: extends_def)
  have "only_parent pb pb2 (set Q1 \<union> set Q2) parent ({v} \<union> set vs)"
    using only_parent_trans [OF extends_only_parent [OF assms(1)] extends_only_parent [OF assms(2)]] by simp
  moreover have "set (Q1 @ Q2) = {length (pb_nodes pb)..<length (pb_nodes pb2)}" using Q(1-4) by auto
  moreover have "distinct (v # vs)" using Q by auto
  moreover have "set (v # vs) \<subseteq> set (Q1 @ Q2)" using Q(5,6) by auto
  ultimately show ?thesis
    using assms Q(2,4) by (simp add: extends_def flatten_for_plan_def)
qed

definition adds :: "(string \<Rightarrow> bool) \<Rightarrow> (bytes \<Rightarrow> string) \<Rightarrow> OIr \<Rightarrow> bool" where
  "adds uni sha256 node \<longleftrightarrow>
     (\<forall>pb P stack parent prev v pb' stack'.
        ready_for pb P stack parent prev \<longrightarrow> add_node uni sha256 node pb stack parent prev = (v, pb', stack') \<longrightarrow>
        (\<exists>Q. extends sha256 [node] pb P parent [v] pb' Q stack'))"

lemma addsD:
  "adds uni sha256 node \<Longrightarrow> ready_for pb P stack parent prev \<Longrightarrow>
   add_node uni sha256 node pb stack parent prev = (v, pb', stack') \<Longrightarrow>
   \<exists>Q. extends sha256 [node] pb P parent [v] pb' Q stack'"
  by (simp add: adds_def)

lemma add_siblings_extends:
  assumes "\<forall>n \<in> set ns. adds uni sha256 n" "ready_for pb P stack parent prev"
    "add_siblings uni sha256 ns pb stack parent prev = (vs, pb', stack')"
  shows "\<exists>Q. extends sha256 ns pb P parent vs pb' Q stack'"
  using assms
proof (induction ns arbitrary: pb P stack prev vs)
  case Nil
  then show ?case using extends_Nil [of pb P stack sha256 parent] by (auto simp: ready_for_def)
next
  case (Cons n ns)
  obtain v pb1 stack1 vs' where one: "add_node uni sha256 n pb stack parent prev = (v, pb1, stack1)"
    and rest: "add_siblings uni sha256 ns pb1 stack1 parent (Some v) = (vs', pb', stack')" and vs: "vs = v # vs'"
    using Cons.prems(3) by (auto split: prod.splits)
  obtain Q1 where Q1: "extends sha256 [n] pb P parent [v] pb1 Q1 stack1"
    using addsD [OF _ Cons.prems(2) one] Cons.prems(1) by auto
  have "ready_for pb1 (P @ Q1) stack1 parent (Some v)"
    using Q1 Cons.prems(2) by (auto simp: ready_for_def extends_def)
  then obtain Q2 where "extends sha256 ns pb1 (P @ Q1) parent vs' pb' Q2 stack'"
    using Cons.IH Cons.prems(1) rest by fastforce
  then show ?case using extends_Cons [OF Q1] vs by blast
qed

lemma note_quote_simps [simp]:
  "pb_nodes (note_quote uni v e pb) = pb_nodes pb" "pb_edges (note_quote uni v e pb) = pb_edges pb"
  "edge_membership (note_quote uni v e pb) = edge_membership pb"
  by (auto simp: note_quote_def Let_def split: OIr.splits prod.splits)

lemma plan_inv_note_quote [simp]: "plan_inv (note_quote uni v e pb) P stack = plan_inv pb P stack"
  by (simp add: plan_inv_def builder_ok_def)

lemma plan_inv_push [simp]: "plan_inv pb P ([] # stack) = plan_inv pb P stack"
  by (simp add: plan_inv_def)

text \<open>An instruction with the children \<open>cs\<close>, whose subtree is added by \<open>add_siblings\<close>.\<close>

lemma ready_for_children:
  assumes "ready_for pb P stack parent prev" "begin_node sha256 node parent prev pb = (v, pb1)"
    "pb2 = fold (add_edge Data v) (data_sources uni node (quote_refs pb1) stack) pb1"
  shows "ready_for pb2 P ([] # stack) (Some v) None" "set P \<subseteq> {..<v}"
proof -
  note st = started [OF assms]
  have "plan_inv pb P stack" using assms(1) by (simp add: ready_for_def)
  then show P: "set P \<subseteq> {..<v}" using st(1) by (simp add: plan_inv_def)
  show "ready_for pb2 P ([] # stack) (Some v) None"
    using st(2,4) P by (auto simp: ready_for_def)
qed

lemma parent_extends:
  assumes ready: "ready_for pb P stack parent prev" and node: "begin_node sha256 node parent prev pb = (v, pb1)"
    and pb2: "pb2 = fold (add_edge Data v) (data_sources uni node (quote_refs pb1) stack) pb1"
    and cs: "extends sha256 cs (note_quote uni v e pb2) P (Some v) vs pb3 Q stack'"
      "flatten_node_for_plan node = node # flatten_for_plan cs" "bound stack'' \<subseteq> insert v (bound stack')"
  shows "extends sha256 [node] pb P parent [v] pb3 (Q @ [v]) stack''"
proof -
  note st = started [OF ready node pb2]
  have "extends sha256 cs (note_quote uni v e pb2) P (Some v) vs pb3 Q stack' =
      extends sha256 cs pb2 P (Some v) vs pb3 Q stack'"
    by (simp only: extends_def only_parent_def note_quote_simps)
  then have ext: "extends sha256 cs pb2 P (Some v) vs pb3 Q stack'" using cs(1) by simp
  show ?thesis
    by (rule completed [OF st(1-3) st(5,6) ready_for_children(2) [OF ready node pb2] ext cs(2,3)])
qed

lemma note_quote_Text [simp]: "note_quote uni v (Text t) pb = pb"
  by (simp add: note_quote_def)

lemma leaf_adds:
  assumes flat: "flatten_node_for_plan node = [node]"
    and eq: "\<And>pb stack parent prev. add_node uni sha256 node pb stack parent prev =
      (let (v, pb1) = begin_node sha256 node parent prev pb in
       (v, fold (add_edge Data v) (data_sources uni node (quote_refs pb1) stack) pb1, stack))"
  shows "adds uni sha256 node"
  unfolding adds_def
proof (intro allI impI)
  fix pb P stack parent prev v pb' stack'
  assume ready: "ready_for pb P stack parent prev"
    and add: "add_node uni sha256 node pb stack parent prev = (v, pb', stack')"
  obtain pb1 where node: "begin_node sha256 node parent prev pb = (v, pb1)" and st: "stack' = stack"
    and pb2: "pb' = fold (add_edge Data v) (data_sources uni node (quote_refs pb1) stack) pb1"
    using add by (auto simp: eq split: prod.splits)
  have "plan_inv pb' P stack" by (rule started(4) [OF ready node pb2])
  then have ext: "extends sha256 [] (note_quote uni v (Text []) pb') P (Some v) [] pb' [] stack"
    using extends_Nil by simp
  have "flatten_node_for_plan node = node # flatten_for_plan []" "bound stack' \<subseteq> insert v (bound stack)"
    using flat st by (auto simp: flatten_for_plan_def)
  from parent_extends [OF ready node pb2 ext this]
  show "\<exists>Q. extends sha256 [node] pb P parent [v] pb' Q stack'" by blast
qed

lemma inner_adds:
  assumes flat: "flatten_node_for_plan node = node # flatten_for_plan cs"
    and eq: "\<And>pb stack parent prev. add_node uni sha256 node pb stack parent prev =
      (let (v, pb1) = begin_node sha256 node parent prev pb;
           (_, pb3, stack') = add_siblings uni sha256 cs
             (fold (add_edge Data v) (data_sources uni node (quote_refs pb1) stack) pb1) ([] # stack) (Some v) None in
       (v, pb3, tl stack'))"
    and cs: "\<forall>c \<in> set cs. adds uni sha256 c"
  shows "adds uni sha256 node"
  unfolding adds_def
proof (intro allI impI)
  fix pb P stack parent prev v pb' stack'
  assume ready: "ready_for pb P stack parent prev"
    and add: "add_node uni sha256 node pb stack parent prev = (v, pb', stack')"
  obtain pb1 pb2 vs st where node: "begin_node sha256 node parent prev pb = (v, pb1)"
    and pb2: "pb2 = fold (add_edge Data v) (data_sources uni node (quote_refs pb1) stack) pb1"
    and sib: "add_siblings uni sha256 cs pb2 ([] # stack) (Some v) None = (vs, pb', st)" and st: "stack' = tl st"
    using add by (auto simp: eq split: prod.splits)
  obtain Q where "extends sha256 cs pb2 P (Some v) vs pb' Q st"
    using add_siblings_extends [OF cs ready_for_children(1) [OF ready node pb2] sib] by blast
  then have "extends sha256 cs (note_quote uni v (Text []) pb2) P (Some v) vs pb' Q st" by simp
  moreover have "bound stack' \<subseteq> insert v (bound st)" using st bound_tl by auto
  ultimately show "\<exists>Q. extends sha256 [node] pb P parent [v] pb' Q stack'"
    using parent_extends [OF ready node pb2 _ flat] by blast
qed

lemma store_adds:
  assumes "adds uni sha256 e"
  shows "adds uni sha256 (Store name e)"
  unfolding adds_def
proof (intro allI impI)
  fix pb P stack parent prev v pb' stack'
  assume ready: "ready_for pb P stack parent prev"
    and add: "add_node uni sha256 (Store name e) pb stack parent prev = (v, pb', stack')"
  obtain pb1 pb2 u st where node: "begin_node sha256 (Store name e) parent prev pb = (v, pb1)"
    and pb2: "pb2 = fold (add_edge Data v) (data_sources uni (Store name e) (quote_refs pb1) stack) pb1"
    and sub: "add_node uni sha256 e (note_quote uni v e pb2) ([] # stack) (Some v) None = (u, pb', st)"
    and st: "stack' = bind_in name v (tl st)"
    using add by (subst (asm) add_node.simps) (auto split: prod.splits)
  have "ready_for (note_quote uni v e pb2) P ([] # stack) (Some v) None"
    using ready_for_children(1) [OF ready node pb2] by (simp add: ready_for_def)
  then obtain Q where Q: "extends sha256 [e] (note_quote uni v e pb2) P (Some v) [u] pb' Q st"
    using addsD [OF assms _ sub] by blast
  have "bound stack' \<subseteq> insert v (bound st)"
    using bound_bind_in [of name v "tl st"] bound_tl [of st] st by auto
  then show "\<exists>Q. extends sha256 [Store name e] pb P parent [v] pb' Q stack'"
    using parent_extends [OF ready node pb2 Q] by (auto simp: flatten_for_plan_def)
qed

lemma add_node_adds: "adds uni sha256 node"
proof (induction node)
  case (Text t)
  then show ?case by (rule leaf_adds) (simp_all add: add_node.simps Let_def case_prod_beta)
next
  case (Load name)
  then show ?case by (rule leaf_adds) (simp_all add: add_node.simps Let_def case_prod_beta)
next
  case (Store name e)
  then show ?case by (rule store_adds)
next
  case (Invoke fn_name mode args)
  then show ?case
    by (intro inner_adds [where cs = args])
      (simp_all add: add_node.simps [of uni sha256 "Invoke fn_name mode args"] Let_def case_prod_beta flatten_for_plan_def)
next
  case (NativeLeaf kind interface provenance descriptor args)
  then show ?case
    by (intro inner_adds [where cs = args])
      (simp_all add: add_node.simps [of uni sha256 "NativeLeaf kind interface provenance descriptor args"] Let_def
        case_prod_beta flatten_for_plan_def)
next
  case (Exec lang env_id attr backend body)
  let ?node = "Exec lang env_id attr backend body"
  show ?case
  proof (cases "is_quote_exec ?node")
    case True
    then show ?thesis
      by (intro leaf_adds) (simp_all add: add_node.simps [of uni sha256 ?node] Let_def case_prod_beta
          del: is_quote_exec.simps data_sources.simps)
  next
    case False
    then show ?thesis
      using Exec by (intro inner_adds [where cs = body])
        (simp_all add: add_node.simps [of uni sha256 ?node] Let_def case_prod_beta flatten_for_plan_def
          del: is_quote_exec.simps data_sources.simps)
  qed
qed

lemma plan_extends:
  obtains Q pb stack where "extends sha256 ns builder_new [] None (roots (plan uni sha256 ns)) pb Q stack"
    "nodes (plan uni sha256 ns) = pb_nodes pb" "edges (plan uni sha256 ns) = pb_edges pb"
proof -
  obtain rs pb stack where run: "add_siblings uni sha256 ns builder_new [[]] None None = (rs, pb, stack)"
    using prod_cases3 by blast
  have "ready_for builder_new [] [[]] None None"
    by (simp add: ready_for_def plan_inv_def builder_ok_def builder_new_def deps_first_def edges_within_def)
  then obtain Q where "extends sha256 ns builder_new [] None rs pb Q stack"
    using add_siblings_extends [OF _ _ run] add_node_adds by blast
  then show thesis using that run by (auto simp: plan_def finish_def)
qed

lemma plan_validates: "validate (plan uni sha256 ns) (length ns) = Inr ()"
proof -
  obtain Q pb stack where ext: "extends sha256 ns builder_new [] None (roots (plan uni sha256 ns)) pb Q stack"
    and p: "nodes (plan uni sha256 ns) = pb_nodes pb" "edges (plan uni sha256 ns) = pb_edges pb"
    using plan_extends [of sha256 ns uni] by metis
  let ?n = "length (pb_nodes pb)"
  have Q: "set Q = {..<?n}" "distinct Q" "deps_first (pairs pb) Q" "edges_within ?n (pairs pb)"
    and nodes: "map node_id (pb_nodes pb) = [0..<?n]"
    and rs: "set (roots (plan uni sha256 ns)) \<subseteq> set Q" "distinct (roots (plan uni sha256 ns))"
      "length (roots (plan uni sha256 ns)) = length ns"
    using ext by (auto simp: extends_def plan_inv_def builder_ok_def builder_new_def)
  have "acyclic (set (pairs pb))"
    using deps_first_acyclic [of ?n "pairs pb" Q] Q by (simp add: topo_order_def)
  then have "well_formed_plan (plan uni sha256 ns)"
    using Q rs nodes by (simp add: well_formed_plan_def p edge_pairs_def)
  then show ?thesis using rs(3) well_formed_validates by metis
qed

lemma plan_node_kinds:
  "map node_kind (nodes (plan uni sha256 ns)) = map (plan_kind sha256) (flatten_for_plan ns) \<and>
   map node_id (nodes (plan uni sha256 ns)) = [0..<length (flatten_for_plan ns)]"
proof -
  obtain Q pb stack where ext: "extends sha256 ns builder_new [] None (roots (plan uni sha256 ns)) pb Q stack"
    and p: "nodes (plan uni sha256 ns) = pb_nodes pb"
    using plan_extends [of sha256 ns uni] by metis
  then have kinds: "map node_kind (pb_nodes pb) = map (plan_kind sha256) (flatten_for_plan ns)"
    and ids: "map node_id (pb_nodes pb) = [0..<length (pb_nodes pb)]"
    by (auto simp: extends_def plan_inv_def builder_ok_def builder_new_def)
  have "length (pb_nodes pb) = length (flatten_for_plan ns)" using arg_cong [OF kinds, of length] by simp
  then show ?thesis using kinds ids by (simp add: p)
qed

section \<open>Properties\<close>

text \<open>C11: Every program has a valid plan: the plan that is built from any list of instructions passes
  validation for that number of instructions, so its dependencies are acyclic.\<close>

theorem built_plan_valid: "validate (plan uni sha256 ns) (length ns) = Inr ()"
  by (rule plan_validates)

text \<open>C26: The nodes of a built plan are the executable instructions in preorder, so plan node \<open>i\<close> is the
  kind of the \<open>i\<close>-th instruction that \<open>flatten_for_plan\<close> lists.\<close>

theorem built_plan_nodes:
  "map node_kind (nodes (plan uni sha256 ns)) = map (plan_kind sha256) (flatten_for_plan ns) \<and>
   map node_id (nodes (plan uni sha256 ns)) = [0..<length (flatten_for_plan ns)]"
  by (rule plan_node_kinds)

end
