(* ===== verification/Plan_Scope.thy ===== *)
theory Plan_Scope
  imports Plan_Builder_Correct
begin

text \<open>
  What a block receives and what a data edge means: the bindings of a shim block are exactly the visible
  ones that its body references, through quoted bodies transitively, and every data edge of a built
  plan comes from a binding.
\<close>

section \<open>References through quoted bodies\<close>

inductive_set reached ::
  "(string \<times> nat) list \<Rightarrow> (nat \<rightharpoonup> quote_references) \<Rightarrow> string set \<Rightarrow> string set"
  for visible quotes tokens where
  token: "t \<in> tokens \<Longrightarrow> t \<in> reached visible quotes tokens"
| quoted: "n \<in> reached visible quotes tokens \<Longrightarrow> (n, s) \<in> set visible \<Longrightarrow> quotes s = Some refs \<Longrightarrow> t \<in> fst refs \<Longrightarrow>
    t \<in> reached visible quotes tokens"

lemma reached_least:
  assumes "tokens \<subseteq> T"
    "\<And>n s refs. n \<in> T \<Longrightarrow> (n, s) \<in> set visible \<Longrightarrow> quotes s = Some refs \<Longrightarrow> fst refs \<subseteq> T"
  shows "reached visible quotes tokens \<subseteq> T"
proof
  fix t assume "t \<in> reached visible quotes tokens"
  then show "t \<in> T" using assms by induction blast+
qed

lemma reached_grow:
  assumes "tokens' \<subseteq> reached visible quotes tokens"
  shows "reached visible quotes tokens' \<subseteq> reached visible quotes tokens"
  using assms by (rule reached_least) (blast intro: quoted)

definition quoted_tokens :: "(nat \<rightharpoonup> quote_references) \<Rightarrow> nat \<Rightarrow> string set" where
  "quoted_tokens quotes s = (case quotes s of None \<Rightarrow> {} | Some refs \<Rightarrow> fst refs)"

definition quoted_scope :: "(nat \<rightharpoonup> quote_references) \<Rightarrow> nat \<Rightarrow> bool" where
  "quoted_scope quotes s = (case quotes s of None \<Rightarrow> False | Some refs \<Rightarrow> snd refs)"

lemma expand_quotes_spec:
  assumes "expand_quotes visible quotes expanded tokens o_scope = (T, b)"
    and "\<And>s. s \<in> expanded \<Longrightarrow> quoted_tokens quotes s \<subseteq> tokens \<and> (quoted_scope quotes s \<longrightarrow> o_scope)"
  shows "T = reached visible quotes tokens \<and>
    (b \<longleftrightarrow> o_scope \<or> (\<exists>n s. (n, s) \<in> set visible \<and> n \<in> T \<and> quoted_scope quotes s))"
  using assms
proof (induction visible quotes expanded tokens o_scope arbitrary: T b rule: expand_quotes.induct)
  case (1 visible quotes expanded tokens o_scope)
  define pending where
    "pending = map snd (filter (\<lambda>(name, source). name \<in> tokens \<and> source \<notin> expanded) visible)"
  show ?case
  proof (cases "pending = []")
    case True
    then have T: "T = tokens" "b = o_scope"
      using "1.prems"(1) by (simp_all add: expand_quotes.simps [of visible] pending_def [symmetric])
    have fin: "s \<in> expanded" if "(n, s) \<in> set visible" "n \<in> tokens" for n s
      using True that by (force simp: pending_def filter_empty_conv)
    have "reached visible quotes tokens \<subseteq> tokens"
    proof (rule reached_least)
      fix n s refs assume "n \<in> tokens" "(n, s) \<in> set visible" "quotes s = Some refs"
      then show "fst refs \<subseteq> tokens"
        using "1.prems"(2) [OF fin, of n s] by (simp add: quoted_tokens_def)
    qed simp
    then show ?thesis using T fin "1.prems"(2) by (auto intro: token)
  next
    case False
    let ?tokens = "tokens \<union> (\<Union>s \<in> set pending. quoted_tokens quotes s)"
    let ?o = "o_scope \<or> list_ex (quoted_scope quotes) pending"
    have mem: "\<exists>n. (n, s) \<in> set visible \<and> n \<in> tokens" if "s \<in> set pending" for s
      using that by (auto simp: pending_def)
    have step: "expand_quotes visible quotes (expanded \<union> set pending) ?tokens ?o = (T, b)"
      using "1.prems"(1) False
      by (simp add: expand_quotes.simps [of visible quotes expanded tokens] pending_def [symmetric]
          quoted_tokens_def [abs_def] quoted_scope_def [abs_def])
    have "T = reached visible quotes ?tokens \<and>
        (b \<longleftrightarrow> ?o \<or> (\<exists>n s. (n, s) \<in> set visible \<and> n \<in> T \<and> quoted_scope quotes s))"
      using "1.IH" [of pending T b] False step "1.prems"(2)
      by (force simp: pending_def [symmetric] quoted_tokens_def [abs_def] quoted_scope_def [abs_def] list_ex_iff)
    moreover have "?tokens \<subseteq> reached visible quotes tokens"
    proof -
      have "t \<in> reached visible quotes tokens" if s: "s \<in> set pending" and t: "t \<in> quoted_tokens quotes s" for s t
      proof -
        obtain n where "(n, s) \<in> set visible" "n \<in> tokens" using mem [OF s] by blast
        moreover obtain refs where "quotes s = Some refs" "t \<in> fst refs"
          using t by (auto simp: quoted_tokens_def split: option.splits)
        ultimately show ?thesis by (blast intro: token quoted)
      qed
      then show ?thesis by (auto intro: token)
    qed
    then have "reached visible quotes ?tokens = reached visible quotes tokens"
      using reached_grow [of ?tokens visible quotes tokens] reached_grow [of tokens visible quotes ?tokens]
      by (auto intro: token)
    moreover have "list_ex (quoted_scope quotes) pending \<longrightarrow>
        (\<exists>n s. (n, s) \<in> set visible \<and> n \<in> reached visible quotes tokens \<and> quoted_scope quotes s)"
      using mem unfolding list_ex_iff by (meson reached.token)
    ultimately show ?thesis by auto
  qed
qed

section \<open>Visible bindings\<close>

abbreviation scopes_ok :: "scope list \<Rightarrow> bool" where
  "scopes_ok stack \<equiv> list_all (\<lambda>s. distinct (map fst s)) stack"

lemma visible_lookup:
  assumes "scopes_ok stack"
  shows "(n, v) \<in> set (visible_bindings seen stack) \<longleftrightarrow> n \<notin> seen \<and> scope_lookup stack n = Some v"
  using assms
proof (induction seen stack rule: visible_bindings.induct)
  case (2 seen s ss)
  have IH: "(n, v) \<in> set (visible_bindings (seen \<union> fst ` set s) ss) \<longleftrightarrow>
      n \<notin> seen \<union> fst ` set s \<and> scope_lookup ss n = Some v"
    using 2 by simp
  show ?case
  proof (cases "map_of s n")
    case None
    then have "n \<notin> fst ` set s" by (simp add: map_of_eq_None_iff)
    moreover from this have "(n, v) \<notin> set s" by force
    ultimately show ?thesis using None IH by auto
  next
    case (Some w)
    then have "n \<in> fst ` set s" by (force dest: map_of_SomeD)
    moreover have "(n, v) \<in> set s \<longleftrightarrow> v = w"
      using Some 2(2) map_of_eq_Some_iff [of s n v] by auto
    ultimately show ?thesis using Some IH by auto
  qed
qed simp

lemma sources_named_iff:
  assumes "scopes_ok stack"
  shows "v \<in> set (sources_named P stack) \<longleftrightarrow> (\<exists>n. P n \<and> scope_lookup stack n = Some v)"
proof -
  have "v \<in> set (sources_named P stack) \<longleftrightarrow> (\<exists>n. P n \<and> (n, v) \<in> set (visible_bindings {} stack))"
    by (force simp: sources_named_def)
  then show ?thesis by (simp add: visible_lookup [OF assms])
qed

section \<open>Typed edges\<close>

text \<open>A data edge comes from a binding, and the data edge into a load from a binding of its name.\<close>

definition edge_typed :: "PlanNodeKind list \<Rightarrow> plan_edge \<Rightarrow> bool" where
  "edge_typed K e \<longleftrightarrow> edge_from e < length K \<and> edge_to e < length K \<and>
     (edge_kind e = Data \<longrightarrow>
       (\<exists>n. K ! edge_from e = StoreNode n \<and> (\<forall>m. K ! edge_to e = LoadNode m \<longrightarrow> m = n)))"

definition data_edge_typed :: "execution_plan \<Rightarrow> plan_edge \<Rightarrow> bool" where
  "data_edge_typed p e \<longleftrightarrow>
     (edge_kind e = Data \<longrightarrow>
       (\<exists>n. node_kind (nodes p ! edge_from e) = StoreNode n \<and>
          (\<forall>m. node_kind (nodes p ! edge_to e) = LoadNode m \<longrightarrow> m = n)))"

definition binding_typed :: "PlanNodeKind list \<Rightarrow> string \<times> nat \<Rightarrow> bool" where
  "binding_typed K b \<longleftrightarrow> snd b < length K \<and> K ! snd b = StoreNode (fst b)"

definition typed :: "PlanNodeKind list \<Rightarrow> plan_edge list \<Rightarrow> scope list \<Rightarrow> bool" where
  "typed K es stack \<longleftrightarrow> (\<forall>e \<in> set es. edge_typed K e) \<and> (\<forall>s \<in> set stack. \<forall>b \<in> set s. binding_typed K b)"

abbreviation kinds :: "plan_builder \<Rightarrow> PlanNodeKind list" where
  "kinds pb \<equiv> map node_kind (pb_nodes pb)"

lemma typed_append: "typed K es stack \<Longrightarrow> typed (K @ L) es stack"
  by (fastforce simp: typed_def edge_typed_def binding_typed_def nth_append)

lemma typed_scopes [simp]: "typed K es ([] # stack) = typed K es stack"
  by (simp add: typed_def)

lemma typed_tl: "typed K es stack \<Longrightarrow> typed K es (tl stack)"
  by (cases stack) (auto simp: typed_def)

lemma typed_bind_in:
  assumes "typed K es stack" "v < length K" "K ! v = StoreNode name"
  shows "typed K es (bind_in name v stack)"
proof (cases stack)
  case (Cons s ss)
  have "set (AList.update name v s) \<subseteq> insert (name, v) (set s)"
    by (induction s) auto
  then show ?thesis using assms Cons by (fastforce simp: typed_def binding_typed_def)
qed (use assms in simp)

lemma typed_add_edge:
  assumes "typed K (pb_edges pb) stack" "edge_typed K \<lparr>edge_from = u, edge_to = v, edge_kind = k\<rparr>"
  shows "typed K (pb_edges (add_edge k v u pb)) stack"
  using assms by (auto simp: add_edge_def typed_def)

lemma typed_fold_add_edge:
  assumes "typed K (pb_edges pb) stack"
    "\<forall>u \<in> set us. edge_typed K \<lparr>edge_from = u, edge_to = v, edge_kind = k\<rparr>"
  shows "typed K (pb_edges (fold (add_edge k v) us pb)) stack \<and> pb_nodes (fold (add_edge k v) us pb) = pb_nodes pb"
  using assms by (induction us arbitrary: pb) (simp_all add: typed_add_edge)

lemma bound_typed: "typed K es stack \<Longrightarrow> v \<in> bound stack \<Longrightarrow> v < length K \<and> (\<exists>n. K ! v = StoreNode n)"
  by (fastforce simp: typed_def bound_def binding_typed_def)

lemma lookup_typed: "typed K es stack \<Longrightarrow> scope_lookup stack n = Some v \<Longrightarrow> v < length K \<and> K ! v = StoreNode n"
proof (induction stack)
  case (Cons s ss)
  then show ?case
    by (cases "map_of s n") (force simp: typed_def binding_typed_def dest: map_of_SomeD)+
qed simp

lemma data_source_typed:
  assumes "typed K es stack" "u \<in> set (data_sources uni node quotes stack)" "v < length K" "K ! v = plan_kind sha256 node"
  shows "edge_typed K \<lparr>edge_from = u, edge_to = v, edge_kind = Data\<rparr>"
proof -
  have u: "u < length K" "\<exists>n. K ! u = StoreNode n"
    using bound_typed [OF assms(1)] data_sources_bound assms(2) by blast+
  have "m = n" if "K ! v = LoadNode m" "K ! u = StoreNode n" for m n
  proof (cases node)
    case (Load name)
    then show ?thesis
      using that assms lookup_typed [OF assms(1), of name u] by (auto split: option.splits)
  qed (use that assms(4) in \<open>auto split: InvokeMode.splits if_splits\<close>)
  then show ?thesis using u assms(3) by (auto simp: edge_typed_def)
qed

text \<open>The builder after an instruction or a list of them: it is typed, and the old nodes are kept.\<close>

definition grown :: "plan_builder \<Rightarrow> nat set \<Rightarrow> plan_builder \<Rightarrow> scope list \<Rightarrow> bool" where
  "grown pb vs pb' stack \<longleftrightarrow> typed (kinds pb') (pb_edges pb') stack \<and> (\<exists>M. kinds pb' = kinds pb @ M) \<and>
     (\<forall>v \<in> vs. v < length (pb_nodes pb'))"

lemma grown_length: "grown pb vs pb' stack \<Longrightarrow> length (pb_nodes pb) \<le> length (pb_nodes pb')"
  unfolding grown_def by (metis le_add1 length_append length_map)

lemma grown_trans:
  assumes "grown pb vs pb1 stack1" "grown pb1 ws pb2 stack2"
  shows "grown pb (vs \<union> ws) pb2 stack2"
  using assms grown_length [OF assms(2)] unfolding grown_def by auto

lemma started_typed:
  assumes "typed (kinds pb) (pb_edges pb) stack" "set_option parent \<union> set_option prev \<subseteq> {..<length (pb_nodes pb)}"
    and node: "begin_node sha256 node parent prev pb = (v, pb1)"
    and pb2: "pb2 = fold (add_edge Data v) (data_sources uni node (quote_refs pb1) stack) pb1"
  shows "v = length (pb_nodes pb)" "kinds pb2 = kinds pb @ [plan_kind sha256 node]" "grown pb {v} pb2 stack"
proof -
  show v: "v = length (pb_nodes pb)" using node by (simp add: begin_node_def Let_def)
  let ?pb = "pb\<lparr>pb_nodes := pb_nodes pb @ [\<lparr>node_id = v, node_kind = plan_kind sha256 node\<rparr>]\<rparr>"
  let ?pb' = "case parent of None \<Rightarrow> ?pb | Some p \<Rightarrow> add_edge Structural p v ?pb"
  have pb1: "pb1 = (case prev of None \<Rightarrow> ?pb' | Some s \<Rightarrow> add_edge Sequence v s ?pb')"
    using node by (auto simp: begin_node_def Let_def)
  have k1: "kinds pb1 = kinds pb @ [plan_kind sha256 node]" by (auto simp: pb1 split: option.splits)
  have "typed (kinds ?pb) (pb_edges ?pb) stack" using typed_append [OF assms(1)] by simp
  then have "typed (kinds ?pb') (pb_edges ?pb') stack"
    using assms(2) v by (auto split: option.splits intro!: typed_add_edge simp: edge_typed_def)
  then have t1: "typed (kinds pb1) (pb_edges pb1) stack"
    using assms(2) v by (auto simp: pb1 edge_typed_def intro!: typed_add_edge split: option.splits)
  have "\<forall>u \<in> set (data_sources uni node (quote_refs pb1) stack).
      edge_typed (kinds pb1) \<lparr>edge_from = u, edge_to = v, edge_kind = Data\<rparr>"
  proof
    fix u assume "u \<in> set (data_sources uni node (quote_refs pb1) stack)"
    then show "edge_typed (kinds pb1) \<lparr>edge_from = u, edge_to = v, edge_kind = Data\<rparr>"
      using k1 v by (intro data_source_typed [OF t1, of u uni node "quote_refs pb1" v sha256]) (simp_all add: nth_append)
  qed
  note f = typed_fold_add_edge [OF t1 this, folded pb2]
  show k2: "kinds pb2 = kinds pb @ [plan_kind sha256 node]" using f k1 by simp
  then have "length (pb_nodes pb2) = Suc v" using v by (metis length_append_singleton length_map)
  then show "grown pb {v} pb2 stack" using f k2 by (auto simp: grown_def)
qed

definition adds_typed :: "(string \<Rightarrow> bool) \<Rightarrow> (bytes \<Rightarrow> string) \<Rightarrow> OIr \<Rightarrow> bool" where
  "adds_typed uni sha256 node \<longleftrightarrow>
     (\<forall>pb stack parent prev v pb' stack'.
        typed (kinds pb) (pb_edges pb) stack \<longrightarrow>
        set_option parent \<union> set_option prev \<subseteq> {..<length (pb_nodes pb)} \<longrightarrow>
        add_node uni sha256 node pb stack parent prev = (v, pb', stack') \<longrightarrow> grown pb {v} pb' stack')"

lemma adds_typedD:
  "adds_typed uni sha256 node \<Longrightarrow> typed (kinds pb) (pb_edges pb) stack \<Longrightarrow>
   set_option parent \<union> set_option prev \<subseteq> {..<length (pb_nodes pb)} \<Longrightarrow>
   add_node uni sha256 node pb stack parent prev = (v, pb', stack') \<Longrightarrow> grown pb {v} pb' stack'"
  unfolding adds_typed_def by blast

lemma add_siblings_typed:
  assumes "\<forall>n \<in> set ns. adds_typed uni sha256 n" "typed (kinds pb) (pb_edges pb) stack"
    "set_option parent \<union> set_option prev \<subseteq> {..<length (pb_nodes pb)}"
    "add_siblings uni sha256 ns pb stack parent prev = (vs, pb', stack')"
  shows "grown pb (set vs) pb' stack'"
  using assms
proof (induction ns arbitrary: pb stack prev vs)
  case Nil
  then show ?case by (simp add: grown_def)
next
  case (Cons n ns)
  obtain v pb1 stack1 vs' where one: "add_node uni sha256 n pb stack parent prev = (v, pb1, stack1)"
    and rest: "add_siblings uni sha256 ns pb1 stack1 parent (Some v) = (vs', pb', stack')" and vs: "vs = v # vs'"
    using Cons.prems(4) by (auto split: prod.splits)
  have g1: "grown pb {v} pb1 stack1" using adds_typedD [OF _ Cons.prems(2,3) one] Cons.prems(1) by simp
  have "set_option parent \<union> set_option (Some v) \<subseteq> {..<length (pb_nodes pb1)}"
    using grown_length [OF g1] g1 Cons.prems(3) by (auto simp: grown_def)
  then have "grown pb1 (set vs') pb' stack'"
    using Cons.IH [OF _ _ _ rest] Cons.prems(1) g1 by (simp add: grown_def)
  then show ?case using grown_trans [OF g1] vs by simp
qed

lemma leaf_typed:
  assumes eq: "\<And>pb stack parent prev. add_node uni sha256 node pb stack parent prev =
      (let (v, pb1) = begin_node sha256 node parent prev pb in
       (v, fold (add_edge Data v) (data_sources uni node (quote_refs pb1) stack) pb1, stack))"
  shows "adds_typed uni sha256 node"
  using started_typed(3) by (force simp: adds_typed_def eq split: prod.splits)

lemma inner_typed:
  assumes eq: "\<And>pb stack parent prev. add_node uni sha256 node pb stack parent prev =
      (let (v, pb1) = begin_node sha256 node parent prev pb;
           (_, pb3, stack') = add_siblings uni sha256 cs
             (fold (add_edge Data v) (data_sources uni node (quote_refs pb1) stack) pb1) ([] # stack) (Some v) None in
       (v, pb3, tl stack'))"
    and cs: "\<forall>c \<in> set cs. adds_typed uni sha256 c"
  shows "adds_typed uni sha256 node"
  unfolding adds_typed_def
proof (intro allI impI)
  fix pb stack parent prev v pb' stack'
  assume t: "typed (kinds pb) (pb_edges pb) stack" "set_option parent \<union> set_option prev \<subseteq> {..<length (pb_nodes pb)}"
    and add: "add_node uni sha256 node pb stack parent prev = (v, pb', stack')"
  obtain pb1 pb2 vs st where node: "begin_node sha256 node parent prev pb = (v, pb1)"
    and pb2: "pb2 = fold (add_edge Data v) (data_sources uni node (quote_refs pb1) stack) pb1"
    and sib: "add_siblings uni sha256 cs pb2 ([] # stack) (Some v) None = (vs, pb', st)" and st: "stack' = tl st"
    using add by (auto simp: eq split: prod.splits)
  have g: "grown pb {v} pb2 stack" by (rule started_typed(3) [OF t node pb2])
  then have "grown pb2 (set vs) pb' st"
    using add_siblings_typed [OF cs _ _ sib] by (simp add: grown_def)
  from grown_trans [OF g this] show "grown pb {v} pb' stack'"
    using typed_tl st by (auto simp: grown_def)
qed

lemma store_typed:
  assumes "adds_typed uni sha256 e"
  shows "adds_typed uni sha256 (Store name e)"
  unfolding adds_typed_def
proof (intro allI impI)
  fix pb stack parent prev v pb' stack'
  assume t: "typed (kinds pb) (pb_edges pb) stack" "set_option parent \<union> set_option prev \<subseteq> {..<length (pb_nodes pb)}"
    and add: "add_node uni sha256 (Store name e) pb stack parent prev = (v, pb', stack')"
  obtain pb1 pb2 u st where node: "begin_node sha256 (Store name e) parent prev pb = (v, pb1)"
    and pb2: "pb2 = fold (add_edge Data v) (data_sources uni (Store name e) (quote_refs pb1) stack) pb1"
    and sub: "add_node uni sha256 e (note_quote uni v e pb2) ([] # stack) (Some v) None = (u, pb', st)"
    and st: "stack' = bind_in name v (tl st)"
    using add by (subst (asm) add_node.simps) (auto split: prod.splits)
  note s = started_typed [OF t node pb2]
  have "grown (note_quote uni v e pb2) {u} pb' st"
    using adds_typedD [OF assms _ _ sub] s(3) by (simp add: grown_def)
  then have "grown pb2 {u} pb' st" by (simp add: grown_def)
  from grown_trans [OF s(3) this] have g: "grown pb {v} pb' st" by (simp add: grown_def)
  obtain M where "kinds pb' = kinds pb2 @ M" using \<open>grown pb2 {u} pb' st\<close> by (auto simp: grown_def)
  then have "kinds pb' ! v = StoreNode name" using s(1,2) by (simp add: nth_append)
  then show "grown pb {v} pb' stack'"
    using g typed_bind_in [OF typed_tl, of "kinds pb'" "pb_edges pb'" st v name] st by (simp add: grown_def)
qed

lemma add_node_typed: "adds_typed uni sha256 node"
proof (induction node)
  case (Text t)
  then show ?case by (rule leaf_typed) (simp_all add: add_node.simps Let_def case_prod_beta)
next
  case (Load name)
  then show ?case by (rule leaf_typed) (simp_all add: add_node.simps Let_def case_prod_beta)
next
  case (Store name e)
  then show ?case by (rule store_typed)
next
  case (Invoke f mode args)
  then show ?case by (intro inner_typed [of _ _ _ args]) (simp_all add: add_node.simps Let_def case_prod_beta)
next
  case (NativeLeaf kind iface d sha args)
  then show ?case by (intro inner_typed [of _ _ _ args]) (simp_all add: add_node.simps Let_def case_prod_beta)
next
  case (Exec lang env_id attr backend body)
  let ?node = "Exec lang env_id attr backend body"
  show ?case
  proof (cases "is_quote_exec ?node")
    case True
    then show ?thesis
      by (intro leaf_typed) (simp_all add: add_node.simps [of uni sha256 ?node] Let_def case_prod_beta
          del: is_quote_exec.simps data_sources.simps)
  next
    case False
    then show ?thesis
      using Exec by (intro inner_typed [of _ _ _ body])
        (simp_all add: add_node.simps [of uni sha256 ?node] Let_def case_prod_beta
          del: is_quote_exec.simps data_sources.simps)
  qed
qed

section \<open>Properties\<close>

text \<open>C14: The bindings that a shim block receives are exactly the visible bindings whose names it references:
  for bash those of braced expansions, arithmetic and writable specials, for the other shells none,
  and for every other backend the tokens of the body with those of the quoted bodies they reach, or
  all visible bindings when a reached body reads \<open>O.scope\<close>.\<close>

theorem shim_receives_exactly:
  assumes "scopes_ok stack"
    and "collect_exec_references uni body = (tokens, o_scope, reflective)"
    and "T = reached (visible_bindings {} stack) quotes tokens"
  shows "v \<in> set (shim_scope_sources uni stack backend body quotes) \<longleftrightarrow>
    (\<exists>n. scope_lookup stack n = Some v \<and>
       (if bi_canonical backend = ''bash'' then n \<in> bash_references body
        else if bi_canonical backend \<in> set SHELL_BACKENDS then False
        else n \<in> T \<or> o_scope \<or> (\<exists>m s. scope_lookup stack m = Some s \<and> m \<in> T \<and> quoted_scope quotes s)))"
proof -
  obtain T' b where e: "expand_quotes (visible_bindings {} stack) quotes {} tokens o_scope = (T', b)"
    by fastforce
  from expand_quotes_spec [OF this]
  have "T' = T" "b \<longleftrightarrow> o_scope \<or> (\<exists>m s. scope_lookup stack m = Some s \<and> m \<in> T \<and> quoted_scope quotes s)"
    using assms(3) by (auto simp: visible_lookup [OF assms(1)])
  then show ?thesis
    using assms(2) e
    by (auto simp: shim_scope_sources_def visible_scope_sources_def Let_def SHELL_RECEIVES_REFERENCED_LETS_def
        REFLECTION_FULL_SCOPE_FALLBACK_def SHELL_BACKENDS_def sources_named_iff [OF assms(1)])
qed

definition sample_backend :: backend_interface where
  "sample_backend = \<lparr>bi_canonical = ''py'', bi_specification_sha256 = None, bi_pure = False, bi_renderer = PythonRenderer,
     bi_execution = Shim, bi_value_capabilities = UNKNOWN_CAPABILITIES, bi_state_support = None,
     bi_required_authorities = []\<rparr>"

theorem shim_receives_exactly_witness:
  "1 \<in> set (shim_scope_sources (\<lambda>_. False) [[(''q'', 0), (''x'', 1)], [(''y'', 2)]] sample_backend [Text ''q()'']
     [0 \<mapsto> ({''x''}, False)])"
proof -
  let ?stack = "[[(''q'', 0), (''x'', 1)], [(''y'', 2)]] :: scope list" and ?quotes = "[0 \<mapsto> ({''x''}, False)]"
  let ?T = "reached (visible_bindings {} ?stack) ?quotes {''q''}"
  have refs: "collect_exec_references (\<lambda>_. False) [Text ''q()''] = ({''q''}, False, False)" by code_simp
  have "''q'' \<in> ?T" by (rule reached.token) simp
  then have "''x'' \<in> ?T" by (rule reached.quoted [where s = 0 and refs = "({''x''}, False)"]) simp_all
  moreover have ok: "scopes_ok ?stack" and "scope_lookup ?stack ''x'' = Some 1"
    and "bi_canonical sample_backend \<noteq> ''bash''" "bi_canonical sample_backend \<notin> set SHELL_BACKENDS"
    by (simp_all add: sample_backend_def SHELL_BACKENDS_def)
  ultimately show ?thesis
    unfolding shim_receives_exactly [OF ok refs refl] by (intro exI [of _ "''x''"]) (simp only: if_False simp_thms)
qed

text \<open>C16: In a built plan every data edge comes from a binding, and a load is fed only by bindings of the name
  it loads.\<close>

theorem data_edges_typed: "list_all (data_edge_typed (plan uni sha256 ns)) (edges (plan uni sha256 ns))"
proof -
  obtain vs pb st where add: "add_siblings uni sha256 ns builder_new [[]] None None = (vs, pb, st)"
    by (metis prod_cases3)
  then have "grown builder_new (set vs) pb st"
    by (intro add_siblings_typed [OF _ _ _ add]) (simp_all add: add_node_typed builder_new_def typed_def)
  then have "\<forall>e \<in> set (edges (plan uni sha256 ns)). edge_typed (map node_kind (nodes (plan uni sha256 ns))) e"
    using add by (simp add: plan_def finish_def grown_def typed_def)
  then show ?thesis by (fastforce simp: list_all_iff edge_typed_def data_edge_typed_def)
qed

end
