(* ===== verification/Fidelity.thy ===== *)
theory Fidelity
  imports Prelude
begin

text \<open>
  Fidelity of value crossings (\<open>value.rs\<close>): the concrete judgments and their composition, the interval
  assessments of the solver with their information order, sequential composition and path merge, and
  that these are exact with respect to the concrete judgments an assessment stands for.
\<close>

section \<open>Concrete judgments\<close>

datatype AnnotationKind =
    TypeTag | NumericPrecision | NumericExactness | Encoding | Ordering | Identity | Constraint | Capability
  | Presentation | BackendSpecific string string

type_synonym losses = "AnnotationKind set"

datatype Fidelity = Lossless | Structural_loss losses | Native_capsule | Unsupported

text \<open>A loss set is never empty: its constructor refuses the empty set and its field is private.\<close>

definition loss_set_new :: "losses \<Rightarrow> losses option" where
  "loss_set_new lost = (if lost = {} then None else Some lost)"

definition fidelity_structural :: "losses \<Rightarrow> Fidelity" where
  "fidelity_structural lost = (case loss_set_new lost of Some l \<Rightarrow> Structural_loss l | None \<Rightarrow> Lossless)"

fun fidelity_compose :: "Fidelity \<Rightarrow> Fidelity \<Rightarrow> Fidelity" where
  "fidelity_compose Unsupported _ = Unsupported"
| "fidelity_compose _ Unsupported = Unsupported"
| "fidelity_compose Native_capsule _ = Native_capsule"
| "fidelity_compose _ Native_capsule = Native_capsule"
| "fidelity_compose Lossless other = other"
| "fidelity_compose other Lossless = other"
| "fidelity_compose (Structural_loss lost) (Structural_loss more) = fidelity_structural (lost \<union> more)"

fun canonical_fidelity :: "Fidelity \<Rightarrow> bool" where
  "canonical_fidelity (Structural_loss lost) \<longleftrightarrow> lost \<noteq> {}"
| "canonical_fidelity _ \<longleftrightarrow> True"

section \<open>Assessments\<close>

datatype FidelityAssessmentV2 =
  LosslessV2 | StructuralV2 "losses option" losses | NativeCapsuleV2 | UnsupportedV2

text \<open>\<open>DefiniteOutsidePossible\<close> is the error of the checked operations, \<open>FidelityPanic\<close> a failed \<open>expect\<close> or a
  reached \<open>unreachable!\<close>.\<close>

datatype fidelity_error = DefiniteOutsidePossible | FidelityPanic

definition losses_of :: "losses option \<Rightarrow> losses" where
  "losses_of d = (case d of None \<Rightarrow> {} | Some l \<Rightarrow> l)"

lemma losses_of_simps [simp]: "losses_of None = {}" "losses_of (Some l) = l"
  by (simp_all add: losses_of_def)

fun validate_assessment :: "FidelityAssessmentV2 \<Rightarrow> fidelity_error + unit" where
  "validate_assessment (StructuralV2 (Some definite) possible) =
     (if definite \<subseteq> possible then Inr () else Inl DefiniteOutsidePossible)"
| "validate_assessment _ = Inr ()"

definition assessment_structural :: "losses \<Rightarrow> losses \<Rightarrow> fidelity_error + FidelityAssessmentV2" where
  "assessment_structural definite possible =
     (if \<not> definite \<subseteq> possible then Inl DefiniteOutsidePossible
      else (case loss_set_new possible of
          None \<Rightarrow> Inr LosslessV2
        | Some p \<Rightarrow> Inr (StructuralV2 (loss_set_new definite) p)))"

fun from_concrete :: "Fidelity \<Rightarrow> FidelityAssessmentV2" where
  "from_concrete Lossless = LosslessV2"
| "from_concrete (Structural_loss lost) = StructuralV2 (Some lost) lost"
| "from_concrete Native_capsule = NativeCapsuleV2"
| "from_concrete Unsupported = UnsupportedV2"

fun contains_valid :: "FidelityAssessmentV2 \<Rightarrow> Fidelity \<Rightarrow> bool" where
  "contains_valid LosslessV2 Lossless \<longleftrightarrow> True"
| "contains_valid NativeCapsuleV2 Native_capsule \<longleftrightarrow> True"
| "contains_valid UnsupportedV2 Unsupported \<longleftrightarrow> True"
| "contains_valid (StructuralV2 definite possible) Lossless \<longleftrightarrow> definite = None"
| "contains_valid (StructuralV2 definite possible) (Structural_loss lost) \<longleftrightarrow>
     (case definite of None \<Rightarrow> True | Some required \<Rightarrow> required \<subseteq> lost) \<and> lost \<subseteq> possible"
| "contains_valid _ _ \<longleftrightarrow> False"

definition concretization_contains :: "FidelityAssessmentV2 \<Rightarrow> Fidelity \<Rightarrow> bool" where
  "concretization_contains a c = (if validate_assessment a \<noteq> Inr () then False else contains_valid a c)"

fun loss_bounds :: "FidelityAssessmentV2 \<Rightarrow> fidelity_error + (losses \<times> losses)" where
  "loss_bounds LosslessV2 = Inr ({}, {})"
| "loss_bounds (StructuralV2 definite possible) = Inr (losses_of definite, possible)"
| "loss_bounds _ = Inl FidelityPanic"

fun precision_leq_valid :: "FidelityAssessmentV2 \<Rightarrow> FidelityAssessmentV2 \<Rightarrow> fidelity_error + bool" where
  "precision_leq_valid NativeCapsuleV2 NativeCapsuleV2 = Inr True"
| "precision_leq_valid UnsupportedV2 UnsupportedV2 = Inr True"
| "precision_leq_valid NativeCapsuleV2 _ = Inr False"
| "precision_leq_valid UnsupportedV2 _ = Inr False"
| "precision_leq_valid _ NativeCapsuleV2 = Inr False"
| "precision_leq_valid _ UnsupportedV2 = Inr False"
| "precision_leq_valid left right =
     and_then (loss_bounds left) (\<lambda>(left_definite, left_possible).
     and_then (loss_bounds right) (\<lambda>(right_definite, right_possible).
       Inr (right_definite \<subseteq> left_definite \<and> left_possible \<subseteq> right_possible)))"

definition try_precision_leq :: "FidelityAssessmentV2 \<Rightarrow> FidelityAssessmentV2 \<Rightarrow> fidelity_error + bool" where
  "try_precision_leq a b =
     and_then (validate_assessment a) (\<lambda>_. and_then (validate_assessment b) (\<lambda>_. precision_leq_valid a b))"

text \<open>\<open>Result::expect\<close>.\<close>

definition expect :: "fidelity_error + 'a \<Rightarrow> fidelity_error + 'a" where
  "expect r = (case r of Inl _ \<Rightarrow> Inl FidelityPanic | Inr x \<Rightarrow> Inr x)"

lemma expect_simps [simp]: "expect (Inr x) = Inr x" "expect (Inl e) = Inl FidelityPanic"
  by (simp_all add: expect_def)

definition precision_leq :: "FidelityAssessmentV2 \<Rightarrow> FidelityAssessmentV2 \<Rightarrow> fidelity_error + bool" where
  "precision_leq a b = expect (try_precision_leq a b)"

fun then_valid :: "FidelityAssessmentV2 \<Rightarrow> FidelityAssessmentV2 \<Rightarrow> fidelity_error + FidelityAssessmentV2" where
  "then_valid UnsupportedV2 _ = Inr UnsupportedV2"
| "then_valid _ UnsupportedV2 = Inr UnsupportedV2"
| "then_valid NativeCapsuleV2 _ = Inr NativeCapsuleV2"
| "then_valid _ NativeCapsuleV2 = Inr NativeCapsuleV2"
| "then_valid LosslessV2 other = Inr other"
| "then_valid other LosslessV2 = Inr other"
| "then_valid (StructuralV2 definite possible) (StructuralV2 more_definite more_possible) =
     expect (assessment_structural (losses_of definite \<union> losses_of more_definite) (possible \<union> more_possible))"

definition try_then :: "FidelityAssessmentV2 \<Rightarrow> FidelityAssessmentV2 \<Rightarrow> fidelity_error + FidelityAssessmentV2" where
  "try_then a b = and_then (validate_assessment a) (\<lambda>_. and_then (validate_assessment b) (\<lambda>_. then_valid a b))"

definition fidelity_then :: "FidelityAssessmentV2 \<Rightarrow> FidelityAssessmentV2 \<Rightarrow> fidelity_error + FidelityAssessmentV2" where
  "fidelity_then a b = expect (try_then a b)"

fun join_paths_valid :: "FidelityAssessmentV2 \<Rightarrow> FidelityAssessmentV2 \<Rightarrow> fidelity_error + FidelityAssessmentV2" where
  "join_paths_valid UnsupportedV2 _ = Inr UnsupportedV2"
| "join_paths_valid _ UnsupportedV2 = Inr UnsupportedV2"
| "join_paths_valid NativeCapsuleV2 _ = Inr NativeCapsuleV2"
| "join_paths_valid _ NativeCapsuleV2 = Inr NativeCapsuleV2"
| "join_paths_valid left right =
     and_then (loss_bounds left) (\<lambda>(left_definite, left_possible).
     and_then (loss_bounds right) (\<lambda>(right_definite, right_possible).
       expect (assessment_structural (left_definite \<inter> right_definite) (left_possible \<union> right_possible))))"

definition try_join_paths ::
  "FidelityAssessmentV2 \<Rightarrow> FidelityAssessmentV2 \<Rightarrow> fidelity_error + FidelityAssessmentV2" where
  "try_join_paths a b =
     and_then (validate_assessment a) (\<lambda>_. and_then (validate_assessment b) (\<lambda>_. join_paths_valid a b))"

definition join_paths :: "FidelityAssessmentV2 \<Rightarrow> FidelityAssessmentV2 \<Rightarrow> fidelity_error + FidelityAssessmentV2" where
  "join_paths a b = expect (try_join_paths a b)"

fun possible_of :: "FidelityAssessmentV2 \<Rightarrow> Fidelity" where
  "possible_of LosslessV2 = Lossless"
| "possible_of (StructuralV2 _ possible) = fidelity_structural possible"
| "possible_of NativeCapsuleV2 = Native_capsule"
| "possible_of UnsupportedV2 = Unsupported"

definition try_possible_fidelity :: "FidelityAssessmentV2 \<Rightarrow> fidelity_error + Fidelity" where
  "try_possible_fidelity a = and_then (validate_assessment a) (\<lambda>_. Inr (possible_of a))"

definition possible_fidelity :: "FidelityAssessmentV2 \<Rightarrow> fidelity_error + Fidelity" where
  "possible_fidelity a = expect (try_possible_fidelity a)"

fun concrete_of :: "FidelityAssessmentV2 \<Rightarrow> fidelity_error + Fidelity option" where
  "concrete_of (StructuralV2 definite possible) =
     Inr (if definite = Some possible then Some (fidelity_structural possible) else None)"
| "concrete_of other = and_then (possible_fidelity other) (\<lambda>f. Inr (Some f))"

definition try_concrete_fidelity :: "FidelityAssessmentV2 \<Rightarrow> fidelity_error + Fidelity option" where
  "try_concrete_fidelity a = and_then (validate_assessment a) (\<lambda>_. concrete_of a)"

text \<open>An assessment whose loss sets are non-empty and whose bounds are ordered.\<close>

fun good_assessment :: "FidelityAssessmentV2 \<Rightarrow> bool" where
  "good_assessment (StructuralV2 definite possible) \<longleftrightarrow>
     definite \<noteq> Some {} \<and> possible \<noteq> {} \<and> losses_of definite \<subseteq> possible"
| "good_assessment _ \<longleftrightarrow> True"

section \<open>Intervals\<close>

text \<open>
  A canonical judgment is a loss set or one of the two sentinels; a good assessment is an interval of
  loss sets or one of the two sentinels.
\<close>

definition interval :: "losses \<Rightarrow> losses \<Rightarrow> FidelityAssessmentV2" where
  "interval D P = (if P = {} then LosslessV2 else StructuralV2 (loss_set_new D) P)"

lemma losses_of_new [simp]: "losses_of (loss_set_new D) = D"
  by (simp add: loss_set_new_def)

lemma canonical_cases:
  assumes "canonical_fidelity c"
  obtains (losses) L where "c = fidelity_structural L" | (native) "c = Native_capsule" | (unsupported) "c = Unsupported"
proof (cases c)
  case Lossless
  then show ?thesis using losses [of "{}"] by (simp add: fidelity_structural_def loss_set_new_def)
next
  case (Structural_loss L)
  then show ?thesis using assms losses [of L] by (simp add: fidelity_structural_def loss_set_new_def)
qed (use that in auto)

lemma good_cases:
  assumes "good_assessment a"
  obtains (interval) D P where "D \<subseteq> P" "a = interval D P" | (native) "a = NativeCapsuleV2" | (unsupported) "a = UnsupportedV2"
proof (cases a)
  case LosslessV2
  then show ?thesis using interval [of "{}" "{}"] by (simp add: interval_def)
next
  case (StructuralV2 d P)
  then have "a = interval (losses_of d) P" "losses_of d \<subseteq> P"
    using assms by (auto simp: interval_def loss_set_new_def losses_of_def split: option.splits)
  then show ?thesis using interval by blast
qed (use that in auto)

lemma canonical_structural [simp]: "canonical_fidelity (fidelity_structural L)"
  by (simp add: fidelity_structural_def loss_set_new_def)

lemma structural_inject [simp]: "fidelity_structural L = fidelity_structural M \<longleftrightarrow> L = M"
  by (auto simp: fidelity_structural_def loss_set_new_def split: if_splits)

lemma structural_not_sentinel [simp]:
  "fidelity_structural L \<noteq> Native_capsule" "fidelity_structural L \<noteq> Unsupported"
  "Native_capsule \<noteq> fidelity_structural L" "Unsupported \<noteq> fidelity_structural L"
  by (simp_all add: fidelity_structural_def loss_set_new_def)

lemma compose_structural [simp]:
  "fidelity_compose (fidelity_structural L) (fidelity_structural M) = fidelity_structural (L \<union> M)"
  by (simp add: fidelity_structural_def loss_set_new_def)

lemma compose_sentinels [simp]:
  "fidelity_compose (fidelity_structural L) Native_capsule = Native_capsule"
  "fidelity_compose Native_capsule (fidelity_structural L) = Native_capsule"
  "fidelity_compose c Unsupported = Unsupported"
  by (simp_all add: fidelity_structural_def loss_set_new_def) (cases c; simp)

lemma canonical_compose:
  "canonical_fidelity c \<Longrightarrow> canonical_fidelity d \<Longrightarrow> canonical_fidelity (fidelity_compose c d)"
  by (cases c rule: canonical_cases; cases d rule: canonical_cases) auto

lemma assessment_structural_interval [simp]: "D \<subseteq> P \<Longrightarrow> assessment_structural D P = Inr (interval D P)"
  by (simp add: assessment_structural_def interval_def loss_set_new_def)

lemma interval_good: "D \<subseteq> P \<Longrightarrow> good_assessment (interval D P)"
  by (simp add: interval_def loss_set_new_def)

lemma good_valid: "good_assessment a \<Longrightarrow> validate_assessment a = Inr ()"
  by (cases a rule: validate_assessment.cases) auto

lemma contains_interval [simp]:
  assumes "D \<subseteq> P"
  shows "concretization_contains (interval D P) (fidelity_structural L) \<longleftrightarrow> D \<subseteq> L \<and> L \<subseteq> P"
    "concretization_contains (interval D P) Native_capsule \<longleftrightarrow> False"
    "concretization_contains (interval D P) Unsupported \<longleftrightarrow> False"
  using assms good_valid [OF interval_good [OF assms]]
  by (auto simp: concretization_contains_def interval_def fidelity_structural_def loss_set_new_def)

lemma contains_sentinel [simp]:
  "concretization_contains NativeCapsuleV2 c \<longleftrightarrow> c = Native_capsule"
  "concretization_contains UnsupportedV2 c \<longleftrightarrow> c = Unsupported"
  by (cases c; simp add: concretization_contains_def)+

lemma loss_bounds_interval [simp]: "D \<subseteq> P \<Longrightarrow> loss_bounds (interval D P) = Inr (D, P)"
  by (auto simp: interval_def)

lemma interval_not_sentinel [simp]: "interval D P \<noteq> NativeCapsuleV2" "interval D P \<noteq> UnsupportedV2"
  by (simp_all add: interval_def)

lemma precision_leq_interval [simp]:
  assumes "D \<subseteq> P" "E \<subseteq> Q"
  shows "precision_leq_valid (interval D P) (interval E Q) = Inr (E \<subseteq> D \<and> P \<subseteq> Q)"
    "precision_leq_valid (interval D P) NativeCapsuleV2 = Inr False"
    "precision_leq_valid (interval D P) UnsupportedV2 = Inr False"
  using assms by (auto simp: interval_def)

lemma then_interval [simp]:
  assumes "D \<subseteq> P" "E \<subseteq> Q"
  shows "then_valid (interval D P) (interval E Q) = Inr (interval (D \<union> E) (P \<union> Q))"
    "then_valid (interval D P) NativeCapsuleV2 = Inr NativeCapsuleV2"
    "then_valid (interval D P) UnsupportedV2 = Inr UnsupportedV2"
proof -
  have sub: "D \<union> E \<subseteq> P \<union> Q" using assms by blast
  show "then_valid (interval D P) (interval E Q) = Inr (interval (D \<union> E) (P \<union> Q))"
  proof (cases "P = {} \<or> Q = {}")
    case False
    then have "then_valid (interval D P) (interval E Q) = expect (assessment_structural (D \<union> E) (P \<union> Q))"
      by (simp add: interval_def)
    then show ?thesis using assessment_structural_interval [OF sub] by simp
  qed (use assms in \<open>auto simp: interval_def\<close>)
qed (simp_all add: interval_def)

lemma join_interval [simp]:
  assumes "D \<subseteq> P" "E \<subseteq> Q"
  shows "join_paths_valid (interval D P) (interval E Q) = Inr (interval (D \<inter> E) (P \<union> Q))"
proof -
  have "D \<inter> E \<subseteq> P \<union> Q" using assms by blast
  from assessment_structural_interval [OF this] show ?thesis
    using assms by (auto simp: interval_def loss_set_new_def)
qed

lemma sentinel_interval [simp]:
  "precision_leq_valid NativeCapsuleV2 (interval D P) = Inr False"
  "precision_leq_valid UnsupportedV2 (interval D P) = Inr False"
  "then_valid NativeCapsuleV2 (interval D P) = Inr NativeCapsuleV2"
  by (simp_all add: interval_def)

text \<open>The judgments that an assessment stands for.\<close>

definition judgments :: "FidelityAssessmentV2 \<Rightarrow> Fidelity set" where
  "judgments a = {c. canonical_fidelity c \<and> concretization_contains a c}"

lemma judgments_sentinel [simp]: "judgments NativeCapsuleV2 = {Native_capsule}" "judgments UnsupportedV2 = {Unsupported}"
  by (auto simp: judgments_def)

lemma judgments_interval [simp]: "D \<subseteq> P \<Longrightarrow> judgments (interval D P) = fidelity_structural ` {L. D \<subseteq> L \<and> L \<subseteq> P}"
  by (auto simp: judgments_def elim: canonical_cases)

lemma judgments_nonempty: "good_assessment a \<Longrightarrow> judgments a \<noteq> {}"
  by (cases a rule: good_cases) auto

lemma interval_subset:
  assumes "D \<subseteq> P" "E \<subseteq> Q"
  shows "judgments (interval D P) \<subseteq> judgments (interval E Q) \<longleftrightarrow> E \<subseteq> D \<and> P \<subseteq> Q"
proof -
  have "inj fidelity_structural" by (simp add: inj_def)
  then have "judgments (interval D P) \<subseteq> judgments (interval E Q) \<longleftrightarrow> {L. D \<subseteq> L \<and> L \<subseteq> P} \<subseteq> {L. E \<subseteq> L \<and> L \<subseteq> Q}"
    using assms by (simp add: inj_image_subset_iff)
  then show ?thesis using assms by blast
qed

lemma interval_not_subset [simp]:
  "D \<subseteq> P \<Longrightarrow> \<not> judgments (interval D P) \<subseteq> {Native_capsule}" "D \<subseteq> P \<Longrightarrow> \<not> judgments (interval D P) \<subseteq> {Unsupported}"
  by auto

lemma interval_compose:
  assumes "D \<subseteq> P" "E \<subseteq> Q"
  shows "judgments (interval (D \<union> E) (P \<union> Q)) =
    {fidelity_compose c d |c d. c \<in> judgments (interval D P) \<and> d \<in> judgments (interval E Q)}" (is "?l = ?r")
proof
  show "?l \<subseteq> ?r"
  proof
    fix c assume "c \<in> ?l"
    moreover have "D \<union> E \<subseteq> P \<union> Q" using assms by blast
    ultimately obtain L where L: "c = fidelity_structural L" "D \<union> E \<subseteq> L" "L \<subseteq> P \<union> Q" by auto
    then have "c = fidelity_compose (fidelity_structural (L \<inter> P)) (fidelity_structural (L \<inter> Q))"
      by (simp add: Int_Un_distrib [symmetric] Int_absorb2)
    moreover have "fidelity_structural (L \<inter> P) \<in> judgments (interval D P)"
      "fidelity_structural (L \<inter> Q) \<in> judgments (interval E Q)"
      using assms L by auto
    ultimately show "c \<in> ?r" by blast
  qed
  have "D \<union> E \<subseteq> P \<union> Q" using assms by blast
  then show "?r \<subseteq> ?l" using assms by auto
qed

section \<open>Properties\<close>

text \<open>C30: The information order on assessments is inclusion of the concrete judgments they stand for.\<close>

theorem precision_is_inclusion:
  assumes "good_assessment a" "good_assessment b"
  shows "try_precision_leq a b = Inr (judgments a \<subseteq> judgments b)"
proof -
  have "precision_leq_valid a b = Inr (judgments a \<subseteq> judgments b)"
    using assms(1)
  proof (cases a rule: good_cases)
    case (interval D P)
    then show ?thesis
      using assms(2) by (elim good_cases) (auto simp: interval_subset simp del: judgments_interval)
  qed (use assms(2) in \<open>auto elim!: good_cases\<close>)
  then show ?thesis using assms by (simp add: try_precision_leq_def good_valid)
qed

theorem precision_is_inclusion_witness:
  "try_precision_leq LosslessV2 (StructuralV2 None {TypeTag}) =
    Inr (judgments LosslessV2 \<subseteq> judgments (StructuralV2 None {TypeTag}))"
  by (rule precision_is_inclusion) simp_all

text \<open>C31: Sequential composition of assessments is exact: the result stands for exactly the compositions of the
  judgments that the two operands stand for.\<close>

theorem composition_exact:
  assumes "good_assessment a" "good_assessment b"
  shows "\<exists>r. try_then a b = Inr r \<and> good_assessment r \<and>
    judgments r = {fidelity_compose c d |c d. c \<in> judgments a \<and> d \<in> judgments b}"
proof -
  have "\<exists>r. then_valid a b = Inr r \<and> good_assessment r \<and>
    judgments r = {fidelity_compose c d |c d. c \<in> judgments a \<and> d \<in> judgments b}"
    using assms(1)
  proof (cases a rule: good_cases)
    case (interval D P)
    note a = this
    show ?thesis
      using assms(2)
    proof (cases b rule: good_cases)
      case (interval E Q)
      then show ?thesis
        using a interval_compose [OF a(1) interval(1)]
        by (auto intro!: exI [of _ "interval (D \<union> E) (P \<union> Q)"] interval_good simp del: judgments_interval)
    qed (use a in \<open>auto intro!: exI [of _ "fidelity_structural D"]\<close>)
  next
    case native
    show ?thesis
      using assms(2)
    proof (cases b rule: good_cases)
      case (interval E Q)
      then show ?thesis using native by (auto intro!: exI [of _ "fidelity_structural E"])
    qed (use native in auto)
  qed (use judgments_nonempty [OF assms(2)] in auto)
  then show ?thesis using assms by (simp add: try_then_def good_valid)
qed

theorem composition_exact_witness:
  "\<exists>r. try_then (StructuralV2 None {TypeTag}) (StructuralV2 (Some {Ordering}) {Ordering}) = Inr r \<and> good_assessment r \<and>
    judgments r = {fidelity_compose c d |c d. c \<in> judgments (StructuralV2 None {TypeTag}) \<and>
      d \<in> judgments (StructuralV2 (Some {Ordering}) {Ordering})}"
  by (rule composition_exact) simp_all

text \<open>C32: The merge of two paths that keep at least structure is their least upper bound in the information order.\<close>

theorem path_merge_least:
  assumes "good_assessment a" "good_assessment b" "good_assessment u"
    and "loss_bounds a = Inr x" "loss_bounds b = Inr y"
  shows "\<exists>r. try_join_paths a b = Inr r \<and> good_assessment r \<and>
    (judgments r \<subseteq> judgments u \<longleftrightarrow> judgments a \<union> judgments b \<subseteq> judgments u)"
proof -
  obtain D P where a: "D \<subseteq> P" "a = interval D P" using assms(1,4) by (elim good_cases) auto
  obtain E Q where b: "E \<subseteq> Q" "b = interval E Q" using assms(2,5) by (elim good_cases) auto
  let ?r = "interval (D \<inter> E) (P \<union> Q)"
  have r: "D \<inter> E \<subseteq> P \<union> Q" using a b by blast
  have "try_join_paths a b = Inr ?r" using assms(1,2) a b by (simp add: try_join_paths_def good_valid)
  moreover have "judgments ?r \<subseteq> judgments u \<longleftrightarrow> judgments a \<union> judgments b \<subseteq> judgments u"
    using assms(3) by (elim good_cases) (auto simp: interval_subset a b r simp del: judgments_interval)
  ultimately show ?thesis using interval_good [OF r] by blast
qed

theorem path_merge_least_witness:
  "\<exists>r. try_join_paths LosslessV2 (StructuralV2 (Some {Ordering}) {Ordering}) = Inr r \<and> good_assessment r \<and>
    (judgments r \<subseteq> judgments (StructuralV2 None {Ordering}) \<longleftrightarrow>
      judgments LosslessV2 \<union> judgments (StructuralV2 (Some {Ordering}) {Ordering}) \<subseteq> judgments (StructuralV2 None {Ordering}))"
  by (rule path_merge_least) simp_all

end
