(* ===== verification/World_Identity.thy ===== *)
theory World_Identity
  imports Rust_Str
begin

text \<open>
  Generation-bound identities of governed Worlds, \<^verbatim>\<open>crates/ostadix-api/src/world/identity.rs\<close>: validated
  names, non-zero generations that never wrap, the identities of worlds, governors, nodes, domains,
  processes, resources, objects, capabilities, tasks and artifacts, their display form, and the fences
  that accept a reference only when it is the current identity.
\<close>

section \<open>Names and generations\<close>

definition MAX_SIMPLE_ID_BYTES :: nat where
  "MAX_SIMPLE_ID_BYTES = 128"

definition MAX_RESOURCE_ID_BYTES :: nat where
  "MAX_RESOURCE_ID_BYTES = 256"

datatype WorldIdentityError =
    EmptyIdentifier string
  | IdentifierTooLong string nat
  | InvalidIdentifier string string
  | ZeroGeneration string
  | GenerationExhausted string
  | IdentityMismatch string string string
  | StaleGeneration string u64 u64
  | InvalidArtifactDigest

definition component_byte :: "char \<Rightarrow> bool" where
  "component_byte c \<longleftrightarrow> is_ascii_alphanumeric c \<or> c \<in> set ''._-+''"

definition validate_component :: "string \<Rightarrow> string \<Rightarrow> WorldIdentityError + unit" where
  "validate_component kind value =
     (if value = [] then Inl (EmptyIdentifier kind)
      else if length value > MAX_SIMPLE_ID_BYTES then Inl (IdentifierTooLong kind MAX_SIMPLE_ID_BYTES)
      else if value \<in> {''.'', ''..''} \<or> \<not> list_all component_byte value then Inl (InvalidIdentifier kind value)
      else Inr ())"

definition validate_resource_path :: "string \<Rightarrow> WorldIdentityError + unit" where
  "validate_resource_path value =
     (let kind = ''resource identity'' in
      if value = [] then Inl (EmptyIdentifier kind)
      else if length value > MAX_RESOURCE_ID_BYTES then Inl (IdentifierTooLong kind MAX_RESOURCE_ID_BYTES)
      else if hd value = CHR ''/'' \<or> last value = CHR ''/'' \<or>
        list_ex (\<lambda>component. component = [] \<or> component = ''.'' \<or> component = ''..'' \<or>
            \<not> is_ok (validate_component kind component)) (split_on (CHR ''/'') value)
      then Inl (InvalidIdentifier kind value)
      else Inr ())"

text \<open>The constructor of a \<open>string_identity!\<close> type with the given kind.\<close>

definition string_identity_new :: "string \<Rightarrow> string \<Rightarrow> WorldIdentityError + string" where
  "string_identity_new kind value = and_then (validate_component kind value) (\<lambda>_. Inr value)"

definition resource_id_new :: "string \<Rightarrow> WorldIdentityError + string" where
  "resource_id_new value = and_then (validate_resource_path value) (\<lambda>_. Inr value)"

definition artifact_from_sha256 :: "string \<Rightarrow> WorldIdentityError + string" where
  "artifact_from_sha256 value =
     (if length value \<noteq> SHA256_HEX_BYTES \<or> \<not> list_all is_lower_hex value then Inl InvalidArtifactDigest else Inr value)"

definition artifact_display :: "string \<Rightarrow> string" where
  "artifact_display a = ''sha256:'' @ a"

definition artifact_from_str :: "string \<Rightarrow> WorldIdentityError + string" where
  "artifact_from_str value =
     artifact_from_sha256 (if starts_with value ''sha256:'' then drop 7 value else value)"

text \<open>The constructor and the successor of a \<open>generation_identity!\<close> type with the given kind.\<close>

definition identity_generation_new :: "string \<Rightarrow> u64 \<Rightarrow> WorldIdentityError + u64" where
  "identity_generation_new kind value = (if value = 0 then Inl (ZeroGeneration kind) else Inr value)"

definition identity_generation_next :: "string \<Rightarrow> u64 \<Rightarrow> WorldIdentityError + u64" where
  "identity_generation_next kind g =
     (if g = - 1 then Inl (GenerationExhausted kind) else identity_generation_new kind (g + 1))"

definition show_u64 :: "u64 \<Rightarrow> string" where
  "show_u64 g = show_nat (unat g)"

section \<open>Identities\<close>

record world_identity =
  wi_world :: string
  wi_epoch :: u64

record governor_identity =
  gi_world :: world_identity
  gi_term :: u64
  gi_log_index :: u64

record node_identity =
  ni_world :: string
  ni_node :: string
  ni_generation :: u64

record domain_identity =
  di_node :: node_identity
  di_domain :: string
  di_generation :: u64

record process_identity =
  pi_domain :: domain_identity
  pi_process :: string
  pi_generation :: u64

datatype ResourceOwner =
    WorldOwner world_identity
  | NodeOwner node_identity
  | DomainOwner domain_identity
  | ProcessOwner process_identity

record resource_identity =
  ri_owner :: ResourceOwner
  ri_resource :: string
  ri_generation :: u64

record object_identity =
  oi_world :: string
  oi_object :: string
  oi_version :: u64

record capability_identity =
  ci_world :: string
  ci_capability :: string

record lease_identity =
  li_world :: string
  li_lease :: string

record task_identity =
  ti_world :: string
  ti_task :: string

record receipt_identity =
  rci_world :: string
  rci_receipt :: string

record attempt_identity =
  ai_world :: string
  ai_task :: string
  ai_attempt :: u64

record checkpoint_identity =
  chi_attempt :: attempt_identity
  chi_checkpoint :: string

record artifact_publication_identity =
  api_world :: world_identity
  api_artifact :: string

record kernel_world_binding =
  kb_domain :: domain_identity
  kb_kernel_world_name :: string
  kb_package :: string
  kb_provider_generation :: u64

definition from_descriptive_parts ::
  "domain_identity \<Rightarrow> string \<Rightarrow> string \<Rightarrow> u64 \<Rightarrow> WorldIdentityError + kernel_world_binding" where
  "from_descriptive_parts d kernel_world_name package_sha256 provider_generation =
     and_then (resource_id_new kernel_world_name) (\<lambda>name.
     if provider_generation = 0 then Inl (ZeroGeneration ''kernel world generation'')
     else and_then (artifact_from_sha256 package_sha256) (\<lambda>package.
       Inr \<lparr>kb_domain = d, kb_kernel_world_name = name, kb_package = package,
         kb_provider_generation = provider_generation\<rparr>))"

section \<open>Display\<close>

definition world_display :: "world_identity \<Rightarrow> string" where
  "world_display w = wi_world w @ ''@'' @ show_u64 (wi_epoch w)"

definition governor_display :: "governor_identity \<Rightarrow> string" where
  "governor_display g = world_display (gi_world g) @ ''/governor:term-'' @ show_u64 (gi_term g) @ ''@'' @
     show_u64 (gi_log_index g)"

definition node_display :: "node_identity \<Rightarrow> string" where
  "node_display n = ni_world n @ ''/node:'' @ ni_node n @ ''@'' @ show_u64 (ni_generation n)"

definition domain_display :: "domain_identity \<Rightarrow> string" where
  "domain_display d = node_display (di_node d) @ ''/domain:'' @ di_domain d @ ''@'' @ show_u64 (di_generation d)"

definition process_display :: "process_identity \<Rightarrow> string" where
  "process_display p = domain_display (pi_domain p) @ ''/process:'' @ pi_process p @ ''@'' @ show_u64 (pi_generation p)"

fun owner_display :: "ResourceOwner \<Rightarrow> string" where
  "owner_display (WorldOwner w) = world_display w"
| "owner_display (NodeOwner n) = node_display n"
| "owner_display (DomainOwner d) = domain_display d"
| "owner_display (ProcessOwner p) = process_display p"

fun owner_world :: "ResourceOwner \<Rightarrow> string" where
  "owner_world (WorldOwner w) = wi_world w"
| "owner_world (NodeOwner n) = ni_world n"
| "owner_world (DomainOwner d) = ni_world (di_node d)"
| "owner_world (ProcessOwner p) = ni_world (di_node (pi_domain p))"

definition resource_display :: "resource_identity \<Rightarrow> string" where
  "resource_display r = owner_display (ri_owner r) @ ''/resource:'' @ ri_resource r @ ''@'' @ show_u64 (ri_generation r)"

definition object_display :: "object_identity \<Rightarrow> string" where
  "object_display x = oi_world x @ ''/object:'' @ oi_object x @ ''@'' @ show_u64 (oi_version x)"

definition capability_display :: "capability_identity \<Rightarrow> string" where
  "capability_display c = ci_world c @ ''/capability:'' @ ci_capability c"

definition lease_display :: "lease_identity \<Rightarrow> string" where
  "lease_display l = li_world l @ ''/lease:'' @ li_lease l"

definition task_display :: "task_identity \<Rightarrow> string" where
  "task_display t = ti_world t @ ''/task:'' @ ti_task t"

definition receipt_display :: "receipt_identity \<Rightarrow> string" where
  "receipt_display r = rci_world r @ ''/receipt:'' @ rci_receipt r"

definition attempt_display :: "attempt_identity \<Rightarrow> string" where
  "attempt_display a = ai_world a @ ''/task:'' @ ai_task a @ ''@'' @ show_u64 (ai_attempt a)"

definition checkpoint_display :: "checkpoint_identity \<Rightarrow> string" where
  "checkpoint_display c = attempt_display (chi_attempt c) @ ''/checkpoint:'' @ chi_checkpoint c"

definition publication_display :: "artifact_publication_identity \<Rightarrow> string" where
  "publication_display a = world_display (api_world a) @ ''/artifact:'' @ artifact_display (api_artifact a)"

section \<open>Fences\<close>

definition require_same_logical :: "('a \<Rightarrow> string) \<Rightarrow> string \<Rightarrow> 'a \<Rightarrow> 'a \<Rightarrow> WorldIdentityError + unit" where
  "require_same_logical to_string kind expected got =
     (if expected = got then Inr () else Inl (IdentityMismatch kind (to_string expected) (to_string got)))"

definition require_generation :: "string \<Rightarrow> u64 \<Rightarrow> u64 \<Rightarrow> WorldIdentityError + unit" where
  "require_generation kind expected got = (if expected = got then Inr () else Inl (StaleGeneration kind expected got))"

definition world_require_current :: "world_identity \<Rightarrow> world_identity \<Rightarrow> WorldIdentityError + unit" where
  "world_require_current w r =
     and_then (require_same_logical id ''world'' (wi_world w) (wi_world r)) (\<lambda>_.
       require_generation ''world epoch'' (wi_epoch w) (wi_epoch r))"

definition governor_require_current :: "governor_identity \<Rightarrow> governor_identity \<Rightarrow> WorldIdentityError + unit" where
  "governor_require_current g r =
     and_then (world_require_current (gi_world g) (gi_world r)) (\<lambda>_.
     and_then (require_generation ''governor term'' (gi_term g) (gi_term r)) (\<lambda>_.
       require_generation ''governor log index'' (gi_log_index g) (gi_log_index r)))"

definition node_require_current :: "node_identity \<Rightarrow> node_identity \<Rightarrow> WorldIdentityError + unit" where
  "node_require_current n r =
     and_then (require_same_logical id ''world'' (ni_world n) (ni_world r)) (\<lambda>_.
     and_then (require_same_logical id ''node'' (ni_node n) (ni_node r)) (\<lambda>_.
       require_generation ''node generation'' (ni_generation n) (ni_generation r)))"

definition domain_require_current :: "domain_identity \<Rightarrow> domain_identity \<Rightarrow> WorldIdentityError + unit" where
  "domain_require_current d r =
     and_then (node_require_current (di_node d) (di_node r)) (\<lambda>_.
     and_then (require_same_logical id ''domain'' (di_domain d) (di_domain r)) (\<lambda>_.
       require_generation ''domain generation'' (di_generation d) (di_generation r)))"

definition process_require_current :: "process_identity \<Rightarrow> process_identity \<Rightarrow> WorldIdentityError + unit" where
  "process_require_current p r =
     and_then (domain_require_current (pi_domain p) (pi_domain r)) (\<lambda>_.
     and_then (require_same_logical id ''process'' (pi_process p) (pi_process r)) (\<lambda>_.
       require_generation ''process generation'' (pi_generation p) (pi_generation r)))"

fun owner_require_current :: "ResourceOwner \<Rightarrow> ResourceOwner \<Rightarrow> WorldIdentityError + unit" where
  "owner_require_current (WorldOwner w) (WorldOwner r) = world_require_current w r"
| "owner_require_current (NodeOwner n) (NodeOwner r) = node_require_current n r"
| "owner_require_current (DomainOwner d) (DomainOwner r) = domain_require_current d r"
| "owner_require_current (ProcessOwner p) (ProcessOwner r) = process_require_current p r"
| "owner_require_current x r = Inl (IdentityMismatch ''resource owner'' (owner_display x) (owner_display r))"

definition resource_require_current :: "resource_identity \<Rightarrow> resource_identity \<Rightarrow> WorldIdentityError + unit" where
  "resource_require_current x r =
     and_then (owner_require_current (ri_owner x) (ri_owner r)) (\<lambda>_.
     and_then (require_same_logical id ''resource'' (ri_resource x) (ri_resource r)) (\<lambda>_.
       require_generation ''resource generation'' (ri_generation x) (ri_generation r)))"

definition object_require_current :: "object_identity \<Rightarrow> object_identity \<Rightarrow> WorldIdentityError + unit" where
  "object_require_current x r =
     and_then (require_same_logical id ''world'' (oi_world x) (oi_world r)) (\<lambda>_.
     and_then (require_same_logical id ''object'' (oi_object x) (oi_object r)) (\<lambda>_.
       require_generation ''object version'' (oi_version x) (oi_version r)))"

definition attempt_require_current :: "attempt_identity \<Rightarrow> attempt_identity \<Rightarrow> WorldIdentityError + unit" where
  "attempt_require_current x r =
     and_then (require_same_logical id ''world'' (ai_world x) (ai_world r)) (\<lambda>_.
     and_then (require_same_logical id ''task'' (ai_task x) (ai_task r)) (\<lambda>_.
       require_generation ''task attempt'' (ai_attempt x) (ai_attempt r)))"

definition checkpoint_require_current :: "checkpoint_identity \<Rightarrow> checkpoint_identity \<Rightarrow> WorldIdentityError + unit" where
  "checkpoint_require_current x r =
     and_then (attempt_require_current (chi_attempt x) (chi_attempt r)) (\<lambda>_.
       require_same_logical id ''checkpoint'' (chi_checkpoint x) (chi_checkpoint r))"

definition publication_require_current ::
  "artifact_publication_identity \<Rightarrow> artifact_publication_identity \<Rightarrow> WorldIdentityError + unit" where
  "publication_require_current x r =
     and_then (world_require_current (api_world x) (api_world r)) (\<lambda>_.
       require_same_logical artifact_display ''artifact'' (api_artifact x) (api_artifact r))"

section \<open>Exact fences\<close>

text \<open>What every fence promises: it accepts exactly the current identity, so no two identities accept one reference.\<close>

locale fence =
  fixes require_current :: "'a \<Rightarrow> 'a \<Rightarrow> WorldIdentityError + unit"
  assumes exact: "require_current c r = Inr () \<longleftrightarrow> c = r"
begin

lemma rejects_other: "c \<noteq> r \<Longrightarrow> \<exists>e. require_current c r = Inl e"
  using exact [of c r] by (cases "require_current c r") auto

lemma accepted_once: "require_current c r = Inr () \<Longrightarrow> require_current c' r = Inr () \<Longrightarrow> c = c'"
  using exact by simp

end

lemma require_same_logical_iff [simp]: "require_same_logical f k x y = Inr () \<longleftrightarrow> x = y"
  by (simp add: require_same_logical_def)

lemma require_generation_iff [simp]: "require_generation k x y = Inr () \<longleftrightarrow> x = y"
  by (simp add: require_generation_def)

lemma and_then_unit_iff: "and_then m (\<lambda>_. n) = Inr () \<longleftrightarrow> m = Inr () \<and> n = Inr ()"
  by (cases m) auto

interpretation world_fence: fence world_require_current
  by unfold_locales (auto simp: world_require_current_def and_then_unit_iff)

interpretation governor_fence: fence governor_require_current
  by unfold_locales (auto simp: governor_require_current_def and_then_unit_iff world_fence.exact)

interpretation node_fence: fence node_require_current
  by unfold_locales (auto simp: node_require_current_def and_then_unit_iff)

interpretation domain_fence: fence domain_require_current
  by unfold_locales (auto simp: domain_require_current_def and_then_unit_iff node_fence.exact)

interpretation process_fence: fence process_require_current
  by unfold_locales (auto simp: process_require_current_def and_then_unit_iff domain_fence.exact)

interpretation owner_fence: fence owner_require_current
proof
  fix c r show "owner_require_current c r = Inr () \<longleftrightarrow> c = r"
    by (cases c; cases r) (simp_all add: world_fence.exact node_fence.exact domain_fence.exact process_fence.exact)
qed

interpretation resource_fence: fence resource_require_current
  by unfold_locales (auto simp: resource_require_current_def and_then_unit_iff owner_fence.exact)

interpretation object_fence: fence object_require_current
  by unfold_locales (auto simp: object_require_current_def and_then_unit_iff)

interpretation attempt_fence: fence attempt_require_current
  by unfold_locales (auto simp: attempt_require_current_def and_then_unit_iff)

interpretation checkpoint_fence: fence checkpoint_require_current
  by unfold_locales (auto simp: checkpoint_require_current_def and_then_unit_iff attempt_fence.exact)

interpretation publication_fence: fence publication_require_current
  by unfold_locales (auto simp: publication_require_current_def and_then_unit_iff world_fence.exact)

section \<open>Generations\<close>

text \<open>\<open>n\<close> successive generations of one identity.\<close>

fun generation_advance :: "string \<Rightarrow> nat \<Rightarrow> u64 \<Rightarrow> WorldIdentityError + u64" where
  "generation_advance kind 0 g = Inr g"
| "generation_advance kind (Suc n) g = and_then (identity_generation_next kind g) (generation_advance kind n)"

lemma generation_next_unat:
  assumes "identity_generation_next kind g = Inr h"
  shows "unat h = Suc (unat g)"
proof -
  have "1 + g \<noteq> 0" "h = 1 + g"
    using assms by (auto simp: identity_generation_next_def identity_generation_new_def add.commute split: if_splits)
  then show ?thesis using unatSuc [of g] by simp
qed

lemma generation_advance_unat: "generation_advance kind n g = Inr h \<Longrightarrow> unat h = unat g + n"
proof (induction n arbitrary: g)
  case (Suc n)
  then obtain g' where "identity_generation_next kind g = Inr g'" "generation_advance kind n g' = Inr h"
    by (auto simp: and_then_Inr_iff)
  then show ?case using Suc.IH generation_next_unat by fastforce
qed simp

section \<open>Properties\<close>

text \<open>C21: A reference to a resource is accepted exactly when the whole identity is current, its owner's generations
  included, and once the resource has advanced by one or more generations every older reference is
  stale, as generations are exhausted instead of wrapping.\<close>

theorem resource_fence_exact:
  assumes "generation_advance ''resource generation'' (Suc n) g = Inr h"
  shows "(resource_require_current c r = Inr () \<longleftrightarrow> c = r) \<and>
    resource_require_current (c\<lparr>ri_generation := h\<rparr>) (c\<lparr>ri_generation := g\<rparr>) =
      Inl (StaleGeneration ''resource generation'' h g)"
proof -
  have "h \<noteq> g" using generation_advance_unat [OF assms] by auto
  then have "resource_require_current (c\<lparr>ri_generation := h\<rparr>) (c\<lparr>ri_generation := g\<rparr>) =
      Inl (StaleGeneration ''resource generation'' h g)"
    using owner_fence.exact [of "ri_owner c" "ri_owner c"]
    by (simp add: resource_require_current_def require_generation_def require_same_logical_def)
  then show ?thesis using resource_fence.exact by blast
qed

definition sample_resource :: resource_identity where
  "sample_resource = \<lparr>ri_owner = WorldOwner \<lparr>wi_world = ''w'', wi_epoch = 1\<rparr>, ri_resource = ''cpu/slot-0'',
     ri_generation = 1\<rparr>"

theorem resource_fence_exact_witness:
  "resource_require_current (sample_resource\<lparr>ri_generation := 3\<rparr>) (sample_resource\<lparr>ri_generation := 1\<rparr>) =
    Inl (StaleGeneration ''resource generation'' 3 1)"
proof -
  have "generation_advance ''resource generation'' (Suc 1) 1 = Inr 3"
    by (simp add: identity_generation_next_def identity_generation_new_def)
  from resource_fence_exact [OF this] show ?thesis by blast
qed

end
