(* ===== verification/Effects.thy ===== *)
theory Effects
  imports Plan World_Identity "HOL-Library.List_Lexorder"
begin

text \<open>
  The effect model of planning and scheduling, \<^verbatim>\<open>crates/ostadix-api/src/effects.rs\<close>: resource keys with
  their order and display form, effect summaries with their scheduling accesses and conflicts, the
  declarations of a block attribute, and the summary of a plan node. A \<open>BTreeSet\<close> of keys is a set; the
  audit of a native descriptor is the parameter \<open>validate_descriptor\<close>.
\<close>

section \<open>Resource keys\<close>

record actor_resource_id =
  canonical_language :: string
  actor_environment :: u32

definition actor_display :: "actor_resource_id \<Rightarrow> string" where
  "actor_display a = canonical_language a @ ''['' @ show_nat (unat (actor_environment a)) @ '']''"

datatype ResourceKey =
    HostWorld
  | ConcurrentProjectBranch nat
  | ProjectBranchPath nat string
  | WorldState world_identity
  | GovernorState governor_identity
  | NodeState node_identity
  | DomainState domain_identity
  | ProcessState process_identity
  | GovernedResource resource_identity
  | ObjectState object_identity
  | CapabilityState capability_identity
  | NamespaceState world_identity
  | TaskState attempt_identity
  | ArtifactState artifact_publication_identity
  | DeviceState resource_identity
  | AcceleratorState resource_identity
  | EvaluatorState
  | ScopeBinding string
  | ProjectPath string
  | HostPath string
  | EnvVar string
  | Stdio
  | Network string
  | NetworkUnknown
  | Service string
  | ActorState actor_resource_id

datatype GovernedResourceKind =
    WorldKind | GovernorKind | NodeKind | DomainKind | ProcessKind | ResourceKind | ObjectKind | CapabilityKind
  | NamespaceKind | TaskKind | ArtifactKind | DeviceKind | AcceleratorKind

fun governed_kind_name :: "GovernedResourceKind \<Rightarrow> string" where
  "governed_kind_name WorldKind = ''world''"
| "governed_kind_name GovernorKind = ''governor''"
| "governed_kind_name NodeKind = ''node''"
| "governed_kind_name DomainKind = ''domain''"
| "governed_kind_name ProcessKind = ''process''"
| "governed_kind_name ResourceKind = ''resource''"
| "governed_kind_name ObjectKind = ''object''"
| "governed_kind_name CapabilityKind = ''capability''"
| "governed_kind_name NamespaceKind = ''namespace''"
| "governed_kind_name TaskKind = ''task''"
| "governed_kind_name ArtifactKind = ''artifact''"
| "governed_kind_name DeviceKind = ''device''"
| "governed_kind_name AcceleratorKind = ''accelerator''"

fun is_host_resource :: "ResourceKey \<Rightarrow> bool" where
  "is_host_resource HostWorld = True"
| "is_host_resource (ConcurrentProjectBranch _) = True"
| "is_host_resource (ProjectPath _) = True"
| "is_host_resource (HostPath _) = True"
| "is_host_resource (EnvVar _) = True"
| "is_host_resource Stdio = True"
| "is_host_resource (Network _) = True"
| "is_host_resource NetworkUnknown = True"
| "is_host_resource (Service _) = True"
| "is_host_resource _ = False"

fun governed_kind :: "ResourceKey \<Rightarrow> GovernedResourceKind option" where
  "governed_kind (WorldState _) = Some WorldKind"
| "governed_kind (GovernorState _) = Some GovernorKind"
| "governed_kind (NodeState _) = Some NodeKind"
| "governed_kind (DomainState _) = Some DomainKind"
| "governed_kind (ProcessState _) = Some ProcessKind"
| "governed_kind (GovernedResource _) = Some ResourceKind"
| "governed_kind (ObjectState _) = Some ObjectKind"
| "governed_kind (CapabilityState _) = Some CapabilityKind"
| "governed_kind (NamespaceState _) = Some NamespaceKind"
| "governed_kind (TaskState _) = Some TaskKind"
| "governed_kind (ArtifactState _) = Some ArtifactKind"
| "governed_kind (DeviceState _) = Some DeviceKind"
| "governed_kind (AcceleratorState _) = Some AcceleratorKind"
| "governed_kind _ = None"

definition is_governed_resource :: "ResourceKey \<Rightarrow> bool" where
  "is_governed_resource r \<longleftrightarrow> governed_kind r \<noteq> None"

fun resource_key_display :: "ResourceKey \<Rightarrow> string" where
  "resource_key_display HostWorld = ''HostWorld''"
| "resource_key_display (ConcurrentProjectBranch b) = ''concurrent-project-branch:'' @ show_nat b @ '':ambient-unordered''"
| "resource_key_display (ProjectBranchPath b p) = ''project-branch:'' @ show_nat b @ '':'' @ p"
| "resource_key_display (WorldState w) = ''world-state:'' @ world_display w"
| "resource_key_display (GovernorState g) = ''governor-state:'' @ governor_display g"
| "resource_key_display (NodeState n) = ''node-state:'' @ node_display n"
| "resource_key_display (DomainState d) = ''domain-state:'' @ domain_display d"
| "resource_key_display (ProcessState p) = ''process-state:'' @ process_display p"
| "resource_key_display (GovernedResource r) = ''governed-resource:'' @ resource_display r"
| "resource_key_display (ObjectState x) = ''object-state:'' @ object_display x"
| "resource_key_display (CapabilityState c) = ''capability-state:'' @ capability_display c"
| "resource_key_display (NamespaceState w) = ''namespace-state:'' @ world_display w"
| "resource_key_display (TaskState t) = ''task-state:'' @ attempt_display t"
| "resource_key_display (ArtifactState a) = ''artifact-state:'' @ publication_display a"
| "resource_key_display (DeviceState r) = ''device-state:'' @ resource_display r"
| "resource_key_display (AcceleratorState r) = ''accelerator-state:'' @ resource_display r"
| "resource_key_display EvaluatorState = ''EvaluatorState''"
| "resource_key_display (ScopeBinding n) = ''scope:'' @ n"
| "resource_key_display (ProjectPath p) = ''project:'' @ p"
| "resource_key_display (HostPath p) = ''host:'' @ p"
| "resource_key_display (EnvVar n) = ''env:'' @ n"
| "resource_key_display Stdio = ''stdio''"
| "resource_key_display (Network e) = ''network:'' @ e"
| "resource_key_display NetworkUnknown = ''network:*''"
| "resource_key_display (Service n) = ''service:'' @ n"
| "resource_key_display (ActorState a) = ''actor:'' @ actor_display a"

text \<open>
  The derived order: the variants in their order of declaration, then the fields in turn, strings by
  bytes. A key is coded as the list of its fields, so that the order is the lexicographic one.
\<close>

abbreviation text_code :: "string \<Rightarrow> nat list" where
  "text_code s \<equiv> map char_code s"

abbreviation number_code :: "u64 \<Rightarrow> nat list" where
  "number_code g \<equiv> [unat g]"

definition world_code :: "world_identity \<Rightarrow> nat list list" where
  "world_code w = [text_code (wi_world w), number_code (wi_epoch w)]"

definition node_code :: "node_identity \<Rightarrow> nat list list" where
  "node_code n = [text_code (ni_world n), text_code (ni_node n), number_code (ni_generation n)]"

definition domain_code :: "domain_identity \<Rightarrow> nat list list" where
  "domain_code d = node_code (di_node d) @ [text_code (di_domain d), number_code (di_generation d)]"

definition process_code :: "process_identity \<Rightarrow> nat list list" where
  "process_code p = domain_code (pi_domain p) @ [text_code (pi_process p), number_code (pi_generation p)]"

fun owner_code :: "ResourceOwner \<Rightarrow> nat list list" where
  "owner_code (WorldOwner w) = [0] # world_code w"
| "owner_code (NodeOwner n) = [1] # node_code n"
| "owner_code (DomainOwner d) = [2] # domain_code d"
| "owner_code (ProcessOwner p) = [3] # process_code p"

definition resource_code :: "resource_identity \<Rightarrow> nat list list" where
  "resource_code r = owner_code (ri_owner r) @ [text_code (ri_resource r), number_code (ri_generation r)]"

fun key_code :: "ResourceKey \<Rightarrow> nat list list" where
  "key_code HostWorld = [[0]]"
| "key_code (ConcurrentProjectBranch b) = [[1], [b]]"
| "key_code (ProjectBranchPath b p) = [[2], [b], text_code p]"
| "key_code (WorldState w) = [3] # world_code w"
| "key_code (GovernorState g) = [4] # world_code (gi_world g) @ [number_code (gi_term g), number_code (gi_log_index g)]"
| "key_code (NodeState n) = [5] # node_code n"
| "key_code (DomainState d) = [6] # domain_code d"
| "key_code (ProcessState p) = [7] # process_code p"
| "key_code (GovernedResource r) = [8] # resource_code r"
| "key_code (ObjectState x) = [[9], text_code (oi_world x), text_code (oi_object x), number_code (oi_version x)]"
| "key_code (CapabilityState c) = [[10], text_code (ci_world c), text_code (ci_capability c)]"
| "key_code (NamespaceState w) = [11] # world_code w"
| "key_code (TaskState t) = [[12], text_code (ai_world t), text_code (ai_task t), number_code (ai_attempt t)]"
| "key_code (ArtifactState a) = [13] # world_code (api_world a) @ [text_code (api_artifact a)]"
| "key_code (DeviceState r) = [14] # resource_code r"
| "key_code (AcceleratorState r) = [15] # resource_code r"
| "key_code EvaluatorState = [[16]]"
| "key_code (ScopeBinding n) = [[17], text_code n]"
| "key_code (ProjectPath p) = [[18], text_code p]"
| "key_code (HostPath p) = [[19], text_code p]"
| "key_code (EnvVar n) = [[20], text_code n]"
| "key_code Stdio = [[21]]"
| "key_code (Network e) = [[22], text_code e]"
| "key_code NetworkUnknown = [[23]]"
| "key_code (Service n) = [[24], text_code n]"
| "key_code (ActorState a) = [[25], text_code (canonical_language a), [unat (actor_environment a)]]"

lemma text_code_inject [simp]: "text_code s = text_code t \<longleftrightarrow> s = t"
  by (simp add: inj_map_eq_map inj_def)

lemma unat_inject [simp]: "unat x = unat y \<longleftrightarrow> x = y"
  by (simp add: word_unat_eq_iff)

lemma identity_code_inject:
  "world_code w = world_code w' \<longleftrightarrow> w = w'"
  "node_code n = node_code n' \<longleftrightarrow> n = n'"
  "domain_code d = domain_code d' \<longleftrightarrow> d = d'"
  "process_code p = process_code p' \<longleftrightarrow> p = p'"
  "owner_code x = owner_code x' \<longleftrightarrow> x = x'"
  "resource_code r = resource_code r' \<longleftrightarrow> r = r'"
proof -
  show w: "world_code w = world_code w' \<longleftrightarrow> w = w'" for w w'
    by (cases w; cases w') (simp add: world_code_def)
  show n: "node_code n = node_code n' \<longleftrightarrow> n = n'" for n n'
    by (cases n; cases n') (simp add: node_code_def)
  show d: "domain_code d = domain_code d' \<longleftrightarrow> d = d'" for d d'
    by (cases d; cases d') (auto simp: domain_code_def append_eq_append_conv n dest: sym)
  show p: "process_code p = process_code p' \<longleftrightarrow> p = p'" for p p'
    by (cases p; cases p') (auto simp: process_code_def d)
  show o': "owner_code x = owner_code x' \<longleftrightarrow> x = x'" for x x'
    by (cases x; cases x') (simp_all add: w n d p)
  show "resource_code r = resource_code r' \<longleftrightarrow> r = r'"
    by (cases r; cases r') (auto simp: resource_code_def o')
qed

lemma key_code_inject [simp]: "key_code r = key_code s \<longleftrightarrow> r = s"
  by (cases r; cases s)
    (auto simp: identity_code_inject governor_identity.equality object_identity.equality capability_identity.equality
      attempt_identity.equality artifact_publication_identity.equality actor_resource_id.equality)

instantiation ResourceKey :: linorder
begin

definition less_eq_ResourceKey :: "ResourceKey \<Rightarrow> ResourceKey \<Rightarrow> bool" where
  "less_eq_ResourceKey r s \<longleftrightarrow> key_code r \<le> key_code s"

definition less_ResourceKey :: "ResourceKey \<Rightarrow> ResourceKey \<Rightarrow> bool" where
  "less_ResourceKey r s \<longleftrightarrow> key_code r < key_code s"

instance
  by standard (auto simp: less_eq_ResourceKey_def less_ResourceKey_def dest: antisym)

end

section \<open>Effect summaries\<close>

datatype EffectConfidence = Verified | Conservative | UserDeclared

datatype Fallibility = Infallible | MayFail

record effect_summary =
  deterministic :: bool
  fallibility :: Fallibility
  reads :: "ResourceKey set"
  writes :: "ResourceKey set"
  actor_state :: "actor_resource_id option"
  unknown :: bool
  network :: bool
  spawn :: bool
  clock :: bool
  confidence :: EffectConfidence

definition summary_pure :: effect_summary where
  "summary_pure = \<lparr>deterministic = True, fallibility = Infallible, reads = {}, writes = {}, actor_state = None,
     unknown = False, network = False, spawn = False, clock = False, confidence = Verified\<rparr>"

definition summary_unknown :: effect_summary where
  "summary_unknown = \<lparr>deterministic = False, fallibility = MayFail, reads = {HostWorld}, writes = {HostWorld},
     actor_state = None, unknown = True, network = False, spawn = False, clock = False, confidence = Conservative\<rparr>"

definition conservative_evaluator :: effect_summary where
  "conservative_evaluator =
     (let s = summary_unknown in
      s\<lparr>reads := insert EvaluatorState (reads s), writes := insert EvaluatorState (writes s)\<rparr>)"

definition with_actor_state :: "actor_resource_id \<Rightarrow> effect_summary \<Rightarrow> effect_summary" where
  "with_actor_state actor s =
     (let s1 = (case actor_state s of
            None \<Rightarrow> s
          | Some previous \<Rightarrow> s\<lparr>reads := reads s - {ActorState previous}, writes := writes s - {ActorState previous}\<rparr>) in
      s1\<lparr>actor_state := Some actor, reads := insert (ActorState actor) (reads s1),
        writes := insert (ActorState actor) (writes s1)\<rparr>)"

fun is_network_endpoint :: "ResourceKey \<Rightarrow> bool" where
  "is_network_endpoint (Network _) = True"
| "is_network_endpoint _ = False"

fun governed_alias :: "ResourceKey \<Rightarrow> ResourceKey set" where
  "governed_alias (DeviceState r) = {GovernedResource r}"
| "governed_alias (AcceleratorState r) = {GovernedResource r}"
| "governed_alias _ = {}"

definition expand_resource_aliases :: "ResourceKey set \<Rightarrow> ResourceKey set" where
  "expand_resource_aliases rs =
     (let rs1 = (if \<exists>r \<in> rs. is_network_endpoint r then insert NetworkUnknown rs else rs) in
      rs1 \<union> (\<Union>r \<in> rs1. governed_alias r))"

definition expanded_reads :: "effect_summary \<Rightarrow> ResourceKey set" where
  "expanded_reads s = expand_resource_aliases (reads s)"

definition expanded_writes :: "effect_summary \<Rightarrow> ResourceKey set" where
  "expanded_writes s = expand_resource_aliases (writes s)"

definition resource_union :: "effect_summary \<Rightarrow> ResourceKey set" where
  "resource_union s = expanded_reads s \<union> expanded_writes s"

definition scheduling_accesses :: "effect_summary \<Rightarrow> ResourceKey set \<times> ResourceKey set" where
  "scheduling_accesses s =
     (let rs = expanded_reads s; ws = expanded_writes s;
          touches_ambient_host = (HostWorld \<in> rs \<or> HostWorld \<in> ws);
          touches_precise_host = (\<exists>r \<in> rs \<union> ws. is_host_resource r \<and> r \<noteq> HostWorld) in
      (if touches_precise_host then insert HostWorld rs else rs,
       if touches_ambient_host then insert HostWorld ws else ws))"

definition is_verified_pure_infallible :: "effect_summary \<Rightarrow> bool" where
  "is_verified_pure_infallible s \<longleftrightarrow>
     confidence s = Verified \<and> deterministic s \<and> fallibility s = Infallible \<and> \<not> unknown s \<and> actor_state s = None \<and>
     reads s = {} \<and> writes s = {} \<and> \<not> network s \<and> \<not> spawn s \<and> \<not> clock s"

fun is_network :: "ResourceKey \<Rightarrow> bool" where
  "is_network (Network _) = True"
| "is_network NetworkUnknown = True"
| "is_network _ = False"

definition touches_network :: "ResourceKey set \<Rightarrow> bool" where
  "touches_network rs \<longleftrightarrow> (\<exists>r \<in> rs. is_network r)"

definition resource_conflict :: "ResourceKey set \<Rightarrow> ResourceKey set \<Rightarrow> bool" where
  "resource_conflict left right \<longleftrightarrow> (\<exists>r \<in> left. r \<in> right) \<or> touches_network left \<and> touches_network right"

definition conflicts_with :: "effect_summary \<Rightarrow> effect_summary \<Rightarrow> bool" where
  "conflicts_with s t \<longleftrightarrow>
     (case (actor_state s, actor_state t) of (Some x, Some y) \<Rightarrow> x = y | _ \<Rightarrow> False) \<or>
     (let (s_reads, s_writes) = scheduling_accesses s; (t_reads, t_writes) = scheduling_accesses t in
      resource_conflict s_writes t_writes \<or> resource_conflict s_writes t_reads \<or> resource_conflict t_writes s_reads)"

section \<open>Declarations\<close>

datatype DeclaredPurity = DeclaredPure | DeclaredUnknown

record effect_declaration =
  purity :: "DeclaredPurity option"
  decl_reads :: "ResourceKey set"
  decl_writes :: "ResourceKey set"
  serial_host :: bool

definition no_declaration :: effect_declaration where
  "no_declaration = \<lparr>purity = None, decl_reads = {}, decl_writes = {}, serial_host = False\<rparr>"

definition declaration_is_empty :: "effect_declaration \<Rightarrow> bool" where
  "declaration_is_empty d \<longleftrightarrow> purity d = None \<and> decl_reads d = {} \<and> decl_writes d = {} \<and> \<not> serial_host d"

datatype EffectError =
    EmptyAttribute
  | DuplicateDeclaration string
  | InvalidClassification string
  | InvalidSerializationDomain string
  | EmptyDeclaration
  | EmptyResourceIn string
  | InvalidResource string
  | EmptyResourceIdentity string
  | GovernedKindDenied string string
  | ProjectPathAbsolute string
  | EmptyName string
  | InvalidName string string
  | UnknownResourceKind string string
  | InvalidActor string
  | EmptyActorLanguage
  | InvalidActorEnvironment string
  | ActorNotPersistent
  | PureUpgradeDenied
  | MissingDescriptor
  | InvalidDescriptor string
  | AtPlanNode nat EffectError

definition strip_prefix :: "string \<Rightarrow> string \<Rightarrow> string option" where
  "strip_prefix pre s = (if starts_with s pre then Some (drop (length pre) s) else None)"

definition recognizes_entry :: "string \<Rightarrow> bool" where
  "recognizes_entry entry \<longleftrightarrow> list_ex (starts_with entry) [''effects='', ''reads='', ''writes='', ''serial='']"

definition validate_identifier :: "string \<Rightarrow> string \<Rightarrow> EffectError + unit" where
  "validate_identifier value label =
     (case value of
        [] \<Rightarrow> Inl (EmptyName label)
      | first # rest \<Rightarrow>
          if \<not> is_ident_start first \<or> \<not> list_all is_ident_continue rest then Inl (InvalidName label value) else Inr ())"

text \<open>\<open>str::parse::<u32>\<close>, which takes one leading plus sign.\<close>

fun parse_u32_signed :: "string \<Rightarrow> u32 option" where
  "parse_u32_signed (c # d # ds) = (if c = CHR ''+'' then parse_u32 (d # ds) else parse_u32 (c # d # ds))"
| "parse_u32_signed s = parse_u32 s"

text \<open>\<open>rsplit_once(sep)\<close>.\<close>

definition rsplit_once :: "char \<Rightarrow> string \<Rightarrow> (string \<times> string) option" where
  "rsplit_once sep s =
     (if sep \<in> set s
      then let after = rev (takeWhile (\<lambda>c. c \<noteq> sep) (rev s)) in Some (take (length s - length after - 1) s, after)
      else None)"

definition parse_actor_resource :: "string \<Rightarrow> EffectError + actor_resource_id" where
  "parse_actor_resource value =
     and_then (ok_or (InvalidActor value)
         (if value \<noteq> [] \<and> last value = CHR '']'' then rsplit_once (CHR ''['') (butlast value) else None))
       (\<lambda>(language, environment).
          if language = [] then Inl EmptyActorLanguage
          else and_then (ok_or (InvalidActorEnvironment environment) (parse_u32_signed environment)) (\<lambda>env.
            if \<not> is_persistent (from_encoded env) then Inl ActorNotPersistent
            else Inr \<lparr>canonical_language = language, actor_environment = env\<rparr>))"

definition GOVERNED_SOURCE_KINDS :: "string list" where
  "GOVERNED_SOURCE_KINDS =
     [''world'', ''world-state'', ''governor'', ''governor-state'', ''node'', ''node-state'', ''domain'', ''domain-state'',
      ''process'', ''process-state'', ''resource'', ''resource-state'', ''governed-resource'', ''object'', ''object-state'',
      ''capability'', ''capability-state'', ''namespace'', ''namespace-state'', ''task'', ''task-state'', ''artifact'',
      ''artifact-state'', ''device'', ''device-state'', ''accelerator'', ''accelerator-state'']"

definition is_governed_source_resource_kind :: "string \<Rightarrow> bool" where
  "is_governed_source_resource_kind kind \<longleftrightarrow> kind \<in> set GOVERNED_SOURCE_KINDS"

definition parse_resource_value :: "string \<Rightarrow> string \<Rightarrow> string \<Rightarrow> EffectError + ResourceKey" where
  "parse_resource_value item kind value =
     (if kind = ''project'' then
        if hd value = CHR ''/'' then Inl (ProjectPathAbsolute value) else Inr (ProjectPath value)
      else if kind = ''host'' then Inr (HostPath value)
      else if kind = ''env'' then and_then (validate_identifier value ''environment variable'') (\<lambda>_. Inr (EnvVar value))
      else if kind = ''scope'' then and_then (validate_identifier value ''scope binding'') (\<lambda>_. Inr (ScopeBinding value))
      else if kind = ''network'' then Inr (Network value)
      else if kind = ''service'' then Inr (Service value)
      else if kind = ''actor'' then and_then (parse_actor_resource value) (\<lambda>a. Inr (ActorState a))
      else Inl (UnknownResourceKind kind item))"

definition parse_resource :: "string \<Rightarrow> EffectError + ResourceKey" where
  "parse_resource item =
     (if item = ''stdio'' then Inr Stdio
      else if item = ''network:*'' \<or> item = ''network'' then Inr NetworkUnknown
      else if item = ''host:*'' \<or> item = ''hostworld'' then Inr HostWorld
      else if item = ''evaluator'' then Inr EvaluatorState
      else and_then (ok_or (InvalidResource item) (after_first (CHR '':'') item)) (\<lambda>value.
        let kind = takeWhile (\<lambda>c. c \<noteq> CHR '':'') item in
        if value = [] then Inl (EmptyResourceIdentity item)
        else if is_governed_source_resource_kind kind then Inl (GovernedKindDenied kind item)
        else parse_resource_value item kind value))"

fun parse_items :: "string \<Rightarrow> string list \<Rightarrow> ResourceKey set \<Rightarrow> EffectError + ResourceKey set" where
  "parse_items whole [] rs = Inr rs"
| "parse_items whole (item # items) rs =
     (if trim_str item = [] then Inl (EmptyResourceIn whole)
      else and_then (parse_resource (trim_str item)) (\<lambda>r. parse_items whole items (insert r rs)))"

text \<open>\<open>split(['+', ';'])\<close>: both separators are dropped, so the second is read as the first.\<close>

definition parse_resources :: "string \<Rightarrow> EffectError + ResourceKey set" where
  "parse_resources whole =
     (if trim_str whole = [] then Inl EmptyDeclaration
      else parse_items whole (split_on (CHR ''+'') (map (\<lambda>c. if c = CHR '';'' then CHR ''+'' else c) whole)) {})"

text \<open>The entries seen so far: \<open>effects=\<close>, \<open>reads=\<close>, \<open>writes=\<close>, \<open>serial=\<close>.\<close>

record seen_entries =
  seen_effects :: bool
  seen_reads :: bool
  seen_writes :: bool
  seen_serial :: bool

definition parse_entry ::
  "string \<Rightarrow> seen_entries \<times> effect_declaration \<Rightarrow> EffectError + seen_entries \<times> effect_declaration" where
  "parse_entry entry st =
     (let (seen, d) = st in
      if entry = [] then Inl EmptyAttribute
      else case strip_prefix ''effects='' entry of
        Some value \<Rightarrow>
          if seen_effects seen then Inl (DuplicateDeclaration ''effects='')
          else if value = ''pure'' then Inr (seen\<lparr>seen_effects := True\<rparr>, d\<lparr>purity := Some DeclaredPure\<rparr>)
          else if value = ''unknown'' then Inr (seen\<lparr>seen_effects := True\<rparr>, d\<lparr>purity := Some DeclaredUnknown\<rparr>)
          else Inl (InvalidClassification value)
      | None \<Rightarrow> (case strip_prefix ''reads='' entry of
        Some value \<Rightarrow>
          if seen_reads seen then Inl (DuplicateDeclaration ''reads='')
          else and_then (parse_resources value) (\<lambda>rs. Inr (seen\<lparr>seen_reads := True\<rparr>, d\<lparr>decl_reads := rs\<rparr>))
      | None \<Rightarrow> (case strip_prefix ''writes='' entry of
        Some value \<Rightarrow>
          if seen_writes seen then Inl (DuplicateDeclaration ''writes='')
          else and_then (parse_resources value) (\<lambda>rs. Inr (seen\<lparr>seen_writes := True\<rparr>, d\<lparr>decl_writes := rs\<rparr>))
      | None \<Rightarrow> (case strip_prefix ''serial='' entry of
        Some value \<Rightarrow>
          if seen_serial seen then Inl (DuplicateDeclaration ''serial='')
          else if value \<noteq> ''host'' then Inl (InvalidSerializationDomain value)
          else Inr (seen\<lparr>seen_serial := True\<rparr>, d\<lparr>serial_host := True\<rparr>)
      | None \<Rightarrow> Inr (seen, d)))))"

fun parse_entries ::
  "string list \<Rightarrow> seen_entries \<times> effect_declaration \<Rightarrow> EffectError + effect_declaration" where
  "parse_entries [] st = Inr (snd st)"
| "parse_entries (entry # entries) st = and_then (parse_entry (trim_str entry) st) (parse_entries entries)"

definition parse_declaration :: "string option \<Rightarrow> EffectError + effect_declaration" where
  "parse_declaration attr =
     (case attr of
        None \<Rightarrow> Inr no_declaration
      | Some a \<Rightarrow> parse_entries (split_on (CHR '','') a)
          (\<lparr>seen_effects = False, seen_reads = False, seen_writes = False, seen_serial = False\<rparr>, no_declaration))"

definition declare_unknown :: "effect_summary \<Rightarrow> effect_summary" where
  "declare_unknown s = s\<lparr>deterministic := False, fallibility := MayFail, unknown := True, confidence := Conservative,
     reads := insert HostWorld (reads s), writes := insert HostWorld (writes s)\<rparr>"

definition touch_host :: "bool \<Rightarrow> effect_summary \<Rightarrow> effect_summary" where
  "touch_host b s = (if b then s\<lparr>reads := insert HostWorld (reads s), writes := insert HostWorld (writes s)\<rparr> else s)"

definition apply_checked :: "effect_declaration \<Rightarrow> effect_summary \<Rightarrow> EffectError + effect_summary" where
  "apply_checked d base =
     (let was_pure = is_verified_pure_infallible base;
          has_resources = (decl_reads d \<noteq> {} \<or> decl_writes d \<noteq> {} \<or> serial_host d);
          has_host_resources = (serial_host d \<or> (\<exists>r \<in> decl_reads d. is_host_resource r) \<or>
            (\<exists>r \<in> decl_writes d. is_host_resource r)) in
      if purity d = Some DeclaredPure \<and> \<not> was_pure then Inl PureUpgradeDenied
      else
        let s1 = (if purity d = Some DeclaredUnknown then declare_unknown base else base);
            s2 = s1\<lparr>reads := reads s1 \<union> decl_reads d, writes := writes s1 \<union> decl_writes d\<rparr>;
            s3 = touch_host (serial_host d) s2;
            s4 = touch_host (was_pure \<and> has_host_resources) s3 in
        Inr (if was_pure \<and> has_resources \<and> purity d \<noteq> Some DeclaredUnknown
             then s4\<lparr>confidence := UserDeclared\<rparr> else s4))"

section \<open>Plan nodes\<close>

definition trusted_inline_renderer :: "backend_interface \<Rightarrow> bool" where
  "trusted_inline_renderer backend \<longleftrightarrow> bi_pure backend \<and> bi_execution backend = InlineValue \<and>
     bi_canonical backend \<in> {''html'', ''markdown'', ''text'', ''latex''}"

fun effect_summary_for_plan_node ::
  "(string \<Rightarrow> nat \<Rightarrow> string + unit) \<Rightarrow> nat \<Rightarrow> PlanNodeKind \<Rightarrow> EffectError + effect_summary" where
  "effect_summary_for_plan_node validate_descriptor i TextNode = Inr summary_pure"
| "effect_summary_for_plan_node validate_descriptor i (LoadNode name) =
     Inr (summary_pure\<lparr>fallibility := MayFail, reads := {ScopeBinding name}\<rparr>)"
| "effect_summary_for_plan_node validate_descriptor i (StoreNode name) =
     Inr (summary_pure\<lparr>writes := {ScopeBinding name}\<rparr>)"
| "effect_summary_for_plan_node validate_descriptor i (NativeI64Node descriptor argument_count) =
     and_then (ok_or MissingDescriptor descriptor) (\<lambda>text.
       case validate_descriptor text argument_count of
         Inl e \<Rightarrow> Inl (InvalidDescriptor e)
       | Inr _ \<Rightarrow> Inr (summary_pure\<lparr>fallibility := MayFail\<rparr>))"
| "effect_summary_for_plan_node validate_descriptor i (GroupNode mode members) = Inr summary_pure"
| "effect_summary_for_plan_node validate_descriptor i (CallNode fn_name mode args) = Inr conservative_evaluator"
| "effect_summary_for_plan_node validate_descriptor i (RequestNode fn_name kind args) = Inr conservative_evaluator"
| "effect_summary_for_plan_node validate_descriptor i (ScheduleNode fn_name kind args) = Inr conservative_evaluator"
| "effect_summary_for_plan_node validate_descriptor i (ExecNode lang env_id attr backend) =
     (let has_deferred_control = (case attr of None \<Rightarrow> False
            | Some a \<Rightarrow> list_ex (\<lambda>e. trim_str e \<in> {''lazy'', ''defer''}) (split_on (CHR '','') a));
          s = (if trusted_inline_renderer backend \<and> \<not> has_deferred_control then summary_pure
               else conservative_evaluator);
          s' = (if bi_execution backend = Shim \<and> is_persistent (from_encoded env_id)
                then with_actor_state \<lparr>canonical_language = bi_canonical backend, actor_environment = env_id\<rparr> s
                else s) in
      case parse_declaration attr of
        Inl e \<Rightarrow> Inl (AtPlanNode i e)
      | Inr d \<Rightarrow> (case apply_checked d s' of Inl e \<Rightarrow> Inl (AtPlanNode i e) | Inr r \<Rightarrow> Inr r))"

end
