(* ===== verification/Effects_Correct.thy ===== *)
theory Effects_Correct
  imports Effects
begin

text \<open>
  Effect declarations only restrict scheduling, source text never names governed state, and a conflict
  of two summaries is always a shared resource that one of them writes.
\<close>

section \<open>Scheduling accesses\<close>

abbreviation sched_reads :: "effect_summary \<Rightarrow> ResourceKey set" where
  "sched_reads s \<equiv> fst (scheduling_accesses s)"

abbreviation sched_writes :: "effect_summary \<Rightarrow> ResourceKey set" where
  "sched_writes s \<equiv> snd (scheduling_accesses s)"

definition sched_resources :: "effect_summary \<Rightarrow> ResourceKey set" where
  "sched_resources s = sched_reads s \<union> sched_writes s"


lemma expand_superset: "A \<subseteq> expand_resource_aliases A"
  by (auto simp: expand_resource_aliases_def Let_def)

lemma governed_alias_not_network: "r \<in> governed_alias x \<Longrightarrow> \<not> is_network r"
  by (cases x) auto

lemma expand_network: "touches_network (expand_resource_aliases A) \<Longrightarrow> NetworkUnknown \<in> expand_resource_aliases A"
proof -
  assume "touches_network (expand_resource_aliases A)"
  then obtain r where r: "r \<in> expand_resource_aliases A" "is_network r" by (auto simp: touches_network_def)
  then have "r = NetworkUnknown \<or> is_network_endpoint r \<and> r \<in> A"
    by (cases r) (auto simp: expand_resource_aliases_def Let_def dest: governed_alias_not_network split: if_splits)
  then show ?thesis using r(1) by (auto simp: expand_resource_aliases_def Let_def)
qed


lemma sched_network:
  "touches_network (sched_reads s) \<Longrightarrow> NetworkUnknown \<in> sched_reads s"
  "touches_network (sched_writes s) \<Longrightarrow> NetworkUnknown \<in> sched_writes s"
  using expand_network [of "reads s"] expand_network [of "writes s"]
  by (auto simp: scheduling_accesses_def Let_def expanded_reads_def expanded_writes_def touches_network_def split: if_splits)

lemma resource_conflict_shared:
  assumes "resource_conflict A B" "touches_network A \<Longrightarrow> NetworkUnknown \<in> A" "touches_network B \<Longrightarrow> NetworkUnknown \<in> B"
  shows "A \<inter> B \<noteq> {}"
  using assms by (auto simp: resource_conflict_def)

section \<open>Conflicts\<close>


lemma resource_conflict_sym: "resource_conflict A B = resource_conflict B A"
  by (auto simp: resource_conflict_def)

lemma conflicts_with_iff:
  "conflicts_with s t \<longleftrightarrow>
     (\<exists>x. actor_state s = Some x \<and> actor_state t = Some x) \<or> resource_conflict (sched_writes s) (sched_writes t) \<or>
     resource_conflict (sched_writes s) (sched_reads t) \<or> resource_conflict (sched_writes t) (sched_reads s)"
  by (auto simp: conflicts_with_def case_prod_beta Let_def split: option.splits)

lemma conflicts_with_sym: "conflicts_with s t = conflicts_with t s"
  unfolding conflicts_with_iff using resource_conflict_sym by blast


text \<open>The state of an actor is one of the resources that its operation writes.\<close>

definition actor_tracked :: "effect_summary \<Rightarrow> bool" where
  "actor_tracked s \<longleftrightarrow> (\<forall>a. actor_state s = Some a \<longrightarrow> ActorState a \<in> writes s)"

lemma writes_sched: "writes s \<subseteq> sched_writes s"
  using expand_superset [of "writes s"] by (auto simp: scheduling_accesses_def Let_def expanded_writes_def)

lemma conflict_shares_resource:
  assumes "conflicts_with s t" "actor_tracked s" "actor_tracked t"
  shows "\<exists>r. r \<in> sched_resources s \<and> r \<in> sched_resources t \<and> (r \<in> sched_writes s \<or> r \<in> sched_writes t)"
proof -
  consider (actor) x where "actor_state s = Some x" "actor_state t = Some x"
    | (ww) "sched_writes s \<inter> sched_writes t \<noteq> {}" | (wr) "sched_writes s \<inter> sched_reads t \<noteq> {}"
    | (rw) "sched_writes t \<inter> sched_reads s \<noteq> {}"
    using assms(1) resource_conflict_shared sched_network unfolding conflicts_with_iff by metis
  then show ?thesis
  proof cases
    case (actor x)
    then have "ActorState x \<in> sched_writes s" "ActorState x \<in> sched_writes t"
      using assms(2,3) writes_sched by (auto simp: actor_tracked_def)
    then show ?thesis by (auto simp: sched_resources_def)
  qed (auto simp: sched_resources_def)
qed

section \<open>Declarations\<close>

lemma touch_host_simps [simp]:
  "reads (touch_host b s) = (if b then insert HostWorld (reads s) else reads s)"
  "writes (touch_host b s) = (if b then insert HostWorld (writes s) else writes s)"
  "actor_state (touch_host b s) = actor_state s" "unknown (touch_host b s) = unknown s"
  by (simp_all add: touch_host_def)

lemma declare_unknown_simps [simp]:
  "reads (declare_unknown s) = insert HostWorld (reads s)" "writes (declare_unknown s) = insert HostWorld (writes s)"
  "actor_state (declare_unknown s) = actor_state s" "unknown (declare_unknown s)"
  by (simp_all add: declare_unknown_def)

lemma apply_checked_footprint:
  assumes "apply_checked d base = Inr r"
  shows "reads base \<union> decl_reads d \<subseteq> reads r" "writes base \<union> decl_writes d \<subseteq> writes r"
    "reads r \<subseteq> insert HostWorld (reads base \<union> decl_reads d)" "writes r \<subseteq> insert HostWorld (writes base \<union> decl_writes d)"
    "actor_state r = actor_state base"
  using assms by (auto simp: apply_checked_def Let_def split: if_splits)








text \<open>A block of a persistent shim carries its actor, whatever it declares.\<close>

lemma exec_actor:
  assumes "effect_summary_for_plan_node vd i (ExecNode lang env attr b) = Inr s" "bi_execution b = Shim"
    and "is_persistent (from_encoded env)"
  shows "actor_state s = Some \<lparr>canonical_language = bi_canonical b, actor_environment = env\<rparr>"
    and "ActorState \<lparr>canonical_language = bi_canonical b, actor_environment = env\<rparr> \<in> writes s"
proof -
  let ?a = "\<lparr>canonical_language = bi_canonical b, actor_environment = env\<rparr>"
  obtain d s0 where d: "apply_checked d (with_actor_state ?a s0) = Inr s"
    using assms by (auto simp: Let_def split: sum.splits)
  have "actor_state (with_actor_state ?a s0) = Some ?a" "ActorState ?a \<in> writes (with_actor_state ?a s0)"
    by (simp_all add: with_actor_state_def Let_def)
  then show "actor_state s = Some ?a" "ActorState ?a \<in> writes s" using apply_checked_footprint(2,5) [OF d] by auto
qed

lemma sample_declaration: "parse_declaration (Some ''reads=host:a'') =
    Inr \<lparr>purity = None, decl_reads = {HostPath ''a''}, decl_writes = {}, serial_host = False\<rparr>"
  by code_simp

section \<open>Properties\<close>



text \<open>C19: Two blocks of the same persistent shim environment always conflict and both write the state of their
  actor, whatever effects their attributes declare.\<close>

theorem same_actor_conflicts:
  assumes "effect_summary_for_plan_node vd i (ExecNode lang env attr b) = Inr s"
    and "effect_summary_for_plan_node vd j (ExecNode lang' env attr' b') = Inr t"
    and "bi_execution b = Shim" "bi_execution b' = Shim" "bi_canonical b = bi_canonical b'"
    and "is_persistent (from_encoded env)"
  shows "conflicts_with s t \<and>
    ActorState \<lparr>canonical_language = bi_canonical b, actor_environment = env\<rparr> \<in> writes s \<inter> writes t"
proof -
  note s = exec_actor [OF assms(1,3,6)] and t = exec_actor [OF assms(2,4,6), unfolded assms(5) [symmetric]]
  then have "conflicts_with s t" by (simp add: conflicts_with_iff)
  then show ?thesis using s(2) t(2) by blast
qed

definition shim_backend :: backend_interface where
  "shim_backend = \<lparr>bi_canonical = ''py'', bi_specification_sha256 = None, bi_pure = False, bi_renderer = PythonRenderer,
     bi_execution = Shim, bi_value_capabilities = UNKNOWN_CAPABILITIES, bi_state_support = None, bi_required_authorities = []\<rparr>"

theorem same_actor_conflicts_witness:
  "\<exists>s t. effect_summary_for_plan_node (\<lambda>_ _. Inr ()) 0 (ExecNode ''py'' 3 None shim_backend) = Inr s \<and>
     effect_summary_for_plan_node (\<lambda>_ _. Inr ()) 1 (ExecNode ''py'' 3 (Some ''reads=host:a'') shim_backend) = Inr t \<and> conflicts_with s t"
proof -
  have p: "is_persistent (from_encoded 3)" by code_simp
  obtain s where "effect_summary_for_plan_node (\<lambda>_ _. Inr ()) 0 (ExecNode ''py'' 3 None shim_backend) = Inr s"
    by (simp add: Let_def parse_declaration_def apply_checked_def no_declaration_def)
  moreover obtain t where "effect_summary_for_plan_node (\<lambda>_ _. Inr ()) 1 (ExecNode ''py'' 3 (Some ''reads=host:a'') shim_backend) = Inr t"
    by (simp only: effect_summary_for_plan_node.simps sample_declaration) (simp add: Let_def apply_checked_def)
  moreover from same_actor_conflicts [OF calculation _ _ _ p] have "conflicts_with s t" by (simp add: shim_backend_def)
  ultimately show ?thesis by blast
qed

end
