(* ===== verification/Dispatch.thy ===== *)
theory Dispatch
  imports Effects_Correct Plan_Builder Plan_Correct
begin

text \<open>
  Dispatch classification, \<^verbatim>\<open>crates/ostadix-api/src/dispatch_model.rs\<close>: which local task adapter an
  instruction describes, which explicit autonomous group lets a fresh hosted block run unordered, and
  the effect contract of local workers. A walk over the parents keeps the nodes it has visited, so it
  ends on every plan. \<open>PlanPanic\<close> is an index out of range.
\<close>

section \<open>Adapters\<close>

datatype DispatchAdapterV1 =
  CoordinatorV1 | OScopeLoadV1 | TrustedInlineRendererV1 | AutonomousEphemeralShimV1 | NativeI64V1

fun adapter_name :: "DispatchAdapterV1 \<Rightarrow> string" where
  "adapter_name NativeI64V1 = ''ocore-native-i64/v1''"
| "adapter_name CoordinatorV1 = ''coordinator/v1''"
| "adapter_name OScopeLoadV1 = ''o-scope-load/v1''"
| "adapter_name TrustedInlineRendererV1 = ''trusted-inline-renderer/v1''"
| "adapter_name AutonomousEphemeralShimV1 = ''autonomous-ephemeral-shim/v1''"

definition is_local_worker :: "DispatchAdapterV1 \<Rightarrow> bool" where
  "is_local_worker a \<longleftrightarrow> a \<noteq> CoordinatorV1"

datatype TaskKind =
    NativeTask
  | RendererTask SpliceRenderer string
  | LoadTask string
  | EphemeralShimTask string SpliceRenderer

fun task_adapter :: "TaskKind \<Rightarrow> DispatchAdapterV1" where
  "task_adapter NativeTask = NativeI64V1"
| "task_adapter (RendererTask _ _) = TrustedInlineRendererV1"
| "task_adapter (LoadTask _) = OScopeLoadV1"
| "task_adapter (EphemeralShimTask _ _) = AutonomousEphemeralShimV1"

section \<open>Autonomous groups\<close>

text \<open>The structural parents of a node, from all edges of the plan or from the index.\<close>

definition structural_parents :: "execution_plan \<Rightarrow> plan_index option \<Rightarrow> nat \<Rightarrow> plan_error + nat list" where
  "structural_parents p index node =
     (let parents = (\<lambda>es. map edge_to (filter (\<lambda>e. edge_kind e = Structural \<and> edge_from e = node) es)) in
      case index of
        None \<Rightarrow> Inr (parents (edges p))
      | Some idx \<Rightarrow> if node < length (outgoing idx) then Inr (parents (outgoing idx ! node)) else Inl PlanPanic)"

text \<open>The nodes that a walk over the parents can meet.\<close>

definition walk_nodes :: "execution_plan \<Rightarrow> plan_index option \<Rightarrow> nat set" where
  "walk_nodes p index =
     set (map edge_to (case index of None \<Rightarrow> edges p | Some idx \<Rightarrow> concat (outgoing idx)))"

lemma structural_parents_walk: "structural_parents p index node = Inr ps \<Longrightarrow> set ps \<subseteq> walk_nodes p index"
  by (auto simp: structural_parents_def walk_nodes_def Let_def split: option.splits if_splits) (auto dest: nth_mem)

lemma finite_walk_nodes [simp]: "finite (walk_nodes p index)"
  by (simp add: walk_nodes_def)

lemma walk_decreases:
  assumes "structural_parents p index current = Inr [parent]" "current \<notin> visited"
  shows "card (insert parent (walk_nodes p index) - insert current visited) <
    card (insert current (walk_nodes p index) - visited)"
proof -
  have "parent \<in> walk_nodes p index" using structural_parents_walk [OF assms(1)] by simp
  then have "insert parent (walk_nodes p index) - insert current visited \<subset> insert current (walk_nodes p index) - visited"
    using assms(2) by auto
  then show ?thesis by (simp add: psubset_card_mono)
qed

text \<open>An attribute-free fresh hosted block, or a fresh pure inline renderer, passes a walk through.\<close>

fun transparent_exec :: "PlanNodeKind \<Rightarrow> bool" where
  "transparent_exec (ExecNode lang env_id attr backend) \<longleftrightarrow>
     is_fresh (from_encoded env_id) \<and> attr = None \<and>
     (bi_execution backend = Shim \<or> bi_pure backend \<and> bi_execution backend = InlineValue)"
| "transparent_exec _ \<longleftrightarrow> False"

text \<open>
  Both walks go up through the single structural parent of each node until the kind of the parent stops
  them; a repeated node, or none or several parents, end them without a verdict.
\<close>

datatype 'a walk = Stop 'a | Up

function climb ::
  "(PlanNodeKind \<Rightarrow> 'a walk) \<Rightarrow> execution_plan \<Rightarrow> plan_index option \<Rightarrow> nat \<Rightarrow> nat set \<Rightarrow>
   plan_error + ('a \<times> nat \<times> nat) option" where
  "climb step p index current visited =
     (if current \<in> visited then Inr None
      else case structural_parents p index current of
        Inl e \<Rightarrow> Inl e
      | Inr [parent] \<Rightarrow>
          if parent \<ge> length (nodes p) then Inl PlanPanic
          else (case step (node_kind (nodes p ! parent)) of
              Stop a \<Rightarrow> Inr (Some (a, parent, current))
            | Up \<Rightarrow> climb step p index parent (insert current visited))
      | Inr _ \<Rightarrow> Inr None)"
  by pat_completeness auto

termination climb
  by (relation "measure (\<lambda>(step, p, index, current, visited). card (insert current (walk_nodes p index) - visited))")
    (auto simp: walk_decreases)

declare climb.simps [simp del]

text \<open>Force and ordinary calls keep the inherited policy; a block that is not transparent ends it.\<close>

fun policy_step :: "PlanNodeKind \<Rightarrow> bool walk" where
  "policy_step (ScheduleNode _ AutonomousSchedule _) = Stop True"
| "policy_step (ScheduleNode _ LazySchedule _) = Stop False"
| "policy_step (ExecNode lang env_id attr backend) =
     (if transparent_exec (ExecNode lang env_id attr backend) then Up else Stop False)"
| "policy_step _ = Up"

definition nearest_policy_schedule_is_autonomous ::
  "execution_plan \<Rightarrow> plan_index option \<Rightarrow> nat \<Rightarrow> plan_error + bool" where
  "nearest_policy_schedule_is_autonomous p index node =
     and_then (climb policy_step p index node {}) (\<lambda>found. Inr (case found of None \<Rightarrow> False | Some (b, _) \<Rightarrow> b))"

fun member_step :: "PlanNodeKind \<Rightarrow> bool walk" where
  "member_step (GroupNode _ _) = Stop True"
| "member_step (StoreNode _) = Up"
| "member_step kind = (if transparent_exec kind then Up else Stop False)"

definition autonomous_member_with_index ::
  "execution_plan \<Rightarrow> plan_index option \<Rightarrow> nat \<Rightarrow> plan_error + (nat \<times> nat) option" where
  "autonomous_member_with_index p index node =
     and_then (climb member_step p index node {}) (\<lambda>found. case found of
         Some (True, g, m) \<Rightarrow>
           and_then (nearest_policy_schedule_is_autonomous p index g) (\<lambda>b. Inr (if b then Some (g, m) else None))
       | _ \<Rightarrow> Inr None)"

definition autonomous_member :: "execution_plan \<Rightarrow> nat \<Rightarrow> plan_error + (nat \<times> nat) option" where
  "autonomous_member p node = autonomous_member_with_index p None node"

definition autonomous_member_indexed ::
  "execution_plan \<Rightarrow> plan_index \<Rightarrow> nat \<Rightarrow> plan_error + (nat \<times> nat) option" where
  "autonomous_member_indexed p index node = autonomous_member_with_index p (Some index) node"

definition autonomous_ephemeral_group_with_index ::
  "execution_plan \<Rightarrow> plan_index option \<Rightarrow> nat \<Rightarrow> OIr \<Rightarrow> plan_error + nat option" where
  "autonomous_ephemeral_group_with_index p index node oir =
     (case oir of
        Exec lang env_id attr backend body \<Rightarrow>
          if \<not> is_fresh (from_encoded env_id) \<or> attr \<noteq> None \<or> bi_execution backend \<noteq> Shim then Inr None
          else and_then (autonomous_member_with_index p index node) (\<lambda>m. Inr (map_option fst m))
      | _ \<Rightarrow> Inr None)"

definition autonomous_ephemeral_group :: "execution_plan \<Rightarrow> nat \<Rightarrow> OIr \<Rightarrow> plan_error + nat option" where
  "autonomous_ephemeral_group p node oir = autonomous_ephemeral_group_with_index p None node oir"

definition autonomous_ephemeral_group_indexed ::
  "execution_plan \<Rightarrow> plan_index \<Rightarrow> nat \<Rightarrow> OIr \<Rightarrow> plan_error + nat option" where
  "autonomous_ephemeral_group_indexed p index node oir = autonomous_ephemeral_group_with_index p (Some index) node oir"

section \<open>Classification\<close>

text \<open>A renderer whose inputs are literals, bindings of literals and renderers of the same kind.\<close>

fun renderer_input_statically_preparable :: "OIr \<Rightarrow> bool" where
  "renderer_input_statically_preparable (Text _) = True"
| "renderer_input_statically_preparable (Store _ expr) = renderer_input_statically_preparable expr"
| "renderer_input_statically_preparable (Exec lang env_id attr backend body) =
     (attr = None \<and> trusted_inline_renderer backend \<and> list_all renderer_input_statically_preparable body)"
| "renderer_input_statically_preparable _ = False"

fun renderer_inputs_statically_preparable :: "OIr \<Rightarrow> bool" where
  "renderer_inputs_statically_preparable (Exec lang env_id attr backend body) =
     (attr = None \<and> trusted_inline_renderer backend \<and> list_all renderer_input_statically_preparable body)"
| "renderer_inputs_statically_preparable _ = False"

definition native_adapter_matches :: "(bytes \<Rightarrow> string) \<Rightarrow> execution_plan \<Rightarrow> nat \<Rightarrow> OIr \<Rightarrow> bool" where
  "native_adapter_matches sha256 p i oir =
     (if i < length (nodes p)
      then (case (node_kind (nodes p ! i), native_leaf_source_descriptor sha256 oir) of
          (NativeI64Node (Some expected) _, Some actual) \<Rightarrow> expected = actual
        | _ \<Rightarrow> False)
      else False)"

definition classify :: "(bytes \<Rightarrow> string) \<Rightarrow> execution_plan \<Rightarrow> OIr \<Rightarrow> nat \<Rightarrow> plan_error + TaskKind option" where
  "classify sha256 p oir i =
     (if native_adapter_matches sha256 p i oir then Inr (Some NativeTask)
      else case oir of
        Load name \<Rightarrow> Inr (Some (LoadTask name))
      | Exec lang env_id attr backend body \<Rightarrow>
          if attr = None \<and> bi_pure backend \<and> bi_execution backend = InlineValue \<and> renderer_inputs_statically_preparable oir
          then Inr (if bi_canonical backend \<in> {''html'', ''markdown'', ''text'', ''latex''}
            then Some (RendererTask (bi_renderer backend) (bi_canonical backend)) else None)
          else and_then (autonomous_ephemeral_group p i oir) (\<lambda>g.
            Inr (if g \<noteq> None then Some (EphemeralShimTask (bi_canonical backend) (bi_renderer backend)) else None))
      | _ \<Rightarrow> Inr None)"

definition adapter_matches ::
  "(bytes \<Rightarrow> string) \<Rightarrow> DispatchAdapterV1 \<Rightarrow> execution_plan \<Rightarrow> nat \<Rightarrow> OIr \<Rightarrow> plan_error + bool" where
  "adapter_matches sha256 a p i oir =
     (case a of
        NativeI64V1 \<Rightarrow> Inr (native_adapter_matches sha256 p i oir)
      | OScopeLoadV1 \<Rightarrow> Inr (case oir of Load _ \<Rightarrow> True | _ \<Rightarrow> False)
      | TrustedInlineRendererV1 \<Rightarrow> Inr (renderer_inputs_statically_preparable oir)
      | AutonomousEphemeralShimV1 \<Rightarrow> and_then (autonomous_ephemeral_group p i oir) (\<lambda>g. Inr (g \<noteq> None))
      | CoordinatorV1 \<Rightarrow> Inr False)"

fun is_scope_binding :: "ResourceKey \<Rightarrow> bool" where
  "is_scope_binding (ScopeBinding _) = True"
| "is_scope_binding _ = False"

text \<open>The hard effect predicate of local workers.\<close>

definition effect_contract_worker_safe :: "effect_summary \<Rightarrow> OIr \<Rightarrow> bool" where
  "effect_contract_worker_safe s oir =
     (case oir of
        NativeLeaf _ _ _ _ _ \<Rightarrow>
          confidence s = Verified \<and> deterministic s \<and> fallibility s = MayFail \<and> \<not> unknown s \<and> actor_state s = None \<and>
          reads s = {} \<and> writes s = {} \<and> \<not> network s \<and> \<not> spawn s \<and> \<not> clock s
      | Exec _ env_id _ backend _ \<Rightarrow>
          if is_fresh (from_encoded env_id) \<and> bi_execution backend = Shim
          then unknown s \<and> fallibility s = MayFail \<and> actor_state s = None
          else is_verified_pure_infallible s
      | Load _ \<Rightarrow>
          confidence s = Verified \<and> deterministic s \<and> fallibility s = MayFail \<and> \<not> unknown s \<and> actor_state s = None \<and>
          writes s = {} \<and> (\<forall>r \<in> reads s. is_scope_binding r) \<and> \<not> network s \<and> \<not> spawn s \<and> \<not> clock s
      | _ \<Rightarrow> is_verified_pure_infallible s)"

section \<open>The index changes nothing\<close>

lemma structural_parents_indexed:
  assumes "index_new p = Inr idx" "node < length (nodes p)"
  shows "structural_parents p (Some idx) node = structural_parents p None node"
  using index_new_fields [OF assms(1)] assms(2)
  by (auto simp: structural_parents_def Let_def intro!: arg_cong [of _ _ "map edge_to"] filter_cong)

lemma structural_parents_total: "\<exists>ps. structural_parents p None node = Inr ps"
  by (simp add: structural_parents_def)

lemma structural_parents_bound:
  assumes "index_new p = Inr idx" "structural_parents p None node = Inr ps"
  shows "\<forall>q \<in> set ps. q < length (nodes p)"
  using index_new_fields [OF assms(1)] assms(2) by (auto simp: structural_parents_def Let_def)

lemma climb_indexed:
  assumes idx: "index_new p = Inr idx" and "current < length (nodes p)"
  shows "climb step p (Some idx) current visited = climb step p None current visited \<and>
    (\<exists>r. climb step p None current visited = Inr r \<and> (\<forall>a g m. r = Some (a, g, m) \<longrightarrow> g < length (nodes p)))"
  using assms(2)
proof (induction "card (insert current (walk_nodes p None) - visited)" arbitrary: current visited rule: less_induct)
  case less
  obtain ps where ps: "structural_parents p None current = Inr ps" using structural_parents_total by blast
  note eq = structural_parents_indexed [OF idx less.prems]
  show ?case
  proof (cases "current \<in> visited \<or> (\<forall>q. ps \<noteq> [q])")
    case True
    then show ?thesis using ps eq by (auto simp: climb.simps [of step p _ current] split: list.splits)
  next
    case False
    then obtain q where q: "ps = [q]" "current \<notin> visited" by blast
    then have b: "q < length (nodes p)" using structural_parents_bound [OF idx ps] by simp
    have "card (insert q (walk_nodes p None) - insert current visited) < card (insert current (walk_nodes p None) - visited)"
      using walk_decreases [of p None current q visited] ps q by simp
    from less.hyps [OF this b] show ?thesis
      using ps eq q b by (cases "step (node_kind (nodes p ! q))") (simp_all add: climb.simps [of step p _ current])
  qed
qed

lemma policy_indexed:
  assumes "index_new p = Inr idx" "node < length (nodes p)"
  shows "nearest_policy_schedule_is_autonomous p (Some idx) node = nearest_policy_schedule_is_autonomous p None node \<and>
    (\<exists>b. nearest_policy_schedule_is_autonomous p None node = Inr b)"
  using climb_indexed [OF assms, of policy_step "{}"] by (auto simp: nearest_policy_schedule_is_autonomous_def)

lemma member_indexed:
  assumes "index_new p = Inr idx" "node < length (nodes p)"
  shows "autonomous_member_indexed p idx node = autonomous_member p node \<and> (\<exists>r. autonomous_member p node = Inr r)"
proof -
  obtain r where c: "climb member_step p (Some idx) node {} = Inr r" "climb member_step p None node {} = Inr r"
    "\<forall>a g m. r = Some (a, g, m) \<longrightarrow> g < length (nodes p)"
    using climb_indexed [OF assms, of member_step "{}"] by auto
  show ?thesis
  proof (cases "\<exists>g m. r = Some (True, g, m)")
    case True
    then obtain g m where r: "r = Some (True, g, m)" by blast
    then obtain b where "nearest_policy_schedule_is_autonomous p (Some idx) g = Inr b"
        "nearest_policy_schedule_is_autonomous p None g = Inr b"
      using policy_indexed [OF assms(1), of g] c(3) by auto
    then show ?thesis
      using c r by (simp add: autonomous_member_indexed_def autonomous_member_def autonomous_member_with_index_def)
  next
    case False
    then show ?thesis
      using c by (auto simp: autonomous_member_indexed_def autonomous_member_def autonomous_member_with_index_def
          split: option.splits bool.splits)
  qed
qed

section \<open>Summaries of classified nodes\<close>

lemma native_summary:
  assumes "effect_summary_for_plan_node v i (NativeI64Node d n) = Inr s"
  shows "s = summary_pure\<lparr>fallibility := MayFail\<rparr>"
proof -
  obtain t where "d = Some t" "(case v t n of Inl e \<Rightarrow> Inl (InvalidDescriptor e) | Inr _ \<Rightarrow> Inr (summary_pure\<lparr>fallibility := MayFail\<rparr>)) = Inr s"
    using assms by (auto simp: res_simps)
  then show ?thesis by (cases "v t n") auto
qed

lemma apply_no_declaration [simp]: "apply_checked no_declaration base = Inr base"
  by (simp add: apply_checked_def no_declaration_def Let_def touch_host_def)

lemma plain_exec_summary:
  assumes "effect_summary_for_plan_node v i (ExecNode lang env_id None backend) = Inr s"
    "\<not> (bi_execution backend = Shim \<and> is_persistent (from_encoded env_id))"
  shows "s = (if trusted_inline_renderer backend then summary_pure else conservative_evaluator)"
  using assms by (simp add: parse_declaration_def)

section \<open>Properties\<close>

text \<open>C29: On a validated plan the indexed and the scanning classification of autonomous members and of autonomous
  fresh blocks agree, and neither fails.\<close>

theorem autonomous_index_agrees:
  assumes "index_new p = Inr idx" "node < length (nodes p)"
  shows "autonomous_member_indexed p idx node = autonomous_member p node \<and>
    autonomous_ephemeral_group_indexed p idx node oir = autonomous_ephemeral_group p node oir \<and>
    is_ok (autonomous_ephemeral_group p node oir)"
  using member_indexed [OF assms]
  by (auto simp: autonomous_ephemeral_group_indexed_def autonomous_ephemeral_group_def
      autonomous_ephemeral_group_with_index_def autonomous_member_indexed_def autonomous_member_def split: OIr.splits)

theorem autonomous_index_agrees_witness:
  "autonomous_member_indexed sample_plan (projr (index_new sample_plan)) 2 = autonomous_member sample_plan 2"
proof -
  have "is_ok (index_new sample_plan)" by code_simp
  then have "index_new sample_plan = Inr (projr (index_new sample_plan))"
    by (cases "index_new sample_plan") simp_all
  moreover have "2 < length (nodes sample_plan)" by (simp add: sample_plan_def)
  ultimately show ?thesis using autonomous_index_agrees by blast
qed

text \<open>C20: A node that is classified for a local worker meets the effect contract of that worker, and the adapter
  bound to it matches the instruction.\<close>

theorem classified_worker_safe:
  assumes "classify sha256 p oir i = Inr (Some kind)"
    and "i < length (nodes p)" "node_kind (nodes p ! i) = plan_kind sha256 oir"
    and "effect_summary_for_plan_node validate_descriptor i (node_kind (nodes p ! i)) = Inr s"
  shows "effect_contract_worker_safe s oir \<and> adapter_matches sha256 (task_adapter kind) p i oir = Inr True"
proof (cases "native_adapter_matches sha256 p i oir")
  case True
  then obtain k n prov d args where oir: "oir = NativeLeaf k n prov d args"
    using assms(2,3) by (cases oir) (auto simp: native_adapter_matches_def split: InvokeMode.splits if_splits)
  then have "s = summary_pure\<lparr>fallibility := MayFail\<rparr>" using native_summary assms(3,4) by simp
  then show ?thesis
    using assms(1) True oir by (simp add: classify_def adapter_matches_def effect_contract_worker_safe_def summary_pure_def)
next
  case False
  show ?thesis
  proof (cases oir)
    case (Load name)
    then show ?thesis
      using assms False by (auto simp: classify_def adapter_matches_def effect_contract_worker_safe_def summary_pure_def)
  next
    case (Exec lang env_id attr backend body)
    show ?thesis
    proof (cases "renderer_inputs_statically_preparable oir")
      case True
      then have r: "attr = None" "trusted_inline_renderer backend" "bi_execution backend \<noteq> Shim"
        using Exec by (auto simp: trusted_inline_renderer_def)
      then have "s = summary_pure" using plain_exec_summary [of validate_descriptor i lang env_id backend s] assms(3,4) Exec by simp
      then show ?thesis
        using assms(1) False True r Exec
        by (auto simp: classify_def adapter_matches_def effect_contract_worker_safe_def trusted_inline_renderer_def
            is_verified_pure_infallible_def summary_pure_def)
    next
      case nr: False
      then obtain g where g: "autonomous_ephemeral_group p i oir = Inr (Some g)" and k: "task_adapter kind = AutonomousEphemeralShimV1"
        using assms(1) False Exec by (auto simp: classify_def res_simps split: if_splits)
      then have e: "is_fresh (from_encoded env_id)" "attr = None" "bi_execution backend = Shim"
        using Exec by (auto simp: autonomous_ephemeral_group_def autonomous_ephemeral_group_with_index_def split: if_splits)
      then have "s = conservative_evaluator"
        using plain_exec_summary [of validate_descriptor i lang env_id backend s] assms(3,4) Exec
        by (auto simp: trusted_inline_renderer_def) (cases "from_encoded env_id"; simp)
      then show ?thesis
        using e g k Exec
        by (simp add: adapter_matches_def effect_contract_worker_safe_def conservative_evaluator_def summary_unknown_def Let_def)
    qed
  qed (use assms(1) False in \<open>auto simp: classify_def\<close>)
qed

theorem classified_worker_safe_witness:
  "adapter_matches (\<lambda>_. []) OScopeLoadV1 sample_plan 2 (Load ''x'') = Inr True"
proof -
  have "classify (\<lambda>_. []) sample_plan (Load ''x'') 2 = Inr (Some (LoadTask ''x''))" by code_simp
  moreover have "2 < length (nodes sample_plan)"
    "node_kind (nodes sample_plan ! 2) = plan_kind (\<lambda>_. []) (Load ''x'')"
    by (simp_all add: sample_plan_def)
  moreover have "\<exists>s. effect_summary_for_plan_node (\<lambda>_ _. Inr ()) 2 (node_kind (nodes sample_plan ! 2)) = Inr s"
    by (simp add: sample_plan_def)
  ultimately show ?thesis using classified_worker_safe by fastforce
qed

end
