(* ===== verification/HGraph.thy ===== *)
theory HGraph
  imports Dispatch Fidelity "HOL-Library.AList"
begin

text \<open>
  The operation hypergraph (\<^verbatim>\<open>crates/ostadix-api/src/hgraph/kinds.rs\<close> and \<^verbatim>\<open>graph.rs\<close>): value,
  resource, completion and evidence nodes, the hyperedges that produce and consume them, and the
  operations that build a graph. A hash map is an association list in its iteration order, with distinct
  keys; statements about every such list cover every iteration order. The values that nodes carry are a
  type parameter. Identities are allocated from zero and stay far below the width of their counters.
\<close>

section \<open>Kinds\<close>

record actor_id =
  actor_lang :: u32
  actor_env :: u32

datatype MemOrder = Relaxed | Acquire | Release | AcqRel | SeqCst

datatype OcoreOpKind =
    OcoreAdd | OcoreSub | OcoreMul | OcoreDiv | OcoreLoad | OcoreStore | OcoreInb | OcoreOutb
  | OcoreVolatileLoad | OcoreVolatileStore | OcoreAtomicFetch MemOrder

datatype OpKind =
    Additive | Multiplicative | Bitwise | Ordered
  | Bounded int
  | AbiFixed u16 u16
  | Dereferenceable
  | FieldAccess string
  | DataFlow | StructuralBarrier | SequenceRelation
  | ActorSerial actor_id
  | BatchRelation | AllRelation | AnyRelation | RaceRelation
  | RequestRelation string
  | ScheduleRelation string
  | CacheMemo bool
  | BackendCrossing string string
  | X86 string
  | OcoreOp OcoreOpKind

datatype ExecutableOp =
    NativeI64Op string
  | StoreOp
  | LoadBindingOp
  | InvokeOp string InvokeMode
  | EvalBackendOp string u32
  | InlineBackendOp string
  | ForceRequestOp string
  | RequestOp string
  | GroupOp GroupMode
  | ScheduleOp string
  | MaterializeProjectOp
  | BuildRouteOp string
  | RunRouteOp string
  | SelectRouteOp string
  | CompareRouteResultsOp

datatype ReadyInputPolicy = AllInputs | OrderedFirstSuccess

datatype ConstraintOp =
    DataFlowConstraint | StructuralConstraint | SequenceControl
  | ActorSerialConstraint actor_id
  | EffectOrder ResourceKey
  | CommitOrder u64
  | BackendCrossingConstraint string string
  | BranchGuard string
  | TypeConstraint OpKind

fun from_op_kind :: "OpKind \<Rightarrow> ConstraintOp" where
  "from_op_kind DataFlow = DataFlowConstraint"
| "from_op_kind StructuralBarrier = StructuralConstraint"
| "from_op_kind SequenceRelation = SequenceControl"
| "from_op_kind (ActorSerial actor) = ActorSerialConstraint actor"
| "from_op_kind (BackendCrossing from_lang to_lang) = BackendCrossingConstraint from_lang to_lang"
| "from_op_kind other = TypeConstraint other"

datatype HEdgeKind = Execute ExecutableOp | ConstraintEdge ConstraintOp

datatype ValueState = Unresolved | Materialized | Failed string | DisabledByBranch

datatype AdmissionFactKind =
  TypeFact | EffectFootprint | DispatchFact | CapabilityPolicy | PlacementFact | FailurePolicy | ResourceBudget

definition ADMISSION_FACTS :: "AdmissionFactKind list" where
  "ADMISSION_FACTS = [TypeFact, EffectFootprint, DispatchFact, CapabilityPolicy, PlacementFact, FailurePolicy, ResourceBudget]"

fun admission_fact_name :: "AdmissionFactKind \<Rightarrow> string" where
  "admission_fact_name TypeFact = ''type''"
| "admission_fact_name EffectFootprint = ''effect-footprint''"
| "admission_fact_name DispatchFact = ''dispatch''"
| "admission_fact_name CapabilityPolicy = ''capability-policy''"
| "admission_fact_name PlacementFact = ''placement''"
| "admission_fact_name FailurePolicy = ''failure-policy''"
| "admission_fact_name ResourceBudget = ''resource-budget''"

text \<open>The flag sets that the graph itself uses.\<close>

definition DOMAIN_ANY :: u16 where
  "DOMAIN_ANY = 0x00ff"

definition DOMAIN_INTEGER :: u16 where
  "DOMAIN_INTEGER = 0x0001"

definition DOMAIN_STRING :: u16 where
  "DOMAIN_STRING = 0x0020"

definition REP_ANY :: u16 where
  "REP_ANY = 0x07ff"

definition REP_I64 :: u16 where
  "REP_I64 = 0x0008"

definition REP_STR :: u16 where
  "REP_STR = 0x0400"

section \<open>Nodes, edges and graphs\<close>

datatype HNodeKind =
    ValueNode
  | ResourceStateNode ResourceKey u64
  | CompletionNode nat
  | BranchControlNode string u64
  | AdmissionEvidenceNode nat AdmissionFactKind

record 'v hnode =
  hn_id :: nat
  hn_kind :: HNodeKind
  hn_domain :: u16
  hn_rep :: u16
  hn_value :: "'v option"
  hn_actor :: "actor_id option"
  hn_fidelity_assessment :: "FidelityAssessmentV2 option"
  hn_fidelity :: "Fidelity option"
  hn_incident :: "nat list"
  hn_state :: ValueState
  hn_producer :: "nat option"
  hn_consumers :: "nat list"
  hn_plan_node :: "nat option"

definition fresh_node :: "'v hnode" where
  "fresh_node = \<lparr>hn_id = 0, hn_kind = ValueNode, hn_domain = DOMAIN_ANY, hn_rep = REP_ANY, hn_value = None,
     hn_actor = None, hn_fidelity_assessment = None, hn_fidelity = None, hn_incident = [], hn_state = Unresolved,
     hn_producer = None, hn_consumers = [], hn_plan_node = None\<rparr>"

definition with_value :: "'v \<Rightarrow> 'v hnode" where
  "with_value v = fresh_node\<lparr>hn_value := Some v, hn_state := Materialized\<rparr>"

text \<open>A scheduling node; its constructor asserts that the kind is not that of an ordinary value.\<close>

definition synthetic_node :: "HNodeKind \<Rightarrow> ValueState \<Rightarrow> 'v hnode" where
  "synthetic_node kind state = fresh_node\<lparr>hn_kind := kind, hn_domain := 0, hn_rep := 0, hn_state := state\<rparr>"

definition resource_state_node :: "ResourceKey \<Rightarrow> u64 \<Rightarrow> 'v hnode" where
  "resource_state_node r version =
     synthetic_node (ResourceStateNode r version) (if version = 0 then Materialized else Unresolved)"

definition completion_hnode :: "nat \<Rightarrow> 'v hnode" where
  "completion_hnode p = synthetic_node (CompletionNode p) Unresolved"

definition branch_control_node :: "string \<Rightarrow> u64 \<Rightarrow> bool \<Rightarrow> 'v hnode" where
  "branch_control_node label version materialized =
     synthetic_node (BranchControlNode label version) (if materialized then Materialized else Unresolved)"

definition admission_evidence_node :: "nat \<Rightarrow> AdmissionFactKind \<Rightarrow> 'v hnode" where
  "admission_evidence_node p fk = synthetic_node (AdmissionEvidenceNode p fk) Materialized"

definition is_value :: "'v hnode \<Rightarrow> bool" where
  "is_value n \<longleftrightarrow> hn_kind n = ValueNode"

datatype PortRole = InputPort | OutputPort | InOutPort

record port =
  port_node :: nat
  port_role :: PortRole

record hedge =
  he_id :: nat
  he_kind :: OpKind
  he_op :: HEdgeKind
  he_ports :: "port list"

definition constraint_edge :: "OpKind \<Rightarrow> port list \<Rightarrow> hedge" where
  "constraint_edge kind ports =
     \<lparr>he_id = 0, he_kind = kind, he_op = ConstraintEdge (from_op_kind kind), he_ports = ports\<rparr>"

definition execute_edge :: "ExecutableOp \<Rightarrow> port list \<Rightarrow> hedge" where
  "execute_edge op ports = \<lparr>he_id = 0, he_kind = SequenceRelation, he_op = Execute op, he_ports = ports\<rparr>"

definition is_execute :: "hedge \<Rightarrow> bool" where
  "is_execute e = (case he_op e of Execute _ \<Rightarrow> True | _ \<Rightarrow> False)"

record exec_info =
  ei_edge :: nat
  ei_value_output :: nat
  ei_inputs :: "nat list"
  ei_outputs :: "nat list"
  ei_ordinal :: nat
  ei_plan_node :: nat

record sequence_dependency =
  sd_predecessor :: nat
  sd_successor :: nat
  sd_completion :: nat

record 'v hgraph =
  hg_nodes :: "(nat \<times> 'v hnode) list"
  hg_edges :: "(nat \<times> hedge) list"
  exec_edges :: "(nat \<times> hedge) list"
  op_map :: "(nat \<times> exec_info) list"
  effect_summaries :: "(nat \<times> effect_summary) list"
  completion_nodes :: "(nat \<times> nat) list"
  sequence_dependencies :: "sequence_dependency list"
  admission_evidence_nodes :: "((nat \<times> AdmissionFactKind) \<times> nat) list"
  bindings :: "(string \<times> nat) list"
  ir_map :: "(nat \<times> OIr) list"
  root_nodes :: "nat list"
  source_plan :: "execution_plan option"
  next_node :: nat
  next_edge :: nat

definition hgraph_default :: "'v hgraph" where
  "hgraph_default = \<lparr>hg_nodes = [], hg_edges = [], exec_edges = [], op_map = [], effect_summaries = [],
     completion_nodes = [], sequence_dependencies = [], admission_evidence_nodes = [], bindings = [], ir_map = [],
     root_nodes = [], source_plan = None, next_node = 0, next_edge = 0\<rparr>"

abbreviation hg_node :: "'v hgraph \<Rightarrow> nat \<Rightarrow> 'v hnode option" where
  "hg_node g \<equiv> map_of (hg_nodes g)"

abbreviation exec_edge :: "'v hgraph \<Rightarrow> nat \<Rightarrow> hedge option" where
  "exec_edge g \<equiv> map_of (exec_edges g)"

abbreviation op_for :: "'v hgraph \<Rightarrow> nat \<Rightarrow> exec_info option" where
  "op_for g \<equiv> map_of (op_map g)"

abbreviation completion_node :: "'v hgraph \<Rightarrow> nat \<Rightarrow> nat option" where
  "completion_node g \<equiv> map_of (completion_nodes g)"

text \<open>The keys of a hash map are distinct.\<close>

definition keyed :: "'v hgraph \<Rightarrow> bool" where
  "keyed g \<longleftrightarrow> distinct (map fst (hg_nodes g)) \<and> distinct (map fst (hg_edges g)) \<and> distinct (map fst (exec_edges g)) \<and>
     distinct (map fst (op_map g)) \<and> distinct (map fst (effect_summaries g)) \<and> distinct (map fst (completion_nodes g)) \<and>
     distinct (map fst (admission_evidence_nodes g)) \<and> distinct (map fst (ir_map g))"

section \<open>Errors\<close>

text \<open>One constructor per refusal, named after its message, in one type per function that refuses.\<close>

datatype build_error =
    AlreadyExecutable nat
  | RepeatsInput nat nat | MissingInput nat nat
  | RepeatsOutput nat nat | MissingOutput nat nat | HasProducer nat | NotUnresolved nat nat | InputAndOutput nat nat
  | ValueOutputNotOutput nat nat | MissingValueOutput nat nat | ValueOutputNotValue nat nat
  | OrdinaryOutputs nat nat

datatype token_error =
    CompletionMissing nat | NotCompletion nat nat | CompletionTaken nat nat
  | EvidenceTaken nat AdmissionFactKind | NoOperation nat
  | SequenceCompletionMissing nat | NotPredecessorCompletion nat nat nat

datatype policy_error =
    PolicyAbsent nat | PolicyMismatch nat | PolicyMissingEdge nat nat | PolicyNoInputs nat | PolicyMissingInput nat nat
  | PolicyNotValue nat nat | PolicyNoProducer nat nat | PolicyMissingProducer nat nat | PolicyNotRunRoute nat nat

datatype node_error =
    InvalidFidelity nat | StaleFidelity nat | SyntheticMetadata nat | CompletionUnregistered nat nat
  | InitialStateProduced nat | MissingProducer nat nat | ProducerPort nat nat | RepeatsConsumer nat nat
  | MissingConsumer nat nat | ConsumerPort nat nat | ProvenanceMissing nat | ProvenanceSynthetic nat
  | RootMissing nat | RootSynthetic nat

datatype shape_error =
    OpKeyMismatch nat nat | OpMissingEdge nat nat | EdgeMappedTwice nat | NotExecutable nat
  | RepeatsPort nat | PortOverlap nat | PortsDisagree nat | OpInputMissing nat nat | OpInputUnavailable nat nat
  | OpInputConsumer nat nat | ValueOutputAbsent nat | OrdinaryOutput nat | CompletionOutputs nat | CompletionMap nat
  | OpOutputMissing nat nat | OpOutputProducer nat nat | OpOutputState nat nat | SeveralProducers nat
  | NoSummary nat | AccessesDiffer nat | UnmappedEdge nat | StrayCompletion nat | StraySummary nat

datatype semantics_error =
    MustReadWrite nat ResourceKey | NotExecutableSemantics nat | NativeProvenance nat | NativeDescriptor nat
  | NativeContract nat | EvalBackendEffects nat | EvalBackendActor nat | ProjectEffects nat | BuildRouteEffects nat
  | SelectRouteEffects nat | CompareRouteEffects nat

datatype resource_error =
    ReadState nat ResourceKey | WriteState nat ResourceKey | StateAdvance nat ResourceKey
  | DuplicateVersion ResourceKey u64 | VersionUnproduced ResourceKey u64 | VersionUnregistered ResourceKey u64
  | VersionPrior ResourceKey u64 | VersionSkipped ResourceKey nat

datatype sequence_error =
    SequencePredecessor nat | SequenceSuccessor nat | SequenceMissing nat nat | SequenceUnimplemented nat nat

datatype source_error =
    ValueWithoutPlan nat | ValueOutOfBounds nat nat | SeveralValues nat | ValueWithoutProvenance nat
  | ProjectionCounts | RootsDiffer | NoLowering nat | LiteralState nat | SourceWithoutOperation nat
  | ValueOutputDiffers nat | OperationDiffers nat | SummaryDiffers nat | ValueInputsDiffer nat
  | SourceSequenceCompletion nat nat | SourceSequenceInput nat nat | SequencesDuplicated | SequencesDiffer

datatype frontier_error =
    SeveralInitialStates ResourceKey | NoRecordedOir nat | NoCompletionNode nat | NoInitialState ResourceKey
  | StaleWriterState nat ResourceKey | OmitsReader nat ResourceKey | WriteVersion nat ResourceKey

datatype admission_error =
    EvidenceCount | LacksEvidence nat AdmissionFactKind | EvidenceMissing nat | InvalidEvidence nat AdmissionFactKind
  | UnregisteredEvidence nat nat

datatype provenance_error =
    PlanDiffers | FlattenCount | NoValueProvenance nat | NoOirProvenance nat | OirDiffers nat

datatype lowering_error =
    NodeSemanticsDiffer | PlanRootsDiffer | FlattenDiffers | MissingSummary nat | MissingCompletion nat
  | SequenceWithoutCompletion nat

text \<open>\<open>GraphPanic\<close> is a missing key or index that the source indexes without a check.\<close>

datatype hgraph_error =
    GraphPanic
  | PlanFailure plan_error
  | EffectFailure EffectError
  | BuildRefused build_error
  | TokenRefused token_error
  | PolicyRefused policy_error
  | NodeRefused node_error
  | ShapeRefused shape_error
  | SemanticsRefused semantics_error
  | ResourceRefused resource_error
  | SequenceRefused sequence_error
  | SourceRefused source_error
  | FrontierRefused frontier_error
  | ProducerWithoutOperation nat nat
  | ExecutableCycle
  | AdmissionRefused admission_error
  | ProvenanceRefused provenance_error
  | LoweringRefused lowering_error
  | SeveralOperationProducers nat
  | ReadyCycle

section \<open>Building a graph\<close>

definition hg_add_node :: "'v hnode \<Rightarrow> 'v hgraph \<Rightarrow> nat \<times> 'v hgraph" where
  "hg_add_node node g =
     (let i = next_node g in
      (i, g\<lparr>next_node := i + 1, hg_nodes := AList.update i (node\<lparr>hn_id := i\<rparr>) (hg_nodes g)\<rparr>))"

definition update_node :: "nat \<Rightarrow> ('v hnode \<Rightarrow> 'v hnode) \<Rightarrow> (nat \<times> 'v hnode) list \<Rightarrow> (nat \<times> 'v hnode) list" where
  "update_node i f ns = AList.map_entry i f ns"

definition push_incident :: "nat \<Rightarrow> 'v hnode \<Rightarrow> 'v hnode" where
  "push_incident e n = n\<lparr>hn_incident := hn_incident n @ [e]\<rparr>"

definition hg_add_edge :: "hedge \<Rightarrow> 'v hgraph \<Rightarrow> nat \<times> 'v hgraph" where
  "hg_add_edge edge g =
     (let i = next_edge g in
      (i, g\<lparr>next_edge := i + 1,
        hg_nodes := fold (\<lambda>p. update_node (port_node p) (push_incident i)) (he_ports edge) (hg_nodes g),
        hg_edges := AList.update i (edge\<lparr>he_id := i\<rparr>) (hg_edges g)\<rparr>))"

fun check_inputs :: "'v hgraph \<Rightarrow> nat \<Rightarrow> nat set \<Rightarrow> nat list \<Rightarrow> build_error + unit" where
  "check_inputs g p seen [] = Inr ()"
| "check_inputs g p seen (i # is) =
     (if i \<in> seen then Inl (RepeatsInput p i)
      else if hg_node g i = None then Inl (MissingInput p i)
      else check_inputs g p (insert i seen) is)"

fun check_outputs :: "'v hgraph \<Rightarrow> nat \<Rightarrow> nat list \<Rightarrow> nat set \<Rightarrow> nat list \<Rightarrow> build_error + unit" where
  "check_outputs g p inputs seen [] = Inr ()"
| "check_outputs g p inputs seen (i # is) =
     (if i \<in> seen then Inl (RepeatsOutput p i)
      else case hg_node g i of
        None \<Rightarrow> Inl (MissingOutput p i)
      | Some node \<Rightarrow>
          if hn_producer node \<noteq> None then Inl (HasProducer i)
          else if hn_state node \<noteq> Unresolved then Inl (NotUnresolved i p)
          else if i \<in> set inputs then Inl (InputAndOutput i p)
          else check_outputs g p inputs (insert i seen) is)"

definition ordinary_outputs :: "'v hgraph \<Rightarrow> nat list \<Rightarrow> nat list" where
  "ordinary_outputs g outputs = filter (\<lambda>i. case hg_node g i of None \<Rightarrow> False | Some n \<Rightarrow> is_value n) outputs"

definition input_wiring :: "nat \<Rightarrow> 'v hnode \<Rightarrow> 'v hnode" where
  "input_wiring e n = n\<lparr>hn_incident := hn_incident n @ [e], hn_consumers := hn_consumers n @ [e]\<rparr>"

definition output_wiring :: "nat \<Rightarrow> nat \<Rightarrow> 'v hnode \<Rightarrow> 'v hnode" where
  "output_wiring e p n = n\<lparr>hn_incident := hn_incident n @ [e], hn_producer := Some e,
     hn_plan_node := (case hn_plan_node n of None \<Rightarrow> Some p | Some q \<Rightarrow> Some q)\<rparr>"

definition exec_ports :: "nat list \<Rightarrow> nat list \<Rightarrow> port list" where
  "exec_ports inputs outputs =
     map (\<lambda>i. \<lparr>port_node = i, port_role = InputPort\<rparr>) inputs @ map (\<lambda>i. \<lparr>port_node = i, port_role = OutputPort\<rparr>) outputs"

definition add_exec_edge ::
  "nat \<Rightarrow> ExecutableOp \<Rightarrow> nat list \<Rightarrow> nat list \<Rightarrow> nat \<Rightarrow> nat \<Rightarrow> 'v hgraph \<Rightarrow> build_error + (nat \<times> 'v hgraph)" where
  "add_exec_edge p op inputs outputs value_output ordinal g =
     and_then (ensure (op_for g p = None) (AlreadyExecutable p)) (\<lambda>_.
     and_then (check_inputs g p {} inputs) (\<lambda>_.
     and_then (check_outputs g p inputs {} outputs) (\<lambda>_.
     and_then (ensure (value_output \<in> set outputs) (ValueOutputNotOutput value_output p)) (\<lambda>_.
     and_then (ok_or (MissingValueOutput p value_output) (hg_node g value_output)) (\<lambda>value_node.
     and_then (ensure (is_value value_node) (ValueOutputNotValue value_output p)) (\<lambda>_.
     and_then (ensure (length (ordinary_outputs g outputs) = 1) (OrdinaryOutputs p (length (ordinary_outputs g outputs)))) (\<lambda>_.
       let i = next_edge g;
           edge = (execute_edge op (exec_ports inputs outputs))\<lparr>he_id := i\<rparr>;
           ns1 = fold (\<lambda>n. update_node n (input_wiring i)) inputs (hg_nodes g);
           ns2 = fold (\<lambda>n. update_node n (output_wiring i p)) outputs ns1 in
       Inr (i, g\<lparr>next_edge := i + 1, hg_nodes := ns2, exec_edges := AList.update i edge (exec_edges g),
         op_map := AList.update p \<lparr>ei_edge = i, ei_value_output = value_output, ei_inputs = inputs, ei_outputs = outputs,
           ei_ordinal = ordinal, ei_plan_node = p\<rparr> (op_map g)\<rparr>))))))))"

definition set_effect_summary :: "nat \<Rightarrow> effect_summary \<Rightarrow> 'v hgraph \<Rightarrow> 'v hgraph" where
  "set_effect_summary p s g = g\<lparr>effect_summaries := AList.update p s (effect_summaries g)\<rparr>"

definition set_completion_node :: "nat \<Rightarrow> nat \<Rightarrow> 'v hgraph \<Rightarrow> token_error + 'v hgraph" where
  "set_completion_node p node g =
     and_then (ok_or (CompletionMissing node) (hg_node g node)) (\<lambda>n.
     and_then (ensure (hn_kind n = CompletionNode p) (NotCompletion node p)) (\<lambda>_.
     and_then (case completion_node g p of None \<Rightarrow> Inr () | Some existing \<Rightarrow> ensure (existing = node) (CompletionTaken p existing)) (\<lambda>_.
       Inr (g\<lparr>completion_nodes := AList.update p node (completion_nodes g)\<rparr>))))"

definition add_completion_node :: "nat \<Rightarrow> 'v hgraph \<Rightarrow> token_error + (nat \<times> 'v hgraph)" where
  "add_completion_node p g =
     (case completion_node g p of
        Some existing \<Rightarrow> Inl (CompletionTaken p existing)
      | None \<Rightarrow> let (i, g1) = hg_add_node (completion_hnode p) g in
          Inr (i, g1\<lparr>completion_nodes := AList.update p i (completion_nodes g1)\<rparr>))"

definition add_admission_evidence_input :: "nat \<Rightarrow> AdmissionFactKind \<Rightarrow> 'v hgraph \<Rightarrow> hgraph_error + (nat \<times> 'v hgraph)" where
  "add_admission_evidence_input p fk g =
     and_then (ensure (map_of (admission_evidence_nodes g) (p, fk) = None) (TokenRefused (EvidenceTaken p fk))) (\<lambda>_.
     and_then (ok_or (TokenRefused (NoOperation p)) (op_for g p)) (\<lambda>info.
       let e = ei_edge info; (i, g1) = hg_add_node (admission_evidence_node p fk) g in
       if exec_edge g1 e = None then Inl GraphPanic
       else Inr (i, g1\<lparr>hg_nodes := update_node i (input_wiring e) (hg_nodes g1),
         exec_edges := AList.map_entry e (\<lambda>h. h\<lparr>he_ports := he_ports h @ [\<lparr>port_node = i, port_role = InputPort\<rparr>]\<rparr>) (exec_edges g1),
         op_map := AList.map_entry p (\<lambda>info. info\<lparr>ei_inputs := ei_inputs info @ [i]\<rparr>) (op_map g1),
         admission_evidence_nodes := AList.update (p, fk) i (admission_evidence_nodes g1)\<rparr>)))"

definition record_sequence_dependency :: "nat \<Rightarrow> nat \<Rightarrow> nat \<Rightarrow> 'v hgraph \<Rightarrow> token_error + 'v hgraph" where
  "record_sequence_dependency predecessor successor completion g =
     and_then (ok_or (SequenceCompletionMissing completion) (hg_node g completion)) (\<lambda>n.
     and_then (ensure (hn_kind n = CompletionNode predecessor) (NotPredecessorCompletion predecessor successor completion)) (\<lambda>_.
       let d = \<lparr>sd_predecessor = predecessor, sd_successor = successor, sd_completion = completion\<rparr> in
       Inr (if d \<in> set (sequence_dependencies g) then g
            else g\<lparr>sequence_dependencies := sequence_dependencies g @ [d]\<rparr>)))"

definition bind_name :: "string \<Rightarrow> nat \<Rightarrow> 'v hgraph \<Rightarrow> 'v hgraph" where
  "bind_name name node g = g\<lparr>bindings := AList.update name node (bindings g)\<rparr>"

definition record_ir :: "nat \<Rightarrow> OIr \<Rightarrow> 'v hgraph \<Rightarrow> 'v hgraph" where
  "record_ir node oir g = g\<lparr>ir_map := AList.update node oir (ir_map g)\<rparr>"

definition push_root :: "nat \<Rightarrow> 'v hgraph \<Rightarrow> 'v hgraph" where
  "push_root node g = g\<lparr>root_nodes := root_nodes g @ [node]\<rparr>"

definition node_ids :: "'v hgraph \<Rightarrow> nat list" where
  "node_ids g = sort (map fst (hg_nodes g))"

definition edge_ids :: "'v hgraph \<Rightarrow> nat list" where
  "edge_ids g = sort (map fst (hg_edges g))"

definition contains_admission_evidence_node :: "'v hgraph \<Rightarrow> bool" where
  "contains_admission_evidence_node g \<longleftrightarrow>
     list_ex (\<lambda>(i, n). case hn_kind n of AdmissionEvidenceNode _ _ \<Rightarrow> True | _ \<Rightarrow> False) (hg_nodes g)"

text \<open>The operations by stable ordinal.\<close>

definition exec_ops_ordered :: "'v hgraph \<Rightarrow> exec_info list" where
  "exec_ops_ordered g = sort_key (\<lambda>info. (ei_ordinal info, ei_plan_node info)) (map snd (op_map g))"

section \<open>Input policy\<close>

fun check_alternatives :: "'v hgraph \<Rightarrow> nat \<Rightarrow> nat list \<Rightarrow> policy_error + unit" where
  "check_alternatives g p [] = Inr ()"
| "check_alternatives g p (i # is) =
     and_then (ok_or (PolicyMissingInput p i) (hg_node g i)) (\<lambda>node.
     and_then (ensure (is_value node) (PolicyNotValue p i)) (\<lambda>_.
     and_then (ok_or (PolicyNoProducer p i) (hn_producer node)) (\<lambda>producer.
     and_then (ok_or (PolicyMissingProducer p i) (exec_edge g producer)) (\<lambda>producer_edge.
     and_then (ensure (case he_op producer_edge of Execute (RunRouteOp _) \<Rightarrow> True | _ \<Rightarrow> False) (PolicyNotRunRoute p i)) (\<lambda>_.
       check_alternatives g p is)))))"

definition ready_input_policy :: "exec_info \<Rightarrow> 'v hgraph \<Rightarrow> policy_error + ReadyInputPolicy" where
  "ready_input_policy info g =
     (let p = ei_plan_node info in
      and_then (ok_or (PolicyAbsent p) (op_for g p)) (\<lambda>registered.
      and_then (ensure (registered = info) (PolicyMismatch p)) (\<lambda>_.
      and_then (ok_or (PolicyMissingEdge p (ei_edge info)) (exec_edge g (ei_edge info))) (\<lambda>edge.
        case he_op edge of
          Execute (SelectRouteOp policy) \<Rightarrow>
            if policy \<notin> {''fallback'', ''any_success''} then Inr AllInputs
            else and_then (ensure (ei_inputs info \<noteq> []) (PolicyNoInputs p)) (\<lambda>_.
              and_then (check_alternatives g p (ei_inputs info)) (\<lambda>_. Inr OrderedFirstSuccess))
        | _ \<Rightarrow> Inr AllInputs))))"

end
