(* ===== verification/HGraph_Sequence.thy ===== *)
theory HGraph_Sequence
  imports HGraph
begin

text \<open>
  Which source sequences an executable graph keeps (\<^verbatim>\<open>crates/ostadix-api/src/hgraph/from_oir.rs\<close>): the
  operation of a plan node, its nearest executable predecessors through literal text, and the pairs whose
  order may be relaxed.
\<close>

section \<open>Checked access\<close>

definition kind_at :: "execution_plan \<Rightarrow> nat \<Rightarrow> hgraph_error + PlanNodeKind" where
  "kind_at p i = (if i < length (nodes p) then Inr (node_kind (nodes p ! i)) else Inl GraphPanic)"

definition incoming_at :: "plan_index \<Rightarrow> nat \<Rightarrow> hgraph_error + plan_edge list" where
  "incoming_at idx i = (if i < length (incoming idx) then Inr (incoming idx ! i) else Inl GraphPanic)"

definition outgoing_at :: "plan_index \<Rightarrow> nat \<Rightarrow> hgraph_error + plan_edge list" where
  "outgoing_at idx i = (if i < length (outgoing idx) then Inr (outgoing idx ! i) else Inl GraphPanic)"

text \<open>\<open>Iterator::any\<close> with a body that may panic.\<close>

fun try_any :: "('a \<Rightarrow> 'e + bool) \<Rightarrow> 'a list \<Rightarrow> 'e + bool" where
  "try_any f [] = Inr False"
| "try_any f (x # xs) = and_then (f x) (\<lambda>b. if b then Inr True else try_any f xs)"

section \<open>Operations\<close>

fun executable_op :: "(bytes \<Rightarrow> string) \<Rightarrow> PlanNodeKind \<Rightarrow> ExecutableOp option" where
  "executable_op sha256 TextNode = None"
| "executable_op sha256 (LoadNode _) = Some LoadBindingOp"
| "executable_op sha256 (StoreNode _) = Some StoreOp"
| "executable_op sha256 (NativeI64Node descriptor _) =
     Some (NativeI64Op (sha256 (as_bytes (case descriptor of None \<Rightarrow> '''' | Some d \<Rightarrow> d))))"
| "executable_op sha256 (CallNode fn_name mode _) = Some (InvokeOp fn_name mode)"
| "executable_op sha256 (RequestNode _ kind _) = Some (RequestOp (request_kind_label kind))"
| "executable_op sha256 (GroupNode mode _) = Some (GroupOp mode)"
| "executable_op sha256 (ScheduleNode _ kind _) =
     (case kind of Force \<Rightarrow> Some (ForceRequestOp ''force'') | other \<Rightarrow> Some (ScheduleOp (schedule_kind_label other)))"
| "executable_op sha256 (ExecNode _ env_id _ backend) =
     (case bi_execution backend of
        Shim \<Rightarrow> Some (EvalBackendOp (bi_canonical backend) env_id)
      | _ \<Rightarrow> Some (InlineBackendOp (bi_canonical backend)))"

lemma executable_op_None_iff: "executable_op sha256 kind = None \<longleftrightarrow> kind = TextNode"
  by (cases kind) (auto split: PlanScheduleKind.splits ExecutionMode.splits)

section \<open>Nearest executable predecessors\<close>

definition sequence_sources :: "plan_edge list \<Rightarrow> nat list" where
  "sequence_sources es = map edge_from (filter (\<lambda>e. edge_kind e = Sequence) es)"

function predecessors_loop ::
  "(bytes \<Rightarrow> string) \<Rightarrow> execution_plan \<Rightarrow> plan_index \<Rightarrow> nat list \<Rightarrow> nat set \<Rightarrow> nat set \<Rightarrow> hgraph_error + nat set" where
  "predecessors_loop sha256 p idx pending visited executable =
     (if pending = [] then Inr executable
      else let source = last pending; rest = butlast pending in
        if source \<in> visited then predecessors_loop sha256 p idx rest visited executable
        else if source \<ge> length (nodes p) then Inl GraphPanic
        else if executable_op sha256 (node_kind (nodes p ! source)) \<noteq> None
          then predecessors_loop sha256 p idx rest (insert source visited) (insert source executable)
        else if source \<ge> length (incoming idx) then Inl GraphPanic
        else predecessors_loop sha256 p idx (rest @ sequence_sources (incoming idx ! source)) (insert source visited) executable)"
  by pat_completeness auto

lemma unvisited_decreases: "source < n \<Longrightarrow> source \<notin> visited \<Longrightarrow> card ({..<n} - insert source visited) < card ({..<n} - visited)"
  for source n :: nat
  by (rule psubset_card_mono) auto

termination predecessors_loop
  by (relation "measures [\<lambda>(sha256, p, idx, pending, visited, executable). card ({..<length (nodes p)} - visited),
      \<lambda>(sha256, p, idx, pending, visited, executable). length pending]")
    (auto simp: Let_def unvisited_decreases simp del: card_Diff_insert)

declare predecessors_loop.simps [simp del]

lemma predecessors_loop_snoc:
  "predecessors_loop sha256 p idx (rest @ [source]) visited executable =
     (if source \<in> visited then predecessors_loop sha256 p idx rest visited executable
      else if source \<ge> length (nodes p) then Inl GraphPanic
      else if executable_op sha256 (node_kind (nodes p ! source)) \<noteq> None
        then predecessors_loop sha256 p idx rest (insert source visited) (insert source executable)
      else if source \<ge> length (incoming idx) then Inl GraphPanic
      else predecessors_loop sha256 p idx (rest @ sequence_sources (incoming idx ! source)) (insert source visited) executable)"
  by (subst predecessors_loop.simps) (simp add: Let_def)

definition executable_sequence_predecessors ::
  "(bytes \<Rightarrow> string) \<Rightarrow> execution_plan \<Rightarrow> plan_index \<Rightarrow> nat \<Rightarrow> hgraph_error + nat set" where
  "executable_sequence_predecessors sha256 p idx target =
     and_then (incoming_at idx target) (\<lambda>es. predecessors_loop sha256 p idx (sequence_sources es) {} {})"

section \<open>Relaxation\<close>

definition verified_read_only :: "effect_summary \<Rightarrow> bool" where
  "verified_read_only s \<longleftrightarrow> confidence s = Verified \<and> \<not> unknown s \<and> actor_state s = None \<and> writes s = {} \<and>
     \<not> network s \<and> \<not> spawn s \<and> \<not> clock s"

fun is_o_region :: "PlanNodeKind \<Rightarrow> bool" where
  "is_o_region (ExecNode _ _ _ backend) \<longleftrightarrow> bi_execution backend = InlineAst \<and> bi_canonical backend = ''O''"
| "is_o_region _ \<longleftrightarrow> False"

definition inside_left_to_right_region :: "execution_plan \<Rightarrow> plan_index \<Rightarrow> nat \<Rightarrow> hgraph_error + bool" where
  "inside_left_to_right_region p idx node =
     and_then (outgoing_at idx node) (\<lambda>es.
       try_any (\<lambda>e. and_then (kind_at p (edge_to e)) (\<lambda>kind. Inr (is_o_region kind)))
         (filter (\<lambda>e. edge_kind e = Structural) es))"

fun is_group_node :: "PlanNodeKind \<Rightarrow> bool" where
  "is_group_node (GroupNode _ _) = True"
| "is_group_node _ = False"

definition direct_members_of_concurrent_group ::
  "execution_plan \<Rightarrow> plan_index \<Rightarrow> nat \<Rightarrow> nat \<Rightarrow> hgraph_error + bool" where
  "direct_members_of_concurrent_group p idx left right =
     and_then (outgoing_at idx left) (\<lambda>es.
       try_any (\<lambda>parent. and_then (kind_at p parent) (\<lambda>kind.
           if is_group_node kind
           then and_then (outgoing_at idx right) (\<lambda>rs.
             Inr (list_ex (\<lambda>e. edge_kind e = Structural \<and> edge_to e = parent) rs))
           else Inr False))
         (map edge_to (filter (\<lambda>e. edge_kind e = Structural) es)))"

text \<open>The children of a renderer are tried in order, with the visited set threaded through; each nested call visits
  a new node, so the recursion is at most as deep as the plan has nodes.\<close>

fun try_all_visiting :: "('a \<Rightarrow> 's \<Rightarrow> 'e + bool \<times> 's) \<Rightarrow> 'a list \<Rightarrow> 's \<Rightarrow> 'e + bool \<times> 's" where
  "try_all_visiting f [] s = Inr (True, s)"
| "try_all_visiting f (x # xs) s = and_then (f x s) (\<lambda>(b, s'). if b then try_all_visiting f xs s' else Inr (False, s'))"

fun is_trusted_renderer :: "PlanNodeKind \<Rightarrow> bool" where
  "is_trusted_renderer (ExecNode _ _ _ backend) = trusted_inline_renderer backend"
| "is_trusted_renderer _ = False"

definition reorderable_child ::
  "execution_plan \<Rightarrow> (nat \<Rightarrow> effect_summary option) \<Rightarrow> (nat \<Rightarrow> nat set \<Rightarrow> hgraph_error + bool \<times> nat set) \<Rightarrow>
   nat \<Rightarrow> nat set \<Rightarrow> hgraph_error + bool \<times> nat set" where
  "reorderable_child p summaries recurse child visited =
     and_then (kind_at p child) (\<lambda>kind.
       case kind of
         TextNode \<Rightarrow> Inr (True, visited)
       | ExecNode _ _ _ _ \<Rightarrow>
           if (case summaries child of None \<Rightarrow> False | Some s \<Rightarrow> is_verified_pure_infallible s)
           then recurse child visited else Inr (False, visited)
       | _ \<Rightarrow> Inr (False, visited))"

fun reorderable_inline ::
  "nat \<Rightarrow> execution_plan \<Rightarrow> plan_index \<Rightarrow> (nat \<Rightarrow> effect_summary option) \<Rightarrow> nat \<Rightarrow> nat set \<Rightarrow> hgraph_error + bool \<times> nat set" where
  "reorderable_inline 0 p idx summaries node visited = Inl GraphPanic"
| "reorderable_inline (Suc fuel) p idx summaries node visited =
     (if node \<in> visited then Inr (False, visited)
      else and_then (kind_at p node) (\<lambda>kind.
        if \<not> is_trusted_renderer kind then Inr (False, insert node visited)
        else and_then (incoming_at idx node) (\<lambda>es.
          try_all_visiting (reorderable_child p summaries (\<lambda>child v. reorderable_inline fuel p idx summaries child v))
            (map edge_from (filter (\<lambda>e. edge_kind e = Structural) es)) (insert node visited))))"

definition verified_reorderable_inline ::
  "execution_plan \<Rightarrow> plan_index \<Rightarrow> nat \<Rightarrow> (nat \<Rightarrow> effect_summary option) \<Rightarrow> hgraph_error + bool" where
  "verified_reorderable_inline p idx node summaries =
     and_then (reorderable_inline (Suc (length (nodes p))) p idx summaries node {}) (\<lambda>(b, _). Inr b)"

fun is_load_node :: "PlanNodeKind \<Rightarrow> bool" where
  "is_load_node (LoadNode _) = True"
| "is_load_node _ = False"

definition relax_by_summaries ::
  "execution_plan \<Rightarrow> plan_index \<Rightarrow> nat \<Rightarrow> nat \<Rightarrow> (nat \<Rightarrow> effect_summary option) \<Rightarrow> hgraph_error + bool" where
  "relax_by_summaries p idx predecessor successor summaries =
     (case (summaries predecessor, summaries successor) of
        (Some left, Some right) \<Rightarrow>
          and_then (inside_left_to_right_region p idx predecessor) (\<lambda>b1.
          if b1 then Inr False
          else and_then (inside_left_to_right_region p idx successor) (\<lambda>b2.
          if b2 then Inr False
          else and_then (kind_at p predecessor) (\<lambda>k1.
            and_then (if is_load_node k1 then kind_at p successor else Inr k1) (\<lambda>k2.
            if is_load_node k1 \<and> is_load_node k2 \<and> verified_read_only left \<and> verified_read_only right then Inr True
            else if is_verified_pure_infallible left \<and> is_verified_pure_infallible right
            then and_then (verified_reorderable_inline p idx predecessor summaries) (\<lambda>b.
              if b then verified_reorderable_inline p idx successor summaries else Inr False)
            else Inr False))))
      | _ \<Rightarrow> Inr False)"

definition sequence_can_relax ::
  "execution_plan \<Rightarrow> plan_index \<Rightarrow> nat \<Rightarrow> nat \<Rightarrow> (nat \<Rightarrow> effect_summary option) \<Rightarrow> hgraph_error + bool" where
  "sequence_can_relax p idx predecessor successor summaries =
     and_then (direct_members_of_concurrent_group p idx predecessor successor) (\<lambda>b.
     if b then Inr True
     else and_then (map_err PlanFailure (autonomous_member_indexed p idx predecessor)) (\<lambda>m1.
       and_then (map_err PlanFailure (autonomous_member_indexed p idx successor)) (\<lambda>m2.
         case (m1, m2) of
           (Some (left_group, left_member), Some (right_group, right_member)) \<Rightarrow>
             if left_group = right_group \<and> left_member \<noteq> right_member then Inr True
             else relax_by_summaries p idx predecessor successor summaries
         | _ \<Rightarrow> relax_by_summaries p idx predecessor successor summaries)))"

section \<open>Enough fuel\<close>

text \<open>More fuel than there are unvisited nodes gives the same answer, so the fuel that is taken is enough.\<close>

lemma visiting_cong:
  assumes "I s" "\<And>x s. I s \<Longrightarrow> f x s = g x s" "\<And>x s b s'. I s \<Longrightarrow> g x s = Inr (b, s') \<Longrightarrow> I s'"
  shows "try_all_visiting f xs s = try_all_visiting g xs s"
  using assms(1)
proof (induction xs arbitrary: s)
  case (Cons x xs)
  have "f x s = g x s" by (rule assms(2) [OF Cons.prems])
  then show ?case using Cons.IH assms(3) [OF Cons.prems] by (cases "g x s") auto
qed simp

lemma visiting_inv:
  assumes "try_all_visiting g xs s = Inr (b, s')" "I s" "\<And>x s b s'. I s \<Longrightarrow> g x s = Inr (b, s') \<Longrightarrow> I s'"
  shows "I s'"
  using assms(1,2)
proof (induction xs arbitrary: s)
  case (Cons x xs)
  then obtain b1 s1 where "g x s = Inr (b1, s1)" by (cases "g x s") auto
  then show ?case using Cons assms(3) [OF Cons.prems(2)] by (auto split: if_splits)
qed simp

lemma reorderable_child_inv:
  assumes "reorderable_child p sm r x s = Inr (b, s')" "I s" "\<And>x s b s'. I s \<Longrightarrow> r x s = Inr (b, s') \<Longrightarrow> I s'"
  shows "I s'"
proof -
  obtain kind where "kind_at p x = Inr kind" using assms(1) by (auto simp: reorderable_child_def and_then_Inr_iff)
  then show ?thesis
    using assms(1,2) assms(3) [OF assms(2), of x b s'] by (cases kind) (auto simp: reorderable_child_def split: if_splits)
qed

lemma reorderable_child_cong: "r x s = r' x s \<Longrightarrow> reorderable_child p sm r x s = reorderable_child p sm r' x s"
proof (cases "kind_at p x")
  case (Inr kind)
  then show "r x s = r' x s \<Longrightarrow> ?thesis" by (cases kind) (simp_all add: reorderable_child_def)
qed (simp add: reorderable_child_def)

lemma reorderable_visits:
  assumes "reorderable_inline f p idx sm node v = Inr (b, v')" "v \<subseteq> {..<length (nodes p)}"
  shows "v \<subseteq> v' \<and> v' \<subseteq> {..<length (nodes p)}"
  using assms
proof (induction f arbitrary: node v b v')
  case (Suc f)
  show ?case
  proof (cases "node \<in> v")
    case False
    then obtain kind where k: "kind_at p node = Inr kind" using Suc.prems(1) by (cases "kind_at p node") simp_all
    let ?I = "\<lambda>s. insert node v \<subseteq> s \<and> s \<subseteq> {..<length (nodes p)}"
    let ?c = "reorderable_child p sm (reorderable_inline f p idx sm)"
    have start: "?I (insert node v)" using Suc.prems(2) k by (auto simp: kind_at_def split: if_splits)
    have step: "?I s'" if s: "?I s" and c: "?c x s = Inr (c, s')" for x s c s'
    proof (rule reorderable_child_inv [where I = ?I, OF c s])
      fix y t b t' assume "?I t" "reorderable_inline f p idx sm y t = Inr (b, t')"
      then show "?I t'" using Suc.IH [of y t b t'] by auto
    qed
    show ?thesis
    proof (cases "is_trusted_renderer kind")
      case True
      then obtain es where run: "try_all_visiting ?c es (insert node v) = Inr (b, v')"
        using Suc.prems(1) False k by (cases "incoming_at idx node") simp_all
      have "?I v'"
      proof (rule visiting_inv [where I = ?I, OF run start])
        fix x s c s' assume "?I s" "?c x s = Inr (c, s')"
        then show "?I s'" by (rule step)
      qed
      then show ?thesis by simp
    next
      case untrusted: False
      then have "v' = insert node v" using Suc.prems(1) False k by simp
      then show ?thesis using start by blast
    qed
  qed (use Suc.prems in auto)
qed simp

lemma reorderable_fuel:
  assumes "v \<subseteq> {..<length (nodes p)}" "length (nodes p) - card v < f" "length (nodes p) - card v < g"
  shows "reorderable_inline f p idx sm node v = reorderable_inline g p idx sm node v"
  using assms
proof (induction f arbitrary: g node v)
  case (Suc f)
  then obtain h where g: "g = Suc h" by (cases g) auto
  let ?n = "length (nodes p)" and ?w = "insert node v"
  let ?c = "\<lambda>f. reorderable_child p sm (\<lambda>child w. reorderable_inline f p idx sm child w)"
  show ?case
  proof (cases "node \<notin> v \<and> node < ?n")
    case True
    have fin: "finite v" using Suc.prems(1) finite_subset by blast
    have w: "?w \<subseteq> {..<?n}" using Suc.prems(1) True by auto
    have "card ?w \<le> ?n" using card_mono [OF _ w] by simp
    then have c: "?n - card ?w < f" "?n - card ?w < h" using Suc.prems(2,3) True fin by (auto simp: g)
    let ?I = "\<lambda>s. ?w \<subseteq> s \<and> s \<subseteq> {..<?n}"
    have same: "?c f x s = ?c h x s" if s: "?I s" for x s
    proof -
      have "card ?w \<le> card s" using s finite_subset by (intro card_mono) auto
      then have "reorderable_inline f p idx sm y s = reorderable_inline h p idx sm y s" for y
        using Suc.IH [of s h y] c s by auto
      then show ?thesis by (intro reorderable_child_cong) simp
    qed
    have "try_all_visiting (?c f) xs ?w = try_all_visiting (?c h) xs ?w" for xs
    proof (rule visiting_cong [of ?I, OF _ same])
      show "?I s'" if "?I s" "?c h x s = Inr (b, s')" for x s b s'
      proof (rule reorderable_child_inv [where I = ?I, OF that(2,1)])
        fix y t b t' assume "?I t" "reorderable_inline h p idx sm y t = Inr (b, t')"
        then show "?I t'" using reorderable_visits [of h p idx sm y t b t'] by auto
      qed
    qed (use w in auto)
    then show ?thesis using True by (simp add: g cong: if_cong)
  qed (auto simp: g kind_at_def)
qed simp

lemma verified_reorderable_fuel:
  assumes "length (nodes p) < f"
  shows "verified_reorderable_inline p idx node sm = and_then (reorderable_inline f p idx sm node {}) (\<lambda>(b, _). Inr b)"
  unfolding verified_reorderable_inline_def
  using reorderable_fuel [of "{}" p "Suc (length (nodes p))" f idx sm node] assms by simp

section \<open>The predecessors that the loop finds\<close>

text \<open>Going back over source sequences from a node, through literal text only.\<close>

inductive sequence_back :: "execution_plan \<Rightarrow> nat \<Rightarrow> nat \<Rightarrow> bool" for p :: execution_plan and target :: nat where
  back_edge: "e \<in> set (edges p) \<Longrightarrow> edge_kind e = Sequence \<Longrightarrow> edge_to e = target \<Longrightarrow> sequence_back p target (edge_from e)"
| back_text: "sequence_back p target m \<Longrightarrow> node_kind (nodes p ! m) = TextNode \<Longrightarrow> e \<in> set (edges p) \<Longrightarrow>
    edge_kind e = Sequence \<Longrightarrow> edge_to e = m \<Longrightarrow> sequence_back p target (edge_from e)"

lemma sequence_sources_indexed:
  assumes "index_new p = Inr idx" "i < length (nodes p)"
  shows "s \<in> set (sequence_sources (incoming idx ! i)) \<longleftrightarrow>
    (\<exists>e \<in> set (edges p). edge_kind e = Sequence \<and> edge_to e = i \<and> edge_from e = s)"
  using index_new_fields [OF assms(1)] assms(2) by (auto simp: sequence_sources_def)

lemma sequence_back_bound:
  assumes "index_new p = Inr idx" "sequence_back p target s"
  shows "s < length (nodes p)"
  using assms(2) index_new_fields [OF assms(1)] by (induction) auto

definition back_closed :: "execution_plan \<Rightarrow> nat \<Rightarrow> nat set \<Rightarrow> nat set \<Rightarrow> bool" where
  "back_closed p target visited known \<longleftrightarrow>
     (\<forall>e \<in> set (edges p). edge_kind e = Sequence \<longrightarrow>
        edge_to e = target \<or> edge_to e \<in> visited \<and> node_kind (nodes p ! edge_to e) = TextNode \<longrightarrow> edge_from e \<in> known)"

lemma back_closed_reaches:
  assumes "sequence_back p target s" "back_closed p target visited visited"
  shows "s \<in> visited"
  using assms by (induction) (auto simp: back_closed_def)

lemma predecessors_loop_spec:
  assumes idx: "index_new p = Inr idx"
    and "set pending \<union> visited \<subseteq> Collect (sequence_back p target)"
    and "executable = {s \<in> visited. node_kind (nodes p ! s) \<noteq> TextNode}"
    and "back_closed p target visited (visited \<union> set pending)"
  shows "predecessors_loop sha256 p idx pending visited executable =
    Inr {s. sequence_back p target s \<and> node_kind (nodes p ! s) \<noteq> TextNode}"
  using assms
proof (induction sha256 p idx pending visited executable rule: predecessors_loop.induct)
  case (1 sha256 p idx pending visited executable)
  note idx = "1.prems"(1) and inv = "1.prems"(2-)
  show ?case
  proof (cases "pending = []")
    case True
    then have "visited = Collect (sequence_back p target)"
      using inv back_closed_reaches [of p target _ visited] by auto
    then show ?thesis using True inv by (simp add: predecessors_loop.simps [of sha256 p idx "[]"])
  next
    case False
    define source rest where "source = last pending" and "rest = butlast pending"
    have pending: "pending = rest @ [source]" using False by (simp add: source_def rest_def)
    have reach: "sequence_back p target source" using inv(1) pending by auto
    have bound: "source < length (nodes p)" "source < length (incoming idx)"
      using sequence_back_bound [OF idx reach] index_new_fields [OF idx] by auto
    note IH = "1.IH" [OF False source_def rest_def]
    consider (seen) "source \<in> visited"
      | (executable) "source \<notin> visited" "node_kind (nodes p ! source) \<noteq> TextNode"
      | (literal) "source \<notin> visited" "node_kind (nodes p ! source) = TextNode"
      by blast
    then show ?thesis
    proof cases
      case seen
      have "back_closed p target visited (visited \<union> set rest)"
        using inv(3) seen pending by (auto simp: back_closed_def)
      then have "predecessors_loop sha256 p idx rest visited executable =
          Inr {s. sequence_back p target s \<and> node_kind (nodes p ! s) \<noteq> TextNode}"
        using IH(1) [OF seen idx] inv pending by auto
      then show ?thesis using seen pending by (simp add: predecessors_loop_snoc)
    next
      case executable
      have "back_closed p target (insert source visited) (insert source visited \<union> set rest)"
        using inv(3) executable pending by (auto simp: back_closed_def)
      moreover have "insert source executable = {s \<in> insert source visited. node_kind (nodes p ! s) \<noteq> TextNode}"
        using inv(2) executable by auto
      moreover have "executable_op sha256 (node_kind (nodes p ! source)) \<noteq> None"
        using executable(2) executable_op_None_iff by blast
      ultimately show ?thesis
        using IH(2) [OF executable(1)] bound executable idx inv(1) pending reach
        by (simp add: predecessors_loop_snoc)
    next
      case literal
      let ?ss = "sequence_sources (incoming idx ! source)"
      note ss = sequence_sources_indexed [OF idx bound(1)]
      have "back_closed p target (insert source visited) (insert source visited \<union> set (rest @ ?ss))"
        using inv(3) pending ss by (auto simp: back_closed_def)
      moreover have "set (rest @ ?ss) \<union> insert source visited \<subseteq> Collect (sequence_back p target)"
        using inv(1) pending ss back_text [OF reach literal(2)] by auto
      moreover have "executable = {s \<in> insert source visited. node_kind (nodes p ! s) \<noteq> TextNode}"
        using inv(2) literal by auto
      moreover have "executable_op sha256 (node_kind (nodes p ! source)) = None"
        using literal(2) by simp
      ultimately show ?thesis
        using IH(3) [OF literal(1)] bound literal idx pending
        by (simp add: predecessors_loop_snoc)
    qed
  qed
qed

lemma executable_sequence_predecessors_eq:
  assumes "index_new p = Inr idx" "target < length (nodes p)"
  shows "executable_sequence_predecessors sha256 p idx target =
    Inr {s. sequence_back p target s \<and> node_kind (nodes p ! s) \<noteq> TextNode}"
proof -
  have "back_closed p target {} ({} \<union> set (sequence_sources (incoming idx ! target)))"
    using sequence_sources_indexed [OF assms] by (auto simp: back_closed_def)
  moreover have "set (sequence_sources (incoming idx ! target)) \<union> {} \<subseteq> Collect (sequence_back p target)"
    using sequence_sources_indexed [OF assms] by (auto intro: back_edge)
  ultimately show ?thesis
    using predecessors_loop_spec [OF assms(1), of _ "{}" target "{}" sha256] assms(2) index_new_fields [OF assms(1)]
    by (auto simp: executable_sequence_predecessors_def incoming_at_def)
qed

section \<open>Properties\<close>

text \<open>C28: On a validated plan the search for executable predecessors ends without failing, and finds exactly the
  executable nodes that source sequence reaches backward through literal text only.\<close>

theorem sequence_predecessors_found:
  assumes "index_new p = Inr idx" "target < length (nodes p)"
  shows "executable_sequence_predecessors sha256 p idx target =
    Inr {s. sequence_back p target s \<and> executable_op sha256 (node_kind (nodes p ! s)) \<noteq> None}"
  unfolding executable_op_None_iff by (rule executable_sequence_predecessors_eq [OF assms])

definition spaced_plan :: execution_plan where
  "spaced_plan =
     \<lparr>roots = [0, 1, 2],
      nodes = [\<lparr>node_id = 0, node_kind = LoadNode ''x''\<rparr>, \<lparr>node_id = 1, node_kind = TextNode\<rparr>, \<lparr>node_id = 2, node_kind = LoadNode ''x''\<rparr>],
      edges = [\<lparr>edge_from = 0, edge_to = 1, edge_kind = Sequence\<rparr>, \<lparr>edge_from = 1, edge_to = 2, edge_kind = Sequence\<rparr>]\<rparr>"

theorem sequence_predecessors_found_witness:
  "{s. sequence_back spaced_plan 2 s \<and> executable_op (\<lambda>_. []) (node_kind (nodes spaced_plan ! s)) \<noteq> None} = {0}"
proof -
  have "is_ok (index_new spaced_plan)" by code_simp
  then have idx: "index_new spaced_plan = Inr (projr (index_new spaced_plan))"
    by (cases "index_new spaced_plan") simp_all
  have n: "2 < length (nodes spaced_plan)" by (simp add: spaced_plan_def)
  have "executable_sequence_predecessors (\<lambda>_. []) spaced_plan (projr (index_new spaced_plan)) 2 = Inr {0}" by code_simp
  with sequence_predecessors_found [OF idx n, of "\<lambda>_. []"] show ?thesis by simp
qed

end
