(* ===== verification/HGraph_Validate.thy ===== *)
theory HGraph_Validate
  imports HGraph_Sequence
begin

text \<open>
  Validation of an executable graph (\<^verbatim>\<open>crates/ostadix-api/src/hgraph/graph.rs\<close>): node metadata,
  operation shapes and semantics, resource chains, sequence tokens, completeness against the source planan,
  resource frontiers and acyclicity. Hash maps are visited in the order of their lists, ordered maps and
  sets in ascending order.
\<close>

section \<open>Nodes\<close>

definition exposes :: "hedge \<Rightarrow> nat \<Rightarrow> PortRole \<Rightarrow> bool" where
  "exposes e i role \<longleftrightarrow> list_ex (\<lambda>p. port_node p = i \<and> port_role p = role) (he_ports e)"

definition check_fidelity :: "nat \<Rightarrow> 'v hnode \<Rightarrow> node_error + unit" where
  "check_fidelity i n =
     (case hn_fidelity_assessment n of
        None \<Rightarrow> Inr ()
      | Some a \<Rightarrow>
          and_then (map_err (\<lambda>_. InvalidFidelity i) (validate_assessment a)) (\<lambda>_.
          and_then (map_err (\<lambda>_. InvalidFidelity i) (try_possible_fidelity a)) (\<lambda>projected.
            ensure (hn_fidelity n = Some projected) (StaleFidelity i))))"

definition check_synthetic :: "'v hgraph \<Rightarrow> nat \<Rightarrow> 'v hnode \<Rightarrow> node_error + unit" where
  "check_synthetic g i n =
     (if is_value n then Inr ()
      else and_then (ensure (hn_value n = None \<and> hn_domain n = 0 \<and> hn_rep n = 0 \<and> hn_actor n = None \<and>
          hn_fidelity_assessment n = None \<and> hn_fidelity n = None) (SyntheticMetadata i)) (\<lambda>_.
        case hn_kind n of
          CompletionNode p \<Rightarrow> ensure (completion_node g p = Some i) (CompletionUnregistered i p)
        | _ \<Rightarrow> Inr ()))"

definition check_initial_state :: "nat \<Rightarrow> 'v hnode \<Rightarrow> node_error + unit" where
  "check_initial_state i n =
     (case hn_kind n of
        ResourceStateNode _ version \<Rightarrow>
          if version = 0 then ensure (hn_producer n = None \<and> hn_state n = Materialized) (InitialStateProduced i) else Inr ()
      | _ \<Rightarrow> Inr ())"

definition check_producer :: "'v hgraph \<Rightarrow> nat \<Rightarrow> 'v hnode \<Rightarrow> node_error + unit" where
  "check_producer g i n =
     (case hn_producer n of
        None \<Rightarrow> Inr ()
      | Some producer \<Rightarrow>
          and_then (ok_or (MissingProducer i producer) (exec_edge g producer)) (\<lambda>edge.
            ensure (exposes edge i OutputPort) (ProducerPort i producer)))"

fun check_consumers :: "'v hgraph \<Rightarrow> nat \<Rightarrow> nat set \<Rightarrow> nat list \<Rightarrow> node_error + unit" where
  "check_consumers g i seen [] = Inr ()"
| "check_consumers g i seen (c # cs) =
     (if c \<in> seen then Inl (RepeatsConsumer i c)
      else and_then (ok_or (MissingConsumer i c) (exec_edge g c)) (\<lambda>edge.
        and_then (ensure (exposes edge i InputPort) (ConsumerPort i c)) (\<lambda>_.
          check_consumers g i (insert c seen) cs)))"

definition check_node :: "'v hgraph \<Rightarrow> nat \<times> 'v hnode \<Rightarrow> node_error + unit" where
  "check_node g = (\<lambda>(i, n).
     and_then (check_fidelity i n) (\<lambda>_.
     and_then (check_synthetic g i n) (\<lambda>_.
     and_then (check_initial_state i n) (\<lambda>_.
     and_then (check_producer g i n) (\<lambda>_.
       check_consumers g i {} (hn_consumers n))))))"

definition validate_node_kinds :: "'v hgraph \<Rightarrow> node_error + unit" where
  "validate_node_kinds g =
     and_then (try_for_each (check_node g) (hg_nodes g)) (\<lambda>_.
     and_then (try_for_each (\<lambda>(i, _). and_then (ok_or (ProvenanceMissing i) (hg_node g i)) (\<lambda>n.
       ensure (is_value n) (ProvenanceSynthetic i))) (ir_map g)) (\<lambda>_.
     try_for_each (\<lambda>r. and_then (ok_or (RootMissing r) (hg_node g r)) (\<lambda>n.
       ensure (is_value n) (RootSynthetic r))) (root_nodes g)))"

section \<open>Resource states of an operation\<close>

text \<open>Version arithmetic of \<open>u64\<close>: \<open>saturating_add(1)\<close> and \<open>checked_add(1)\<close>.\<close>

definition u64_saturating_succ :: "u64 \<Rightarrow> u64" where
  "u64_saturating_succ v = (if v = - 1 then v else v + 1)"

definition u64_checked_succ :: "u64 \<Rightarrow> u64 option" where
  "u64_checked_succ v = (if v = - 1 then None else Some (v + 1))"

definition resource_version_of :: "'v hgraph \<Rightarrow> ResourceKey \<Rightarrow> nat \<Rightarrow> u64 option" where
  "resource_version_of g r i =
     (case hg_node g i of
        None \<Rightarrow> None
      | Some n \<Rightarrow> (case hn_kind n of ResourceStateNode c v \<Rightarrow> if c = r then Some v else None | _ \<Rightarrow> None))"

definition resource_versions :: "'v hgraph \<Rightarrow> nat list \<Rightarrow> ResourceKey \<Rightarrow> u64 list" where
  "resource_versions g ns r = List.map_filter (resource_version_of g r) ns"

definition resource_keys :: "'v hgraph \<Rightarrow> nat list \<Rightarrow> ResourceKey set" where
  "resource_keys g ns =
     set (List.map_filter (\<lambda>i. case hg_node g i of
         None \<Rightarrow> None
       | Some n \<Rightarrow> (case hn_kind n of ResourceStateNode c v \<Rightarrow> Some c | _ \<Rightarrow> None)) ns)"

definition validate_operation_resource_read :: "'v hgraph \<Rightarrow> exec_info \<Rightarrow> ResourceKey \<Rightarrow> resource_error + unit" where
  "validate_operation_resource_read g info r =
     ensure (length (resource_versions g (ei_inputs info) r) = 1 \<and> resource_versions g (ei_outputs info) r = [])
       (ReadState (ei_plan_node info) r)"

definition validate_operation_resource_write :: "'v hgraph \<Rightarrow> exec_info \<Rightarrow> ResourceKey \<Rightarrow> resource_error + unit" where
  "validate_operation_resource_write g info r =
     (let ins = resource_versions g (ei_inputs info) r; outs = resource_versions g (ei_outputs info) r in
      and_then (ensure (length ins = 1 \<and> length outs = 1) (WriteState (ei_plan_node info) r)) (\<lambda>_.
        ensure (hd outs = u64_saturating_succ (hd ins)) (StateAdvance (ei_plan_node info) r)))"

section \<open>Operation semantics\<close>

definition require_read_write :: "effect_summary \<Rightarrow> ResourceKey \<Rightarrow> nat \<Rightarrow> semantics_error + unit" where
  "require_read_write s r p = ensure (r \<in> reads s \<and> r \<in> writes s) (MustReadWrite p r)"

fun is_concurrent_branch :: "ResourceKey \<Rightarrow> bool" where
  "is_concurrent_branch (ConcurrentProjectBranch _) = True"
| "is_concurrent_branch _ = False"

definition require_hosted_project_operation :: "effect_summary \<Rightarrow> nat \<Rightarrow> bool \<Rightarrow> semantics_error + unit" where
  "require_hosted_project_operation s p must_spawn =
     (if \<not> unknown s \<or> deterministic s \<or> fallibility s \<noteq> MayFail \<or> spawn s \<noteq> must_spawn then Inl (ProjectEffects p)
      else case filter is_concurrent_branch (sorted_list_of_set (reads s)) of
        r # _ \<Rightarrow> require_read_write s r p
      | [] \<Rightarrow> require_read_write s HostWorld p)"

text \<open>Whether an operation is a fresh hosted block of an explicit autonomous group.\<close>

definition autonomous_operation :: "'v hgraph \<Rightarrow> exec_info \<Rightarrow> hgraph_error + bool" where
  "autonomous_operation g info =
     (case source_plan g of
        None \<Rightarrow> Inr False
      | Some pl \<Rightarrow> (case map_of (ir_map g) (ei_value_output info) of
            None \<Rightarrow> Inr False
          | Some oir \<Rightarrow> and_then (map_err PlanFailure (autonomous_ephemeral_group pl (ei_plan_node info) oir)) (\<lambda>m.
              Inr (m \<noteq> None))))"

definition check_native_semantics ::
  "(bytes \<Rightarrow> string) \<Rightarrow> 'v hgraph \<Rightarrow> exec_info \<Rightarrow> effect_summary \<Rightarrow> string \<Rightarrow> semantics_error + unit" where
  "check_native_semantics sha256 g info s digest =
     and_then (ok_or (NativeProvenance (ei_plan_node info)) (map_of (ir_map g) (ei_value_output info))) (\<lambda>oir.
     and_then (ok_or (NativeDescriptor (ei_plan_node info)) (native_leaf_source_descriptor sha256 oir)) (\<lambda>descriptor.
       ensure (sha256 (as_bytes descriptor) = digest \<and> effect_contract_worker_safe s oir) (NativeContract (ei_plan_node info))))"

definition evaluator_resources :: "ResourceKey list" where
  "evaluator_resources = [HostWorld, EvaluatorState]"

definition check_eval_backend ::
  "'v hgraph \<Rightarrow> exec_info \<Rightarrow> effect_summary \<Rightarrow> string \<Rightarrow> u32 \<Rightarrow> hgraph_error + unit" where
  "check_eval_backend g info s lang env =
     and_then (ensure (unknown s \<and> \<not> deterministic s \<and> fallibility s = MayFail)
       (SemanticsRefused (EvalBackendEffects (ei_plan_node info)))) (\<lambda>_.
     and_then (autonomous_operation g info) (\<lambda>autonomous.
     and_then (try_for_each (\<lambda>r.
         and_then (map_err SemanticsRefused (require_read_write s r (ei_plan_node info))) (\<lambda>_.
           if autonomous then Inr () else map_err ResourceRefused (validate_operation_resource_write g info r)))
       evaluator_resources) (\<lambda>_.
     if is_persistent (from_encoded env)
     then let actor = \<lparr>canonical_language = lang, actor_environment = env\<rparr> in
       and_then (ensure (actor_state s = Some actor) (SemanticsRefused (EvalBackendActor (ei_plan_node info)))) (\<lambda>_.
         map_err ResourceRefused (validate_operation_resource_write g info (ActorState actor)))
     else Inr ())))"

definition check_evaluator_state :: "'v hgraph \<Rightarrow> exec_info \<Rightarrow> effect_summary \<Rightarrow> hgraph_error + unit" where
  "check_evaluator_state g info s =
     try_for_each (\<lambda>r.
       and_then (map_err SemanticsRefused (require_read_write s r (ei_plan_node info))) (\<lambda>_.
         map_err ResourceRefused (validate_operation_resource_write g info r))) evaluator_resources"

definition check_op_semantics ::
  "(bytes \<Rightarrow> string) \<Rightarrow> 'v hgraph \<Rightarrow> exec_info \<Rightarrow> effect_summary \<Rightarrow> ExecutableOp \<Rightarrow> hgraph_error + unit" where
  "check_op_semantics sha256 g info s op =
     (let p = ei_plan_node info in
      case op of
        NativeI64Op digest \<Rightarrow> map_err SemanticsRefused (check_native_semantics sha256 g info s digest)
      | EvalBackendOp lang env \<Rightarrow> check_eval_backend g info s lang env
      | InvokeOp _ _ \<Rightarrow> check_evaluator_state g info s
      | RequestOp _ \<Rightarrow> check_evaluator_state g info s
      | ForceRequestOp _ \<Rightarrow> check_evaluator_state g info s
      | ScheduleOp _ \<Rightarrow> check_evaluator_state g info s
      | MaterializeProjectOp \<Rightarrow> map_err SemanticsRefused (require_hosted_project_operation s p False)
      | RunRouteOp _ \<Rightarrow> map_err SemanticsRefused (require_hosted_project_operation s p True)
      | BuildRouteOp _ \<Rightarrow> ensure (is_verified_pure_infallible s) (SemanticsRefused (BuildRouteEffects p))
      | SelectRouteOp policy \<Rightarrow>
          ensure (policy \<noteq> [] \<and> \<not> unknown s \<and> fallibility s = MayFail \<and> actor_state s = None \<and> reads s = {} \<and>
            writes s = {} \<and> \<not> spawn s) (SemanticsRefused (SelectRouteEffects p))
      | CompareRouteResultsOp \<Rightarrow>
          ensure (\<not> unknown s \<and> deterministic s \<and> fallibility s = MayFail \<and> actor_state s = None \<and> reads s = {} \<and>
            writes s = {} \<and> \<not> spawn s) (SemanticsRefused (CompareRouteEffects p))
      | _ \<Rightarrow> Inr ())"

definition explicit_project_concurrency :: "hedge \<Rightarrow> effect_summary \<Rightarrow> bool" where
  "explicit_project_concurrency e s \<longleftrightarrow>
     (case he_op e of Execute MaterializeProjectOp \<Rightarrow> True | Execute (RunRouteOp _) \<Rightarrow> True | _ \<Rightarrow> False) \<and>
     (\<exists>r \<in> reads s. is_concurrent_branch r \<and> r \<in> writes s)"

definition validate_operation_semantics ::
  "(bytes \<Rightarrow> string) \<Rightarrow> 'v hgraph \<Rightarrow> exec_info \<Rightarrow> hedge \<Rightarrow> effect_summary \<Rightarrow> hgraph_error + unit" where
  "validate_operation_semantics sha256 g info edge s =
     and_then (if unknown s \<and> \<not> explicit_project_concurrency edge s
       then map_err SemanticsRefused (require_read_write s HostWorld (ei_plan_node info)) else Inr ()) (\<lambda>_.
     case he_op edge of
       Execute op \<Rightarrow> check_op_semantics sha256 g info s op
     | ConstraintEdge _ \<Rightarrow> Inl (SemanticsRefused (NotExecutableSemantics (ei_plan_node info))))"

section \<open>Operation shapes\<close>

definition port_nodes :: "PortRole \<Rightarrow> hedge \<Rightarrow> nat list" where
  "port_nodes role e = map port_node (filter (\<lambda>p. port_role p = role) (he_ports e))"

definition check_op_ports :: "nat \<Rightarrow> exec_info \<Rightarrow> hedge \<Rightarrow> shape_error + unit" where
  "check_op_ports p info edge =
     and_then (ensure (distinct (ei_inputs info) \<and> distinct (ei_outputs info)) (RepeatsPort p)) (\<lambda>_.
     and_then (ensure (set (ei_inputs info) \<inter> set (ei_outputs info) = {}) (PortOverlap p)) (\<lambda>_.
       ensure (port_nodes InputPort edge = ei_inputs info \<and> port_nodes OutputPort edge = ei_outputs info) (PortsDisagree p)))"

definition check_op_input :: "'v hgraph \<Rightarrow> nat \<Rightarrow> exec_info \<Rightarrow> nat \<Rightarrow> shape_error + unit" where
  "check_op_input g p info i =
     and_then (ok_or (OpInputMissing p i) (hg_node g i)) (\<lambda>n.
     and_then (ensure (hn_state n = Materialized \<or> hn_producer n \<noteq> None) (OpInputUnavailable p i)) (\<lambda>_.
       ensure (ei_edge info \<in> set (hn_consumers n)) (OpInputConsumer p i)))"

definition completions_of :: "'v hgraph \<Rightarrow> nat \<Rightarrow> nat list \<Rightarrow> nat list" where
  "completions_of g p outputs =
     filter (\<lambda>i. case hg_node g i of None \<Rightarrow> False | Some n \<Rightarrow> hn_kind n = CompletionNode p) outputs"

definition check_op_value :: "'v hgraph \<Rightarrow> nat \<Rightarrow> exec_info \<Rightarrow> shape_error + unit" where
  "check_op_value g p info =
     and_then (ensure (ei_value_output info \<in> set (ei_outputs info)) (ValueOutputAbsent p)) (\<lambda>_.
     and_then (ensure (ordinary_outputs g (ei_outputs info) = [ei_value_output info]) (OrdinaryOutput p)) (\<lambda>_.
     let completions = completions_of g p (ei_outputs info) in
     and_then (ensure (length completions = 1) (CompletionOutputs p)) (\<lambda>_.
       ensure (completion_node g p = Some (hd completions)) (CompletionMap p))))"

text \<open>One output: its producer and state, and that no other edge produced it. \<open>produced_by\<close> keeps the last edge.\<close>

definition check_op_output ::
  "'v hgraph \<Rightarrow> nat \<Rightarrow> exec_info \<Rightarrow> nat \<Rightarrow> (nat \<Rightarrow> nat option) \<Rightarrow> shape_error + (nat \<Rightarrow> nat option)" where
  "check_op_output g p info i produced_by =
     and_then (ok_or (OpOutputMissing p i) (hg_node g i)) (\<lambda>n.
     and_then (ensure (hn_producer n = Some (ei_edge info)) (OpOutputProducer p i)) (\<lambda>_.
     and_then (ensure (hn_state n = Unresolved) (OpOutputState p i)) (\<lambda>_.
     and_then (ensure (produced_by i = None \<or> produced_by i = Some (ei_edge info)) (SeveralProducers i)) (\<lambda>_.
       Inr (produced_by(i \<mapsto> ei_edge info))))))"

definition check_op_accesses ::
  "(bytes \<Rightarrow> string) \<Rightarrow> 'v hgraph \<Rightarrow> nat \<Rightarrow> exec_info \<Rightarrow> hedge \<Rightarrow> hgraph_error + unit" where
  "check_op_accesses sha256 g p info edge =
     and_then (ok_or (ShapeRefused (NoSummary p)) (map_of (effect_summaries g) p)) (\<lambda>s.
     and_then (validate_operation_semantics sha256 g info edge s) (\<lambda>_.
     and_then (autonomous_operation g info) (\<lambda>autonomous.
     let (rs, ws) = scheduling_accesses s;
         required = (if autonomous then {} else rs \<union> ws);
         written = (if autonomous then {} else ws) in
     and_then (ensure (resource_keys g (ei_inputs info) = required \<and> resource_keys g (ei_outputs info) = written)
       (ShapeRefused (AccessesDiffer p))) (\<lambda>_.
     try_for_each (\<lambda>r. map_err ResourceRefused
         (if r \<in> written then validate_operation_resource_write g info r else validate_operation_resource_read g info r))
       (sorted_list_of_set required)))))"

definition check_operation ::
  "(bytes \<Rightarrow> string) \<Rightarrow> 'v hgraph \<Rightarrow> nat \<times> exec_info \<Rightarrow> (nat \<Rightarrow> nat option) \<times> nat set \<Rightarrow>
   hgraph_error + (nat \<Rightarrow> nat option) \<times> nat set" where
  "check_operation sha256 g = (\<lambda>(p, info) (produced_by, mapped_edges).
     and_then (ensure (ei_plan_node info = p) (ShapeRefused (OpKeyMismatch p (ei_plan_node info)))) (\<lambda>_.
     and_then (ok_or (ShapeRefused (OpMissingEdge p (ei_edge info))) (exec_edge g (ei_edge info))) (\<lambda>edge.
     and_then (ensure (ei_edge info \<notin> mapped_edges) (ShapeRefused (EdgeMappedTwice (ei_edge info)))) (\<lambda>_.
     and_then (ensure (is_execute edge) (ShapeRefused (NotExecutable p))) (\<lambda>_.
     and_then (map_err ShapeRefused (check_op_ports p info edge)) (\<lambda>_.
     and_then (map_err ShapeRefused (try_for_each (check_op_input g p info) (ei_inputs info))) (\<lambda>_.
     and_then (map_err ShapeRefused (check_op_value g p info)) (\<lambda>_.
     and_then (map_err ShapeRefused (try_fold (check_op_output g p info) (ei_outputs info) produced_by)) (\<lambda>produced_by'.
     and_then (check_op_accesses sha256 g p info edge) (\<lambda>_.
       Inr (produced_by', insert (ei_edge info) mapped_edges)))))))))))"

definition validate_operation_shapes :: "(bytes \<Rightarrow> string) \<Rightarrow> 'v hgraph \<Rightarrow> hgraph_error + unit" where
  "validate_operation_shapes sha256 g =
     and_then (try_fold (check_operation sha256 g) (op_map g) (\<lambda>_. None, {})) (\<lambda>(_, mapped_edges).
     and_then (try_for_each (\<lambda>(e, _). ensure (e \<in> mapped_edges) (ShapeRefused (UnmappedEdge e))) (exec_edges g)) (\<lambda>_.
     and_then (try_for_each (\<lambda>(p, _). ensure (op_for g p \<noteq> None) (ShapeRefused (StrayCompletion p))) (completion_nodes g)) (\<lambda>_.
       try_for_each (\<lambda>(p, _). ensure (op_for g p \<noteq> None) (ShapeRefused (StraySummary p))) (effect_summaries g))))"

section \<open>Resource chains\<close>

text \<open>Maps collected from the operations: a later entry of the same edge replaces an earlier one.\<close>

definition edge_to_info :: "'v hgraph \<Rightarrow> nat \<Rightarrow> exec_info option" where
  "edge_to_info g = map_of (rev (map (\<lambda>(_, info). (ei_edge info, info)) (op_map g)))"

definition check_version ::
  "'v hgraph \<Rightarrow> nat \<times> 'v hnode \<Rightarrow> (ResourceKey \<times> u64) list \<Rightarrow> resource_error + (ResourceKey \<times> u64) list" where
  "check_version g = (\<lambda>(i, n) versions.
     case hn_kind n of
       ResourceStateNode r version \<Rightarrow>
         and_then (ensure ((r, version) \<notin> set versions) (DuplicateVersion r version)) (\<lambda>_.
         if version = 0 then Inr ((r, version) # versions)
         else and_then (ok_or (VersionUnproduced r version) (hn_producer n)) (\<lambda>producer.
           and_then (ok_or (VersionUnregistered r version) (edge_to_info g producer)) (\<lambda>info.
           let prior = resource_versions g (ei_inputs info) r in
           and_then (ensure (length prior = 1 \<and> u64_checked_succ (hd prior) = Some version) (VersionPrior r version)) (\<lambda>_.
             Inr ((r, version) # versions)))))
     | _ \<Rightarrow> Inr versions)"

definition chain_highest :: "(ResourceKey \<times> u64) list \<Rightarrow> ResourceKey \<Rightarrow> nat" where
  "chain_highest versions r = fold max (map (\<lambda>(_, v). unat v) (filter (\<lambda>(c, _). c = r) versions)) 0"

definition validate_resource_chains :: "'v hgraph \<Rightarrow> resource_error + unit" where
  "validate_resource_chains g =
     and_then (try_fold (check_version g) (hg_nodes g) []) (\<lambda>versions.
       try_for_each (\<lambda>r.
         try_for_each (\<lambda>v. ensure ((r, of_nat v) \<in> set versions) (VersionSkipped r v)) [0..<Suc (chain_highest versions r)])
         (sorted_list_of_set (fst ` set versions)))"

section \<open>Sequence tokens\<close>

definition check_sequence :: "'v hgraph \<Rightarrow> sequence_dependency \<Rightarrow> sequence_error + unit" where
  "check_sequence g d =
     and_then (ok_or (SequencePredecessor (sd_predecessor d)) (op_for g (sd_predecessor d))) (\<lambda>predecessor.
     and_then (ok_or (SequenceSuccessor (sd_successor d)) (op_for g (sd_successor d))) (\<lambda>successor.
     and_then (ok_or (SequenceMissing (sd_predecessor d) (sd_successor d)) (hg_node g (sd_completion d))) (\<lambda>completion.
       ensure (hn_kind completion = CompletionNode (sd_predecessor d) \<and> hn_producer completion = Some (ei_edge predecessor) \<and>
         sd_completion d \<in> set (ei_outputs predecessor) \<and> sd_completion d \<in> set (ei_inputs successor))
         (SequenceUnimplemented (sd_predecessor d) (sd_successor d)))))"

definition validate_sequence_dependencies :: "'v hgraph \<Rightarrow> sequence_error + unit" where
  "validate_sequence_dependencies g = try_for_each (check_sequence g) (sequence_dependencies g)"

section \<open>Completeness against the source plan\<close>

definition collect_value ::
  "'v hgraph \<Rightarrow> execution_plan \<Rightarrow> nat \<times> 'v hnode \<Rightarrow> (nat \<times> nat) list \<Rightarrow> source_error + (nat \<times> nat) list" where
  "collect_value g pl = (\<lambda>(i, n) value_for_plan.
     if \<not> is_value n then Inr value_for_plan
     else and_then (ok_or (ValueWithoutPlan i) (hn_plan_node n)) (\<lambda>p.
       and_then (ensure (p < length (nodes pl)) (ValueOutOfBounds i p)) (\<lambda>_.
       and_then (ensure (map_of value_for_plan p = None) (SeveralValues p)) (\<lambda>_.
       and_then (ensure (map_of (ir_map g) i \<noteq> None) (ValueWithoutProvenance i)) (\<lambda>_.
         Inr ((p, i) # value_for_plan))))))"

definition index_map :: "('a \<times> 'b) list \<Rightarrow> 'a \<Rightarrow> hgraph_error + 'b" where
  "index_map m k = ok_or GraphPanic (map_of m k)"

definition check_literal :: "'v hgraph \<Rightarrow> plan_node \<Rightarrow> nat \<Rightarrow> hgraph_error + unit" where
  "check_literal g plan_node value =
     and_then (ensure (node_kind plan_node = TextNode) (SourceRefused (NoLowering (node_id plan_node)))) (\<lambda>_.
     and_then (index_map (hg_nodes g) value) (\<lambda>n.
       ensure (hn_state n = Materialized \<and> hn_producer n = None \<and> op_for g (node_id plan_node) = None)
         (SourceRefused (LiteralState (node_id plan_node)))))"

definition value_inputs :: "'v hgraph \<Rightarrow> nat list \<Rightarrow> hgraph_error + nat list" where
  "value_inputs g inputs =
     and_then (try_map (\<lambda>i. and_then (index_map (hg_nodes g) i) (\<lambda>n. Inr (i, is_value n))) inputs) (\<lambda>flags.
       Inr (map fst (filter snd flags)))"

definition source_inputs :: "plan_index \<Rightarrow> (nat \<times> nat) list \<Rightarrow> nat \<Rightarrow> hgraph_error + nat list" where
  "source_inputs idx value_for_plan i =
     and_then (incoming_at idx i) (\<lambda>es.
       try_map (\<lambda>e. index_map value_for_plan (edge_from e)) (filter (\<lambda>e. edge_kind e \<noteq> Sequence) es))"

definition check_source_node ::
  "(bytes \<Rightarrow> string) \<Rightarrow> (string \<Rightarrow> nat \<Rightarrow> string + unit) \<Rightarrow> 'v hgraph \<Rightarrow> plan_index \<Rightarrow> (nat \<times> nat) list \<Rightarrow>
   plan_node \<Rightarrow> hgraph_error + unit" where
  "check_source_node sha256 validate_descriptor g idx value_for_plan plan_node =
     (let i = node_id plan_node in
      and_then (index_map value_for_plan i) (\<lambda>value.
      case executable_op sha256 (node_kind plan_node) of
        None \<Rightarrow> check_literal g plan_node value
      | Some expected_op \<Rightarrow>
        and_then (ok_or (SourceRefused (SourceWithoutOperation i)) (op_for g i)) (\<lambda>info.
        and_then (ensure (ei_value_output info = value) (SourceRefused (ValueOutputDiffers i))) (\<lambda>_.
        and_then (index_map (exec_edges g) (ei_edge info)) (\<lambda>edge.
        and_then (ensure (he_op edge = Execute expected_op) (SourceRefused (OperationDiffers i))) (\<lambda>_.
        and_then (map_err EffectFailure (effect_summary_for_plan_node validate_descriptor i (node_kind plan_node))) (\<lambda>derived.
        and_then (index_map (effect_summaries g) i) (\<lambda>actual.
        and_then (ensure (actual = derived) (SourceRefused (SummaryDiffers i))) (\<lambda>_.
        and_then (source_inputs idx value_for_plan i) (\<lambda>expected.
        and_then (value_inputs g (ei_inputs info)) (\<lambda>actual_inputs.
          ensure (set actual_inputs = set expected) (SourceRefused (ValueInputsDiffer i)))))))))))))"

definition check_source_predecessor ::
  "'v hgraph \<Rightarrow> execution_plan \<Rightarrow> plan_index \<Rightarrow> nat \<Rightarrow> nat \<Rightarrow> (nat \<times> nat) set \<Rightarrow> hgraph_error + (nat \<times> nat) set" where
  "check_source_predecessor g pl idx target predecessor expected =
     and_then (sequence_can_relax pl idx predecessor target (map_of (effect_summaries g))) (\<lambda>relaxed.
     if relaxed then Inr expected
     else and_then (ok_or (SourceRefused (SourceSequenceCompletion predecessor target)) (completion_node g predecessor)) (\<lambda>completion.
       and_then (index_map (op_map g) target) (\<lambda>info.
       and_then (ensure (completion \<in> set (ei_inputs info)) (SourceRefused (SourceSequenceInput predecessor target))) (\<lambda>_.
         Inr (insert (predecessor, target) expected)))))"

definition check_source_sequence ::
  "(bytes \<Rightarrow> string) \<Rightarrow> 'v hgraph \<Rightarrow> execution_plan \<Rightarrow> plan_index \<Rightarrow> nat \<Rightarrow> (nat \<times> nat) set \<Rightarrow>
   hgraph_error + (nat \<times> nat) set" where
  "check_source_sequence sha256 g pl idx target expected =
     and_then (kind_at pl target) (\<lambda>kind.
     if executable_op sha256 kind = None then Inr expected
     else and_then (executable_sequence_predecessors sha256 pl idx target) (\<lambda>predecessors.
       try_fold (check_source_predecessor g pl idx target) (sorted_list_of_set predecessors) expected))"

section \<open>Resource frontiers\<close>

record expected_frontier =
  fr_last_write :: "nat option"
  fr_open_reads :: "nat set"
  fr_version :: u64

definition empty_frontier :: expected_frontier where
  "empty_frontier = \<lparr>fr_last_write = None, fr_open_reads = {}, fr_version = 0\<rparr>"

definition collect_initial ::
  "nat \<times> 'v hnode \<Rightarrow> (ResourceKey \<times> nat) list \<Rightarrow> frontier_error + (ResourceKey \<times> nat) list" where
  "collect_initial = (\<lambda>(i, n) initial.
     case hn_kind n of
       ResourceStateNode r version \<Rightarrow>
         if version = 0 then and_then (ensure (map_of initial r = None) (SeveralInitialStates r)) (\<lambda>_. Inr ((r, i) # initial))
         else Inr initial
     | _ \<Rightarrow> Inr initial)"

definition resource_outputs :: "'v hgraph \<Rightarrow> ResourceKey \<Rightarrow> nat list \<Rightarrow> hgraph_error + (nat \<times> u64) list" where
  "resource_outputs g r outputs =
     and_then (try_map (\<lambda>i. and_then (index_map (hg_nodes g) i) (\<lambda>n. Inr (i, hn_kind n))) outputs) (\<lambda>kinds.
       Inr (List.map_filter (\<lambda>(i, kind). case kind of
           ResourceStateNode c v \<Rightarrow> if c = r then Some (i, v) else None
         | _ \<Rightarrow> None) kinds))"

definition frontier_write ::
  "'v hgraph \<Rightarrow> exec_info \<Rightarrow> ResourceKey \<Rightarrow> expected_frontier \<Rightarrow> hgraph_error + expected_frontier" where
  "frontier_write g info r f =
     and_then (ensure (fr_open_reads f \<subseteq> set (ei_inputs info)) (FrontierRefused (OmitsReader (ei_plan_node info) r))) (\<lambda>_.
     and_then (resource_outputs g r (ei_outputs info)) (\<lambda>outs.
     and_then (ensure (length outs = 1 \<and> snd (hd outs) = fr_version f + 1) (FrontierRefused (WriteVersion (ei_plan_node info) r))) (\<lambda>_.
       Inr \<lparr>fr_last_write = Some (fst (hd outs)), fr_open_reads = {}, fr_version = fr_version f + 1\<rparr>)))"

definition frontier_access ::
  "'v hgraph \<Rightarrow> (ResourceKey \<times> nat) list \<Rightarrow> exec_info \<Rightarrow> ResourceKey set \<Rightarrow> nat \<Rightarrow> ResourceKey \<Rightarrow>
   (ResourceKey \<Rightarrow> expected_frontier) \<Rightarrow> hgraph_error + (ResourceKey \<Rightarrow> expected_frontier)" where
  "frontier_access g initial info written completion r frontiers =
     (let f = frontiers r in
      and_then (case fr_last_write f of
          Some node \<Rightarrow> Inr node
        | None \<Rightarrow> ok_or (FrontierRefused (NoInitialState r)) (map_of initial r)) (\<lambda>expected_state.
      and_then (ensure (expected_state \<in> set (ei_inputs info)) (FrontierRefused (StaleWriterState (ei_plan_node info) r))) (\<lambda>_.
      and_then (if r \<in> written then frontier_write g info r f
          else Inr (f\<lparr>fr_open_reads := insert completion (fr_open_reads f)\<rparr>)) (\<lambda>f'.
        Inr (frontiers(r := f'))))))"

definition frontier_operation ::
  "(string \<Rightarrow> nat \<Rightarrow> string + unit) \<Rightarrow> 'v hgraph \<Rightarrow> execution_plan \<Rightarrow> plan_index \<Rightarrow> (ResourceKey \<times> nat) list \<Rightarrow> nat \<Rightarrow>
   (ResourceKey \<Rightarrow> expected_frontier) \<Rightarrow> hgraph_error + (ResourceKey \<Rightarrow> expected_frontier)" where
  "frontier_operation validate_descriptor g pl idx initial p frontiers =
     (case op_for g p of
        None \<Rightarrow> Inr frontiers
      | Some info \<Rightarrow>
        and_then (kind_at pl p) (\<lambda>kind.
        and_then (map_err EffectFailure (effect_summary_for_plan_node validate_descriptor p kind)) (\<lambda>s.
        and_then (ok_or (FrontierRefused (NoRecordedOir p)) (map_of (ir_map g) (ei_value_output info))) (\<lambda>oir.
        and_then (map_err PlanFailure (autonomous_ephemeral_group_indexed pl idx p oir)) (\<lambda>autonomous.
        if autonomous \<noteq> None then Inr frontiers
        else let (rs, ws) = scheduling_accesses s in
          and_then (ok_or (FrontierRefused (NoCompletionNode p)) (completion_node g p)) (\<lambda>completion.
            try_fold (frontier_access g initial info ws completion) (sorted_list_of_set (rs \<union> ws)) frontiers))))))"

definition validate_source_resource_frontiers ::
  "(string \<Rightarrow> nat \<Rightarrow> string + unit) \<Rightarrow> 'v hgraph \<Rightarrow> execution_plan \<Rightarrow> plan_index \<Rightarrow> hgraph_error + unit" where
  "validate_source_resource_frontiers validate_descriptor g pl idx =
     and_then (map_err FrontierRefused (try_fold collect_initial (hg_nodes g) [])) (\<lambda>initial.
     and_then (try_fold (frontier_operation validate_descriptor g pl idx initial) (index_order idx) (\<lambda>_. empty_frontier)) (\<lambda>_.
       Inr ()))"

definition check_source_projection ::
  "(bytes \<Rightarrow> string) \<Rightarrow> (string \<Rightarrow> nat \<Rightarrow> string + unit) \<Rightarrow> 'v hgraph \<Rightarrow> execution_plan \<Rightarrow> plan_index \<Rightarrow> hgraph_error + unit" where
  "check_source_projection sha256 validate_descriptor g pl idx =
     and_then (map_err SourceRefused (try_fold (collect_value g pl) (hg_nodes g) [])) (\<lambda>value_for_plan.
     and_then (ensure (length value_for_plan = length (nodes pl) \<and> length (ir_map g) = length (nodes pl))
       (SourceRefused ProjectionCounts)) (\<lambda>_.
     and_then (try_map (index_map value_for_plan) (roots pl)) (\<lambda>expected_roots.
     and_then (ensure (root_nodes g = expected_roots) (SourceRefused RootsDiffer)) (\<lambda>_.
       try_for_each (check_source_node sha256 validate_descriptor g idx value_for_plan) (nodes pl)))))"

definition validate_source_plan_dependencies ::
  "(bytes \<Rightarrow> string) \<Rightarrow> (string \<Rightarrow> nat \<Rightarrow> string + unit) \<Rightarrow> 'v hgraph \<Rightarrow> hgraph_error + unit" where
  "validate_source_plan_dependencies sha256 validate_descriptor g =
     (case source_plan g of
        None \<Rightarrow> Inr ()
      | Some pl \<Rightarrow>
        and_then (map_err PlanFailure (index_new pl)) (\<lambda>idx.
        and_then (check_source_projection sha256 validate_descriptor g pl idx) (\<lambda>_.
        and_then (try_fold (check_source_sequence sha256 g pl idx) (map node_id (nodes pl)) {}) (\<lambda>expected.
        let actual = map (\<lambda>d. (sd_predecessor d, sd_successor d)) (sequence_dependencies g) in
        and_then (ensure (distinct actual) (SourceRefused SequencesDuplicated)) (\<lambda>_.
        and_then (ensure (set actual = expected) (SourceRefused SequencesDiffer)) (\<lambda>_.
          validate_source_resource_frontiers validate_descriptor g pl idx))))))"

section \<open>Acyclicity\<close>

definition edge_to_plan :: "'v hgraph \<Rightarrow> nat \<Rightarrow> nat option" where
  "edge_to_plan g = map_of (rev (map (\<lambda>(_, info). (ei_edge info, ei_plan_node info)) (op_map g)))"

definition input_dependency :: "'v hgraph \<Rightarrow> exec_info \<Rightarrow> nat \<Rightarrow> nat set \<Rightarrow> hgraph_error + nat set" where
  "input_dependency g info i deps =
     (case (case hg_node g i of None \<Rightarrow> None | Some n \<Rightarrow> hn_producer n) of
        None \<Rightarrow> Inr deps
      | Some producer \<Rightarrow>
          and_then (ok_or (ProducerWithoutOperation (ei_plan_node info) i) (edge_to_plan g producer)) (\<lambda>q. Inr (insert q deps)))"

definition operation_dependencies :: "'v hgraph \<Rightarrow> exec_info \<Rightarrow> hgraph_error + (nat \<times> nat) list" where
  "operation_dependencies g info =
     and_then (try_fold (input_dependency g info) (ei_inputs info) {}) (\<lambda>deps.
       Inr (map (\<lambda>q. (q, ei_plan_node info)) (sorted_list_of_set deps)))"

definition position :: "nat list \<Rightarrow> nat \<Rightarrow> nat" where
  "position keys k = length (takeWhile (\<lambda>x. x \<noteq> k) keys)"

text \<open>
  The operations are numbered by their position in the ascending list of plan identities, which keeps the
  order in which the ready set is popped. Every operation that a producer names is one of these: an
  operation is stored under its own plan identity, as the shape check has established.
\<close>

definition validate_executable_acyclicity :: "'v hgraph \<Rightarrow> hgraph_error + unit" where
  "validate_executable_acyclicity g =
     and_then (try_map (\<lambda>(_, info). operation_dependencies g info) (op_map g)) (\<lambda>dependencies.
     let deps = concat dependencies; keys = sort (map fst (op_map g)); n = length keys in
     and_then (ensure (list_all (\<lambda>(u, v). u \<in> set keys \<and> v \<in> set keys) deps) GraphPanic) (\<lambda>_.
     let E = map (\<lambda>(u, v). (position keys u, position keys v)) deps;
         indegree = indegrees n E;
         ready = filter (\<lambda>v. indegree ! v = 0) [0..<n];
         scheduled = order_loop n (successors n E) indegree ready [] in
     ensure (length scheduled = n) ExecutableCycle))"

section \<open>The validator\<close>

definition validate_execution_graph ::
  "(bytes \<Rightarrow> string) \<Rightarrow> (string \<Rightarrow> nat \<Rightarrow> string + unit) \<Rightarrow> 'v hgraph \<Rightarrow> hgraph_error + unit" where
  "validate_execution_graph sha256 validate_descriptor g =
     and_then (map_err NodeRefused (validate_node_kinds g)) (\<lambda>_.
     and_then (validate_operation_shapes sha256 g) (\<lambda>_.
     and_then (map_err ResourceRefused (validate_resource_chains g)) (\<lambda>_.
     and_then (map_err SequenceRefused (validate_sequence_dependencies g)) (\<lambda>_.
     and_then (validate_source_plan_dependencies sha256 validate_descriptor g) (\<lambda>_.
       validate_executable_acyclicity g)))))"

definition check_evidence :: "'v hgraph \<Rightarrow> nat \<Rightarrow> exec_info \<Rightarrow> AdmissionFactKind \<Rightarrow> admission_error + unit" where
  "check_evidence g p info fk =
     and_then (ok_or (LacksEvidence p fk) (map_of (admission_evidence_nodes g) (p, fk))) (\<lambda>i.
     and_then (ok_or (EvidenceMissing i) (hg_node g i)) (\<lambda>n.
       ensure (hn_kind n = AdmissionEvidenceNode p fk \<and> hn_state n = Materialized \<and> hn_producer n = None \<and>
         hn_consumers n = [ei_edge info] \<and> i \<in> set (ei_inputs info)) (InvalidEvidence p fk)))"

definition check_registered_evidence :: "'v hgraph \<Rightarrow> nat \<times> 'v hnode \<Rightarrow> admission_error + unit" where
  "check_registered_evidence g = (\<lambda>(i, n).
     case hn_kind n of
       AdmissionEvidenceNode p fk \<Rightarrow> ensure (map_of (admission_evidence_nodes g) (p, fk) = Some i) (UnregisteredEvidence i p)
     | _ \<Rightarrow> Inr ())"

definition validate_admitted_execution_graph ::
  "(bytes \<Rightarrow> string) \<Rightarrow> (string \<Rightarrow> nat \<Rightarrow> string + unit) \<Rightarrow> 'v hgraph \<Rightarrow> hgraph_error + unit" where
  "validate_admitted_execution_graph sha256 validate_descriptor g =
     and_then (validate_execution_graph sha256 validate_descriptor g) (\<lambda>_.
     map_err AdmissionRefused
       (and_then (ensure (length (admission_evidence_nodes g) =
           min (length (op_map g) * length ADMISSION_FACTS) (usize_bound - 1)) EvidenceCount) (\<lambda>_.
        and_then (try_for_each (\<lambda>(p, info). try_for_each (check_evidence g p info) ADMISSION_FACTS) (op_map g)) (\<lambda>_.
          try_for_each (check_registered_evidence g) (hg_nodes g)))))"

definition validate_execution_plan ::
  "(bytes \<Rightarrow> string) \<Rightarrow> (string \<Rightarrow> nat \<Rightarrow> string + unit) \<Rightarrow> 'v hgraph \<Rightarrow> execution_plan \<Rightarrow> hgraph_error + unit" where
  "validate_execution_plan sha256 validate_descriptor g pl =
     and_then (validate_execution_graph sha256 validate_descriptor g) (\<lambda>_.
       ensure (source_plan g = Some pl) (ProvenanceRefused PlanDiffers))"

definition check_provenance :: "'v hgraph \<Rightarrow> nat \<times> OIr \<Rightarrow> provenance_error + unit" where
  "check_provenance g = (\<lambda>(i, oir).
     and_then (ok_or (NoValueProvenance i)
       (map_option fst (List.find (\<lambda>(_, n). is_value n \<and> hn_plan_node n = Some i) (hg_nodes g)))) (\<lambda>value.
     and_then (ok_or (NoOirProvenance i) (map_of (ir_map g) value)) (\<lambda>recorded.
       ensure (recorded = oir) (OirDiffers i))))"

definition validate_execution_source ::
  "(bytes \<Rightarrow> string) \<Rightarrow> (string \<Rightarrow> nat \<Rightarrow> string + unit) \<Rightarrow> 'v hgraph \<Rightarrow> OIr list \<Rightarrow> execution_plan \<Rightarrow> hgraph_error + unit" where
  "validate_execution_source sha256 validate_descriptor g program pl =
     and_then (validate_execution_plan sha256 validate_descriptor g pl) (\<lambda>_.
     let flat = flatten_for_plan program in
     map_err ProvenanceRefused
       (and_then (ensure (length flat = length (nodes pl)) FlattenCount) (\<lambda>_.
         try_for_each (check_provenance g) (zip [0..<length flat] flat))))"

end
