(* ===== verification/HGraph_Sound.thy ===== *)
theory HGraph_Sound
  imports HGraph_Validate
begin

text \<open>
  What a validated executable graph guarantees: operations are joined by the nodes one produces and
  another consumes, these dependencies are acyclic, and operations with conflicting effects are joined by
  a dependency path in the topological order of the source plan.
\<close>

section \<open>Operation shapes\<close>

definition op_edges :: "'v hgraph \<Rightarrow> (nat \<times> nat) set" where
  "op_edges g = {(q, p). \<exists>iq ip. op_for g q = Some iq \<and> op_for g p = Some ip \<and> set (ei_outputs iq) \<inter> set (ei_inputs ip) \<noteq> {}}"

text \<open>The part of the shape check that later arguments need, for one operation.\<close>

definition well_shaped :: "'v hgraph \<Rightarrow> nat \<Rightarrow> exec_info \<Rightarrow> bool" where
  "well_shaped g p info \<longleftrightarrow> ei_plan_node info = p \<and>
     distinct (ei_outputs info) \<and> set (ei_inputs info) \<inter> set (ei_outputs info) = {} \<and>
     (\<forall>i \<in> set (ei_outputs info). \<exists>n. hg_node g i = Some n \<and> hn_producer n = Some (ei_edge info)) \<and>
     (\<exists>c. completion_node g p = Some c \<and> c \<in> set (ei_outputs info)) \<and>
     exec_edge g (ei_edge info) \<noteq> None \<and> ei_value_output info \<in> set (ei_outputs info)"

lemma check_op_outputs_sound:
  assumes "try_fold (check_op_output g p info) outs m = Inr m'" "i \<in> set outs"
  shows "\<exists>n. hg_node g i = Some n \<and> hn_producer n = Some (ei_edge info)"
  using try_fold_each [OF assms] by (auto simp: check_op_output_def res_simps)

lemma check_operation_sound:
  assumes "check_operation sha256 g (p, info) (m, used) = Inr (m', used')"
  shows "well_shaped g p info \<and> ei_edge info \<notin> used \<and> used' = insert (ei_edge info) used"
proof -
  obtain edge where step: "ei_plan_node info = p" "exec_edge g (ei_edge info) = Some edge" "ei_edge info \<notin> used"
    "check_op_ports p info edge = Inr ()" "check_op_value g p info = Inr ()"
    "try_fold (check_op_output g p info) (ei_outputs info) m = Inr m'" "used' = insert (ei_edge info) used"
    using assms by (auto simp: check_operation_def res_simps)
  have c: "completion_node g p = Some (hd (completions_of g p (ei_outputs info)))"
    "length (completions_of g p (ei_outputs info)) = 1" "ei_value_output info \<in> set (ei_outputs info)"
    using step(5) by (auto simp: check_op_value_def res_simps Let_def)
  then have "hd (completions_of g p (ei_outputs info)) \<in> set (completions_of g p (ei_outputs info))"
    by (cases "completions_of g p (ei_outputs info)") auto
  then have "hd (completions_of g p (ei_outputs info)) \<in> set (ei_outputs info)"
    by (simp add: completions_of_def)
  moreover have "distinct (ei_outputs info) \<and> set (ei_inputs info) \<inter> set (ei_outputs info) = {}"
    using step(4) by (simp add: check_op_ports_def res_simps)
  ultimately show ?thesis
    using step c check_op_outputs_sound [OF step(6)] by (auto simp: well_shaped_def)
qed

lemma check_operations_sound:
  assumes "try_fold (check_operation sha256 g) ops (m, used) = Inr (m', used')"
  shows "(\<forall>(p, info) \<in> set ops. well_shaped g p info) \<and> distinct (map (ei_edge \<circ> snd) ops) \<and>
    set (map (ei_edge \<circ> snd) ops) \<inter> used = {}"
  using assms
proof (induction ops arbitrary: m used)
  case (Cons op ops)
  obtain p info where op: "op = (p, info)" by (cases op)
  obtain m1 used1 where step: "check_operation sha256 g (p, info) (m, used) = Inr (m1, used1)"
    "try_fold (check_operation sha256 g) ops (m1, used1) = Inr (m', used')"
    using Cons.prems op by (auto simp: res_simps)
  show ?case using check_operation_sound [OF step(1)] Cons.IH [OF step(2)] op by auto
qed simp

lemma validated_shapes:
  assumes "validate_execution_graph sha256 vd g = Inr ()"
  shows "\<And>p info. (p, info) \<in> set (op_map g) \<Longrightarrow> well_shaped g p info"
    and "distinct (map (ei_edge \<circ> snd) (op_map g))"
proof -
  obtain m used where "try_fold (check_operation sha256 g) (op_map g) (\<lambda>_. None, {}) = Inr (m, used)"
    using assms by (auto simp: validate_execution_graph_def validate_operation_shapes_def res_simps)
  note sound = check_operations_sound [OF this]
  show "\<And>p info. (p, info) \<in> set (op_map g) \<Longrightarrow> well_shaped g p info" using sound by auto
  show "distinct (map (ei_edge \<circ> snd) (op_map g))" using sound by simp
qed

lemma edge_to_plan_eq:
  assumes "validate_execution_graph sha256 vd g = Inr ()" "(p, info) \<in> set (op_map g)"
  shows "edge_to_plan g (ei_edge info) = Some p"
proof -
  have p: "ei_plan_node info = p" using validated_shapes(1) [OF assms] by (simp add: well_shaped_def)
  have "map fst (map (\<lambda>(_, info). (ei_edge info, ei_plan_node info)) (op_map g)) = map (ei_edge \<circ> snd) (op_map g)"
    by (induction "op_map g") auto
  then have "distinct (map fst (map (\<lambda>(_, info). (ei_edge info, ei_plan_node info)) (op_map g)))"
    using validated_shapes(2) [OF assms(1)] by (simp only:)
  moreover have "(ei_edge info, p) \<in> set (map (\<lambda>(_, info). (ei_edge info, ei_plan_node info)) (op_map g))"
    using assms(2) p by force
  ultimately show ?thesis unfolding edge_to_plan_def by (intro map_of_is_SomeI) (simp_all add: rev_map [symmetric])
qed

section \<open>Acyclic dependencies\<close>

lemma trancl_map: "(x, y) \<in> D\<^sup>+ \<Longrightarrow> (\<And>x y. (x, y) \<in> D \<Longrightarrow> (f x, f y) \<in> E) \<Longrightarrow> (f x, f y) \<in> E\<^sup>+"
  by (induction rule: trancl_induct) (auto intro: trancl_into_trancl)

lemma acyclic_map: "acyclic E \<Longrightarrow> (\<And>x y. (x, y) \<in> D \<Longrightarrow> (f x, f y) \<in> E) \<Longrightarrow> acyclic D"
  unfolding acyclic_def by (metis trancl_map)

lemma position_less: "k \<in> set keys \<Longrightarrow> position keys k < length keys"
  by (induction keys) (auto simp: position_def)

lemma edges_within_positions:
  "list_all (\<lambda>(u, v). u \<in> set keys \<and> v \<in> set keys) ds \<Longrightarrow>
   edges_within (length keys) (map (\<lambda>(u, v). (position keys u, position keys v)) ds)"
  by (auto simp: edges_within_def list_all_iff position_less case_prod_beta)

lemma loop_complete_acyclic:
  assumes E: "edges_within n E"
    and all: "length (order_loop n (successors n E) (indegrees n E) (filter (\<lambda>v. indegrees n E ! v = 0) [0..<n]) []) = n"
  shows "acyclic (set E)"
proof -
  let ?ord = "order_loop n (successors n E) (indegrees n E) (filter (\<lambda>v. indegrees n E ! v = 0) [0..<n]) []"
  obtain d where inv: "kahn_inv n E ?ord d {}" using order_loop_run [OF E] .
  then have "topo_order n E ?ord" using complete_iff [OF inv] all by (simp add: topo_order_def kahn_inv_def)
  then show ?thesis by (rule deps_first_acyclic [OF _ E])
qed

lemma input_dependencies_mono:
  "try_fold (input_dependency g info) ins deps = Inr deps' \<Longrightarrow> finite deps \<Longrightarrow> finite deps' \<and> deps \<subseteq> deps'"
proof (induction ins arbitrary: deps)
  case (Cons i ins)
  obtain deps1 where step: "input_dependency g info i deps = Inr deps1" "try_fold (input_dependency g info) ins deps1 = Inr deps'"
    using Cons.prems(1) by (auto simp: res_simps)
  then have "finite deps1 \<and> deps \<subseteq> deps1"
    using Cons.prems(2) by (auto simp: input_dependency_def res_simps split: option.splits)
  then show ?case using Cons.IH [OF step(2)] by blast
qed simp

lemma input_dependencies_sound:
  assumes "try_fold (input_dependency g info) ins deps = Inr deps'" "finite deps" "i \<in> set ins" "hg_node g i = Some n"
    "hn_producer n = Some e" "edge_to_plan g e = Some q"
  shows "q \<in> deps'"
  using assms(1-3)
proof (induction ins arbitrary: deps)
  case (Cons j ins)
  obtain deps1 where step: "input_dependency g info j deps = Inr deps1" "try_fold (input_dependency g info) ins deps1 = Inr deps'"
    using Cons.prems(1) by (auto simp: res_simps)
  have fin: "finite deps1" using input_dependencies_mono [of g info "[j]" deps deps1] step(1) Cons.prems(2) by simp
  show ?case
  proof (cases "i = j")
    case True
    then have "q \<in> deps1" using step(1) assms(4-6) by (auto simp: input_dependency_def)
    then show ?thesis using input_dependencies_mono [OF step(2) fin] by blast
  next
    case False
    then show ?thesis using Cons.IH [OF step(2) fin] Cons.prems(3) by simp
  qed
qed simp

lemma validated_acyclic:
  assumes valid: "validate_execution_graph sha256 vd g = Inr ()"
  shows "acyclic (op_edges g)"
proof -
  let ?keys = "sort (map fst (op_map g))"
  let ?pos = "position ?keys"
  obtain dss where dss: "list_all2 (\<lambda>(_, info) ds. operation_dependencies g info = Inr ds) (op_map g) dss"
    and within: "list_all (\<lambda>(u, v). u \<in> set ?keys \<and> v \<in> set ?keys) (concat dss)"
    and all: "length (order_loop (length ?keys) (successors (length ?keys) (map (\<lambda>(u, v). (?pos u, ?pos v)) (concat dss)))
      (indegrees (length ?keys) (map (\<lambda>(u, v). (?pos u, ?pos v)) (concat dss)))
      (filter (\<lambda>v. indegrees (length ?keys) (map (\<lambda>(u, v). (?pos u, ?pos v)) (concat dss)) ! v = 0) [0..<length ?keys]) []) =
      length ?keys"
    using valid by (auto simp: validate_execution_graph_def validate_executable_acyclicity_def res_simps Let_def case_prod_beta')
  let ?E = "map (\<lambda>(u, v). (?pos u, ?pos v)) (concat dss)"
  note E = edges_within_positions [OF within]
  note acyclic = loop_complete_acyclic [OF E all]
  have "(?pos q, ?pos p) \<in> set ?E" if edge: "(q, p) \<in> op_edges g" for q p
  proof -
    obtain iq ip i where ops: "(q, iq) \<in> set (op_map g)" "(p, ip) \<in> set (op_map g)"
      and i: "i \<in> set (ei_outputs iq)" "i \<in> set (ei_inputs ip)"
      using edge by (auto simp: op_edges_def dest: map_of_SomeD)
    obtain n where n: "hg_node g i = Some n" "hn_producer n = Some (ei_edge iq)"
      using validated_shapes(1) [OF valid ops(1)] i(1) by (auto simp: well_shaped_def)
    obtain k where k: "k < length (op_map g)" "op_map g ! k = (p, ip)" using ops(2) by (auto simp: in_set_conv_nth)
    then have ds: "operation_dependencies g ip = Inr (dss ! k)" "dss ! k \<in> set dss"
      using list_all2_nthD [OF dss k(1)] list_all2_lengthD [OF dss] by auto
    then obtain deps where deps: "try_fold (input_dependency g ip) (ei_inputs ip) {} = Inr deps"
      "dss ! k = map (\<lambda>q. (q, ei_plan_node ip)) (sorted_list_of_set deps)"
      by (auto simp: operation_dependencies_def res_simps)
    have "q \<in> deps" "finite deps"
      using input_dependencies_sound [OF deps(1) _ i(2) n edge_to_plan_eq [OF valid ops(1)]]
        input_dependencies_mono [OF deps(1)] by auto
    moreover have "ei_plan_node ip = p" using validated_shapes(1) [OF valid ops(2)] by (simp add: well_shaped_def)
    ultimately have "(q, p) \<in> set (concat dss)" using deps(2) ds(2) by force
    then show ?thesis by force
  qed
  then show ?thesis using acyclic_map [OF acyclic, of "op_edges g" ?pos] by blast
qed

end
