(* ===== verification/HGraph_Frontier.thy ===== *)
theory HGraph_Frontier
  imports HGraph_Sound
begin

text \<open>
  The replay of resource frontiers (\<^verbatim>\<open>validate_source_resource_frontiers\<close>): it accepts a graph only
  if operations that share a resource, one of them writing it, are joined by a dependency path in plan
  order.
\<close>

section \<open>Finite footprints\<close>

definition finite_footprint :: "effect_summary \<Rightarrow> bool" where
  "finite_footprint s \<longleftrightarrow> finite (reads s) \<and> finite (writes s)"

lemma finite_expand: "finite A \<Longrightarrow> finite (expand_resource_aliases A)"
proof -
  have "finite (governed_alias r)" for r by (cases r) auto
  then show "finite A \<Longrightarrow> finite (expand_resource_aliases A)" by (auto simp: expand_resource_aliases_def Let_def)
qed

lemma finite_sched: "finite_footprint s \<Longrightarrow> finite (sched_reads s \<union> sched_writes s)"
  by (auto simp: finite_footprint_def scheduling_accesses_def Let_def expanded_reads_def expanded_writes_def finite_expand)

lemma parse_items_finite: "parse_items whole xs acc = Inr rs \<Longrightarrow> finite acc \<Longrightarrow> finite rs"
  by (induction xs arbitrary: acc) (auto simp: res_simps split: if_splits)

definition finite_declaration :: "effect_declaration \<Rightarrow> bool" where
  "finite_declaration d \<longleftrightarrow> finite (decl_reads d) \<and> finite (decl_writes d)"

lemma parse_resources_finite: "parse_resources w = Inr rs \<Longrightarrow> finite rs"
  by (auto simp: parse_resources_def split: if_splits dest: parse_items_finite)

lemma parse_entry_finite:
  assumes "parse_entry entry (seen, d) = Inr (seen', d')" "finite_declaration d"
  shows "finite_declaration d'"
  using assms parse_resources_finite
  by (auto simp: parse_entry_def Let_def finite_declaration_def res_simps split: if_splits option.splits)

lemma parse_declaration_finite: "parse_declaration attr = Inr d \<Longrightarrow> finite_declaration d"
proof -
  have "parse_entries xs (seen, d0) = Inr d \<Longrightarrow> finite_declaration d0 \<Longrightarrow> finite_declaration d" for xs seen d0
    by (induction xs arbitrary: seen d0) (auto simp: res_simps dest: parse_entry_finite)
  then show "parse_declaration attr = Inr d \<Longrightarrow> finite_declaration d"
    by (auto simp: parse_declaration_def no_declaration_def finite_declaration_def split: option.splits)
qed

lemma exec_summary_base:
  assumes "effect_summary_for_plan_node vd i (ExecNode lang env_id attr backend) = Inr s"
  obtains d base b0 where "parse_declaration attr = Inr d" "apply_checked d base = Inr s"
    "base = b0 \<or> (\<exists>a. base = with_actor_state a b0)" "b0 = summary_pure \<or> b0 = conservative_evaluator"
proof -
  define b0 where "b0 = (if trusted_inline_renderer backend \<and> \<not> (case attr of None \<Rightarrow> False
    | Some a \<Rightarrow> list_ex (\<lambda>e. trim_str e \<in> {''lazy'', ''defer''}) (split_on (CHR '','') a)) then summary_pure else conservative_evaluator)"
  define base where "base = (if bi_execution backend = Shim \<and> is_persistent (from_encoded env_id)
    then with_actor_state \<lparr>canonical_language = bi_canonical backend, actor_environment = env_id\<rparr> b0 else b0)"
  have "(case parse_declaration attr of Inl e \<Rightarrow> Inl (AtPlanNode i e)
      | Inr d \<Rightarrow> (case apply_checked d base of Inl e \<Rightarrow> Inl (AtPlanNode i e) | Inr r \<Rightarrow> Inr r)) = Inr s"
    using assms by (simp only: effect_summary_for_plan_node.simps Let_def b0_def base_def)
  then obtain d where "parse_declaration attr = Inr d" "apply_checked d base = Inr s"
    by (auto split: sum.splits)
  moreover have "base = b0 \<or> (\<exists>a. base = with_actor_state a b0)" by (auto simp: base_def)
  moreover have "b0 = summary_pure \<or> b0 = conservative_evaluator" by (auto simp: b0_def)
  ultimately show thesis using that by blast
qed

lemmas base_summary_defs = summary_pure_def conservative_evaluator_def summary_unknown_def with_actor_state_def Let_def

lemma summary_footprint:
  assumes "effect_summary_for_plan_node vd i kind = Inr s"
  shows "finite_footprint s" "actor_tracked s"
proof -
  have "finite_footprint s \<and> actor_tracked s"
  proof (cases kind)
    case (ExecNode lang env_id attr backend)
    with assms obtain d base b0 where d: "parse_declaration attr = Inr d" "apply_checked d base = Inr s"
      and base: "base = b0 \<or> (\<exists>a. base = with_actor_state a b0)" "b0 = summary_pure \<or> b0 = conservative_evaluator"
      using exec_summary_base by metis
    have "finite_footprint base" "actor_tracked base"
      using base by (auto simp: finite_footprint_def actor_tracked_def base_summary_defs)
    then show ?thesis
      using parse_declaration_finite [OF d(1)] apply_checked_footprint [OF d(2)]
      by (auto simp: finite_footprint_def finite_declaration_def actor_tracked_def
          intro: finite_subset [of _ "insert HostWorld (reads base \<union> decl_reads d)"]
            finite_subset [of _ "insert HostWorld (writes base \<union> decl_writes d)"])
  next
    case (NativeI64Node d n)
    then show ?thesis using native_summary [of vd i d n s] assms by (simp add: finite_footprint_def actor_tracked_def base_summary_defs)
  qed (use assms in \<open>auto simp: finite_footprint_def actor_tracked_def base_summary_defs\<close>)
  then show "finite_footprint s" "actor_tracked s" by simp_all
qed

section \<open>One access\<close>

lemma resource_outputs_mem:
  assumes "resource_outputs g r outs = Inr xs" "(i, v) \<in> set xs"
  shows "i \<in> set outs"
proof -
  obtain kinds where kinds: "list_all2 (\<lambda>i y. and_then (index_map (hg_nodes g) i) (\<lambda>n. Inr (i, hn_kind n)) = Inr y) outs kinds"
    and xs: "xs = List.map_filter (\<lambda>(i, kind). case kind of ResourceStateNode c v \<Rightarrow> if c = r then Some (i, v) else None | _ \<Rightarrow> None) kinds"
    using assms(1) by (auto simp: resource_outputs_def res_simps)
  have "map fst kinds = outs" using kinds by (induction) (auto simp: res_simps)
  then show ?thesis using assms(2) by (force simp: xs List.map_filter_def split: HNodeKind.splits if_splits)
qed

lemma frontier_access_sound:
  assumes "frontier_access g initial info ws c r fr = Inr h"
  shows "h = fr(r := h r)"
    and "\<And>node. fr_last_write (fr r) = Some node \<Longrightarrow> node \<in> set (ei_inputs info)"
    and "r \<in> ws \<Longrightarrow> fr_open_reads (fr r) \<subseteq> set (ei_inputs info)"
    and "r \<in> ws \<Longrightarrow> \<exists>node \<in> set (ei_outputs info). fr_last_write (h r) = Some node"
    and "r \<notin> ws \<Longrightarrow> fr_last_write (h r) = fr_last_write (fr r) \<and> fr_open_reads (h r) = insert c (fr_open_reads (fr r))"
proof -
  obtain node f' where step: "node \<in> set (ei_inputs info)" "h = fr(r := f')"
    "case fr_last_write (fr r) of Some m \<Rightarrow> node = m | None \<Rightarrow> True"
    "(if r \<in> ws then frontier_write g info r (fr r) else Inr (fr r\<lparr>fr_open_reads := insert c (fr_open_reads (fr r))\<rparr>)) = Inr f'"
    using assms by (auto simp: frontier_access_def Let_def res_simps split: option.splits)
  then show "h = fr(r := h r)" "\<And>node. fr_last_write (fr r) = Some node \<Longrightarrow> node \<in> set (ei_inputs info)"
    "r \<notin> ws \<Longrightarrow> fr_last_write (h r) = fr_last_write (fr r) \<and> fr_open_reads (h r) = insert c (fr_open_reads (fr r))"
    by auto
  show "r \<in> ws \<Longrightarrow> fr_open_reads (fr r) \<subseteq> set (ei_inputs info)"
    using step(4) by (auto simp: frontier_write_def res_simps)
  show "\<exists>node \<in> set (ei_outputs info). fr_last_write (h r) = Some node" if written: "r \<in> ws"
  proof -
    obtain outs where "resource_outputs g r (ei_outputs info) = Inr outs" "length outs = 1" "fr_last_write f' = Some (fst (hd outs))"
      using step(4) written by (auto simp: frontier_write_def res_simps)
    then show ?thesis
      using resource_outputs_mem [of g r "ei_outputs info" outs "fst (hd outs)" "snd (hd outs)"] step(2) by (cases outs) auto
  qed
qed

text \<open>Each resource of an operation is replayed once, from the frontier that earlier operations left.\<close>

lemma frontier_accesses_sound:
  assumes "try_fold (frontier_access g initial info ws c) rs fr = Inr fr'" "distinct rs"
  shows "(\<forall>r. r \<notin> set rs \<longrightarrow> fr' r = fr r) \<and>
    (\<forall>r \<in> set rs. \<exists>fr0 h. frontier_access g initial info ws c r fr0 = Inr h \<and> fr0 r = fr r \<and> h r = fr' r)"
  using assms
proof (induction rs arbitrary: fr)
  case (Cons r rs)
  obtain h where step: "frontier_access g initial info ws c r fr = Inr h"
    "try_fold (frontier_access g initial info ws c) rs h = Inr fr'"
    using Cons.prems(1) by (auto simp: res_simps)
  have h: "q \<noteq> r \<Longrightarrow> h q = fr q" for q using frontier_access_sound(1) [OF step(1)] by (metis fun_upd_other)
  note IH = Cons.IH [OF step(2)]
  have "fr' r = h r" using IH Cons.prems(2) by auto
  moreover have "\<exists>fr0 h. frontier_access g initial info ws c q fr0 = Inr h \<and> fr0 q = fr q \<and> h q = fr' q" if "q \<in> set rs" for q
    using IH that Cons.prems(2) h by (metis distinct.simps(2))
  ultimately show ?case using IH Cons.prems(2) step(1) h by auto
qed simp

section \<open>The replay\<close>

text \<open>An operation whose effects the graph orders: one that no explicit autonomous group releases.\<close>

definition ordered_operation ::
  "(string \<Rightarrow> nat \<Rightarrow> string + unit) \<Rightarrow> 'v hgraph \<Rightarrow> execution_plan \<Rightarrow> nat \<Rightarrow> exec_info \<Rightarrow> effect_summary \<Rightarrow> bool" where
  "ordered_operation vd g pl p info s \<longleftrightarrow> op_for g p = Some info \<and> p < length (nodes pl) \<and>
     effect_summary_for_plan_node vd p (node_kind (nodes pl ! p)) = Inr s \<and>
     (\<exists>oir. map_of (ir_map g) (ei_value_output info) = Some oir \<and> autonomous_ephemeral_group pl p oir = Inr None)"

lemma ephemeral_group_indexed:
  assumes "index_new pl = Inr idx" "p < length (nodes pl)"
  shows "autonomous_ephemeral_group_indexed pl idx p oir = autonomous_ephemeral_group pl p oir"
  using member_indexed [OF assms]
  by (auto simp: autonomous_ephemeral_group_indexed_def autonomous_ephemeral_group_def
      autonomous_ephemeral_group_with_index_def autonomous_member_indexed_def autonomous_member_def split: OIr.splits)

lemma frontier_operation_cases:
  assumes idx: "index_new pl = Inr idx" and run: "frontier_operation vd g pl idx initial p fr = Inr fr'"
  obtains (skipped) "\<And>info s. \<not> ordered_operation vd g pl p info s" "fr' = fr"
    | (ordered) info s c where "ordered_operation vd g pl p info s" "completion_node g p = Some c"
        "try_fold (frontier_access g initial info (sched_writes s) c) (sorted_list_of_set (sched_resources s)) fr = Inr fr'"
proof (cases "op_for g p")
  case None
  then show thesis using run skipped by (simp add: frontier_operation_def ordered_operation_def)
next
  case (Some info)
  obtain s oir m where p: "p < length (nodes pl)" and s: "effect_summary_for_plan_node vd p (node_kind (nodes pl ! p)) = Inr s"
    and oir: "map_of (ir_map g) (ei_value_output info) = Some oir"
    and m: "autonomous_ephemeral_group_indexed pl idx p oir = Inr m"
    using run Some by (auto simp: frontier_operation_def kind_at_def res_simps split: if_splits)
  have m': "autonomous_ephemeral_group pl p oir = Inr m" using m ephemeral_group_indexed [OF idx p] by simp
  show thesis
  proof (cases m)
    case None
    then obtain c where "completion_node g p = Some c"
      "try_fold (frontier_access g initial info (sched_writes s) c) (sorted_list_of_set (sched_resources s)) fr = Inr fr'"
      using run Some p s oir m
      by (auto simp: frontier_operation_def kind_at_def res_simps sched_resources_def case_prod_beta)
    moreover have "ordered_operation vd g pl p info s"
      using None Some p s oir m' by (simp add: ordered_operation_def)
    ultimately show thesis by (rule ordered [rotated])
  next
    case (Some group)
    then have "fr' = fr" using run \<open>op_for g p = Some info\<close> p s oir m by (simp add: frontier_operation_def kind_at_def)
    moreover have "\<not> ordered_operation vd g pl p info' s'" for info' s'
      using Some \<open>op_for g p = Some info\<close> oir m' by (auto simp: ordered_operation_def)
    ultimately show thesis by (rule skipped [rotated])
  qed
qed

definition frontier_inv ::
  "(string \<Rightarrow> nat \<Rightarrow> string + unit) \<Rightarrow> 'v hgraph \<Rightarrow> execution_plan \<Rightarrow> nat list \<Rightarrow> (ResourceKey \<Rightarrow> expected_frontier) \<Rightarrow> bool" where
  "frontier_inv vd g pl ps fr \<longleftrightarrow>
     (\<forall>x info s r. x \<in> set ps \<longrightarrow> ordered_operation vd g pl x info s \<longrightarrow> r \<in> sched_resources s \<longrightarrow>
        (\<exists>w iw node. op_for g w = Some iw \<and> node \<in> set (ei_outputs iw) \<and> fr_last_write (fr r) = Some node \<and>
           (x, w) \<in> (op_edges g)\<^sup>*) \<or>
        r \<notin> sched_writes s \<and> (\<exists>c. completion_node g x = Some c \<and> c \<in> fr_open_reads (fr r)))"

text \<open>One replayed operation, over the resources of its summary.\<close>

definition replayed ::
  "'v hgraph \<Rightarrow> (ResourceKey \<times> nat) list \<Rightarrow> exec_info \<Rightarrow> effect_summary \<Rightarrow> nat \<Rightarrow> (ResourceKey \<Rightarrow> expected_frontier) \<Rightarrow>
   (ResourceKey \<Rightarrow> expected_frontier) \<Rightarrow> bool" where
  "replayed g initial info s c fr fr' \<longleftrightarrow>
     try_fold (frontier_access g initial info (sched_writes s) c) (sorted_list_of_set (sched_resources s)) fr = Inr fr'"

lemma replayed_sound:
  assumes "replayed g initial info s c fr fr'" "finite_footprint s"
  shows "\<And>r. r \<notin> sched_resources s \<Longrightarrow> fr' r = fr r"
    and "\<And>r node. r \<in> sched_resources s \<Longrightarrow> fr_last_write (fr r) = Some node \<Longrightarrow> node \<in> set (ei_inputs info)"
    and "\<And>r. r \<in> sched_writes s \<Longrightarrow> fr_open_reads (fr r) \<subseteq> set (ei_inputs info)"
    and "\<And>r. r \<in> sched_writes s \<Longrightarrow> \<exists>node \<in> set (ei_outputs info). fr_last_write (fr' r) = Some node"
    and "\<And>r. r \<in> sched_resources s \<Longrightarrow> r \<notin> sched_writes s \<Longrightarrow>
      fr_last_write (fr' r) = fr_last_write (fr r) \<and> fr_open_reads (fr' r) = insert c (fr_open_reads (fr r))"
proof -
  have rs: "set (sorted_list_of_set (sched_resources s)) = sched_resources s" "distinct (sorted_list_of_set (sched_resources s))"
    using finite_sched [OF assms(2)] by (simp_all add: sched_resources_def)
  have run: "try_fold (frontier_access g initial info (sched_writes s) c) (sorted_list_of_set (sched_resources s)) fr = Inr fr'"
    using assms(1) by (simp add: replayed_def)
  note each = frontier_accesses_sound [OF run rs(2), unfolded rs(1)]
  have at: "\<exists>fr0 h. frontier_access g initial info (sched_writes s) c r fr0 = Inr h \<and> fr0 r = fr r \<and> h r = fr' r"
    if "r \<in> sched_resources s" for r using each that by blast
  have w: "r \<in> sched_writes s \<Longrightarrow> r \<in> sched_resources s" for r by (simp add: sched_resources_def)
  show "\<And>r. r \<notin> sched_resources s \<Longrightarrow> fr' r = fr r" using each by blast
  show "\<And>r node. r \<in> sched_resources s \<Longrightarrow> fr_last_write (fr r) = Some node \<Longrightarrow> node \<in> set (ei_inputs info)"
    using at frontier_access_sound(2) by metis
  show "\<And>r. r \<in> sched_writes s \<Longrightarrow> fr_open_reads (fr r) \<subseteq> set (ei_inputs info)"
    using at w frontier_access_sound(3) by metis
  show "\<And>r. r \<in> sched_writes s \<Longrightarrow> \<exists>node \<in> set (ei_outputs info). fr_last_write (fr' r) = Some node"
    using at w frontier_access_sound(4) by metis
  show "\<And>r. r \<in> sched_resources s \<Longrightarrow> r \<notin> sched_writes s \<Longrightarrow>
      fr_last_write (fr' r) = fr_last_write (fr r) \<and> fr_open_reads (fr' r) = insert c (fr_open_reads (fr r))"
    using at frontier_access_sound(5) by metis
qed

lemma shared_resource_path:
  assumes valid: "validate_execution_graph sha256 vd g = Inr ()"
    and inv: "frontier_inv vd g pl ps fr" and x: "x \<in> set ps" "ordered_operation vd g pl x ix sx"
    and p: "ordered_operation vd g pl p info s" and run: "replayed g initial info s c fr fr'"
    and r: "r \<in> sched_resources sx" "r \<in> sched_resources s" "r \<in> sched_writes sx \<or> r \<in> sched_writes s"
  shows "(x, p) \<in> (op_edges g)\<^sup>+"
proof -
  note sound = replayed_sound [OF run summary_footprint(1)]
  have fin: "effect_summary_for_plan_node vd p (node_kind (nodes pl ! p)) = Inr s" "op_for g p = Some info" "op_for g x = Some ix"
    using p x(2) by (simp_all add: ordered_operation_def)
  consider (writer) w iw node where "op_for g w = Some iw" "node \<in> set (ei_outputs iw)" "fr_last_write (fr r) = Some node"
      "(x, w) \<in> (op_edges g)\<^sup>*"
    | (reader) c' where "r \<notin> sched_writes sx" "completion_node g x = Some c'" "c' \<in> fr_open_reads (fr r)"
    using inv x r(1) unfolding frontier_inv_def by blast
  then show ?thesis
  proof cases
    case writer
    then have "(w, p) \<in> op_edges g" using sound(2) [OF fin(1) r(2)] fin(2) by (auto simp: op_edges_def)
    then show ?thesis using writer(4) by (rule rtrancl_into_trancl1 [rotated])
  next
    case reader
    then have "c' \<in> set (ei_inputs info)" using sound(3) [OF fin(1)] r(3) by blast
    moreover have "c' \<in> set (ei_outputs ix)"
      using validated_shapes(1) [OF valid map_of_SomeD [OF fin(3)]] reader(2) by (auto simp: well_shaped_def)
    ultimately have "(x, p) \<in> op_edges g" using fin by (auto simp: op_edges_def)
    then show ?thesis by blast
  qed
qed

lemma frontier_inv_snoc:
  assumes valid: "validate_execution_graph sha256 vd g = Inr ()" and idx: "index_new pl = Inr idx"
    and inv: "frontier_inv vd g pl ps fr" and run: "frontier_operation vd g pl idx initial p fr = Inr fr'"
  shows "frontier_inv vd g pl (ps @ [p]) fr'"
  using run
proof (cases rule: frontier_operation_cases [OF idx, consumes 1, case_names skipped ordered])
  case skipped
  then show ?thesis using inv by (auto simp: frontier_inv_def)
next
  case (ordered info s c)
  have replay: "replayed g initial info s c fr fr'" using ordered(3) by (simp add: replayed_def)
  have s: "effect_summary_for_plan_node vd p (node_kind (nodes pl ! p)) = Inr s" "op_for g p = Some info"
    using ordered(1) by (simp_all add: ordered_operation_def)
  note sound = replayed_sound [OF replay summary_footprint(1) [OF s(1)]]
  show ?thesis unfolding frontier_inv_def
  proof (intro allI impI)
    fix x ix sx r
    assume x: "x \<in> set (ps @ [p])" and ox: "ordered_operation vd g pl x ix sx" and r: "r \<in> sched_resources sx"
    have same: "x = p \<Longrightarrow> sx = s" using ox ordered(1) by (simp add: ordered_operation_def)
    consider (written) "r \<in> sched_writes s" "r \<in> sched_resources s" | (read) "r \<in> sched_resources s" "r \<notin> sched_writes s"
      | (other) "r \<notin> sched_resources s" "x \<in> set ps"
      using x r same by (auto simp: sched_resources_def)
    then show "(\<exists>w iw node. op_for g w = Some iw \<and> node \<in> set (ei_outputs iw) \<and> fr_last_write (fr' r) = Some node \<and>
           (x, w) \<in> (op_edges g)\<^sup>*) \<or>
        r \<notin> sched_writes sx \<and> (\<exists>c. completion_node g x = Some c \<and> c \<in> fr_open_reads (fr' r))"
    proof cases
      case written
      have "(x, p) \<in> (op_edges g)\<^sup>*"
        using shared_resource_path [OF valid inv _ ox ordered(1) replay r written(2)] written(1) x
        by (cases "x = p") (auto intro: trancl_into_rtrancl)
      then show ?thesis using sound(4) [OF written(1)] s(2) by blast
    next
      case read
      note keep = sound(5) [OF read]
      show ?thesis
      proof (cases "x \<in> set ps")
        case True
        then show ?thesis using inv ox r keep unfolding frontier_inv_def by (metis insertCI)
      next
        case False
        then show ?thesis using x same read ordered(2) keep by auto
      qed
    next
      case other
      then show ?thesis using inv ox r sound(1) [OF other(1)] unfolding frontier_inv_def by metis
    qed
  qed
qed

lemma conflicting_path:
  assumes valid: "validate_execution_graph sha256 vd g = Inr ()" and source: "source_plan g = Some pl"
    and ord: "topological_order pl = Inr (as @ a # bs @ b # cs)"
    and a: "ordered_operation vd g pl a ia sa" and b: "ordered_operation vd g pl b ib sb" and conflict: "conflicts_with sa sb"
  shows "(a, b) \<in> (op_edges g)\<^sup>+"
proof -
  obtain idx where idx: "index_new pl = Inr idx" and "validate_source_resource_frontiers vd g pl idx = Inr ()"
    using valid source by (auto simp: validate_execution_graph_def validate_source_plan_dependencies_def res_simps Let_def)
  moreover have "index_order idx = (as @ a # bs) @ b # cs"
    using idx ord by (auto simp: index_new_def res_simps Let_def)
  ultimately obtain initial last_fr where
    "try_fold (frontier_operation vd g pl idx initial) ((as @ a # bs) @ b # cs) (\<lambda>_. empty_frontier) = Inr last_fr"
    by (auto simp: validate_source_resource_frontiers_def and_then_Inr_iff)
  then obtain fr fr' where
    pre: "try_fold (frontier_operation vd g pl idx initial) (as @ a # bs) (\<lambda>_. empty_frontier) = Inr fr"
    and at_b: "frontier_operation vd g pl idx initial b fr = Inr fr'"
    unfolding try_fold_append [of _ "as @ a # bs" "b # cs"] by (auto simp: and_then_Inr_iff simp del: append.simps)
  have inv: "try_fold (frontier_operation vd g pl idx initial) ps (\<lambda>_. empty_frontier) = Inr fr \<Longrightarrow> frontier_inv vd g pl ps fr" for ps fr
  proof (induction ps arbitrary: fr rule: rev_induct)
    case Nil
    then show ?case by (simp add: frontier_inv_def)
  next
    case (snoc p ps)
    then show ?case using frontier_inv_snoc [OF valid idx] by (auto simp: try_fold_append res_simps)
  qed
  from at_b show ?thesis
  proof (cases rule: frontier_operation_cases [OF idx, consumes 1, case_names skipped ordered])
    case skipped
    then show ?thesis using b by blast
  next
    case (ordered info s c)
    have s: "s = sb" "info = ib" using ordered(1) b by (simp_all add: ordered_operation_def)
    have "actor_tracked sa" "actor_tracked sb"
      using a b summary_footprint(2) by (auto simp: ordered_operation_def)
    then obtain r where "r \<in> sched_resources sa" "r \<in> sched_resources sb" "r \<in> sched_writes sa \<or> r \<in> sched_writes sb"
      using conflict_shares_resource [OF conflict] by blast
    then show ?thesis
      using shared_resource_path [OF valid inv [OF pre] _ a b _] ordered(3) s by (auto simp: replayed_def)
  qed
qed

end
