(* ===== verification/From_Oir.thy ===== *)
theory From_Oir
  imports HGraph_Validate
begin

text \<open>
  Lowering a program and its plan to an executable graph (\<^verbatim>\<open>crates/ostadix-api/src/hgraph/from_oir.rs\<close>):
  value nodes, constraint edges, and the executable edges with their completion tokens and resource
  states. The value of a text literal (\<open>OValue::str_\<close>) is the parameter \<open>str_value\<close>.
\<close>

section \<open>Constraint edges\<close>

definition hnode_for_oir :: "(string \<Rightarrow> 'v) \<Rightarrow> OIr \<Rightarrow> 'v hnode" where
  "hnode_for_oir str_value oir =
     (case oir of
        Text t \<Rightarrow> let n = with_value (str_value t) in
          if t \<noteq> [] then n\<lparr>hn_domain := DOMAIN_STRING, hn_rep := REP_STR\<rparr> else n
      | NativeLeaf _ _ _ _ _ \<Rightarrow> fresh_node\<lparr>hn_domain := DOMAIN_INTEGER, hn_rep := REP_I64\<rparr>
      | _ \<Rightarrow> fresh_node)"

definition in_out_ports :: "nat list \<Rightarrow> nat \<Rightarrow> port list" where
  "in_out_ports inputs output = exec_ports inputs [output]"

fun is_store_node :: "PlanNodeKind \<Rightarrow> bool" where
  "is_store_node (StoreNode _) = True"
| "is_store_node _ = False"

definition plan_edge_relation :: "execution_plan \<Rightarrow> plan_index \<Rightarrow> plan_edge \<Rightarrow> hgraph_error + OpKind" where
  "plan_edge_relation pl idx e =
     (case edge_kind e of
        Structural \<Rightarrow>
          and_then (kind_at pl (edge_to e)) (\<lambda>kind.
          and_then (if is_store_node kind then incoming_at idx (edge_to e) else Inr []) (\<lambda>es.
            Inr (if is_store_node kind \<and> length (filter (\<lambda>i. edge_kind i = Structural) es) = 1
                 then DataFlow else StructuralBarrier)))
      | Sequence \<Rightarrow> Inr SequenceRelation
      | Data \<Rightarrow> and_then (kind_at pl (edge_to e)) (\<lambda>kind. Inr (if is_load_node kind then DataFlow else SequenceRelation)))"

definition add_plan_edge ::
  "execution_plan \<Rightarrow> plan_index \<Rightarrow> (nat \<times> nat) list \<Rightarrow> plan_edge \<Rightarrow> 'v hgraph \<Rightarrow> hgraph_error + 'v hgraph" where
  "add_plan_edge pl idx node_map e g =
     and_then (plan_edge_relation pl idx e) (\<lambda>kind.
     and_then (index_map node_map (edge_from e)) (\<lambda>from_node.
     and_then (index_map node_map (edge_to e)) (\<lambda>to_node.
       Inr (snd (hg_add_edge (constraint_edge kind (in_out_ports [from_node] to_node)) g)))))"

text \<open>A \<open>HashSet\<close> that keeps the first occurrence of each element.\<close>

definition deduplicate_nodes :: "nat list \<Rightarrow> nat list" where
  "deduplicate_nodes xs = fold (\<lambda>x seen. if x \<in> set seen then seen else seen @ [x]) xs []"

definition structural_inputs :: "plan_index \<Rightarrow> (nat \<times> nat) list \<Rightarrow> nat \<Rightarrow> hgraph_error + nat list" where
  "structural_inputs idx node_map parent =
     and_then (incoming_at idx parent) (\<lambda>es.
       try_map (index_map node_map) (sort (map edge_from (filter (\<lambda>e. edge_kind e = Structural) es))))"

definition is_crossing :: "execution_plan \<Rightarrow> string option \<Rightarrow> plan_edge \<Rightarrow> hgraph_error + bool" where
  "is_crossing pl cap_binding e =
     (case edge_kind e of
        Structural \<Rightarrow> Inr True
      | Data \<Rightarrow> and_then (kind_at pl (edge_from e)) (\<lambda>kind.
          Inr (case (kind, cap_binding) of (StoreNode name, Some cap) \<Rightarrow> name \<noteq> cap | _ \<Rightarrow> True))
      | Sequence \<Rightarrow> Inr False)"

definition exec_crossing_inputs ::
  "execution_plan \<Rightarrow> plan_index \<Rightarrow> (nat \<times> nat) list \<Rightarrow> nat \<Rightarrow> string option \<Rightarrow> hgraph_error + nat list" where
  "exec_crossing_inputs pl idx node_map parent attr =
     and_then (incoming_at idx parent) (\<lambda>es.
     and_then (try_map (\<lambda>e. and_then (is_crossing pl (attr_capability_binding attr) e) (\<lambda>b. Inr (edge_from e, b))) es) (\<lambda>crossings.
       try_map (index_map node_map) (sort (deduplicate_nodes (map fst (filter snd crossings))))))"

definition add_control_relation :: "OpKind \<Rightarrow> nat list \<Rightarrow> nat \<Rightarrow> 'v hgraph \<Rightarrow> 'v hgraph" where
  "add_control_relation kind inputs output g = snd (hg_add_edge (constraint_edge kind (in_out_ports inputs output)) g)"

fun group_op :: "GroupMode \<Rightarrow> OpKind" where
  "group_op BatchMode = BatchRelation"
| "group_op AllMode = AllRelation"
| "group_op AnyMode = AnyRelation"
| "group_op RaceMode = RaceRelation"

definition backend_output_constraints :: "backend_interface \<Rightarrow> (u16 \<times> u16) option" where
  "backend_output_constraints backend =
     (if \<not> bi_pure backend then None
      else if bi_canonical backend \<in> {''html'', ''markdown'', ''latex'', ''text''} then Some (DOMAIN_STRING, REP_STR)
      else None)"

definition add_exec_semantics ::
  "execution_plan \<Rightarrow> plan_index \<Rightarrow> (nat \<times> nat) list \<Rightarrow> nat \<Rightarrow> PlanNodeKind \<Rightarrow> string option \<Rightarrow> backend_interface \<Rightarrow>
   nat list \<Rightarrow> nat \<Rightarrow> 'v hgraph \<Rightarrow> hgraph_error + 'v hgraph" where
  "add_exec_semantics pl idx node_map i kind attr backend inputs output g =
     (let g1 = (case backend_output_constraints backend of
          None \<Rightarrow> g
        | Some (dm, rp) \<Rightarrow> snd (hg_add_edge (constraint_edge (AbiFixed dm rp) (in_out_ports [] output)) g)) in
      and_then (exec_crossing_inputs pl idx node_map i attr) (\<lambda>crossings.
      let g2 = fold (\<lambda>input. add_control_relation (BackendCrossing ''O'' (bi_canonical backend)) [input] output) crossings g1 in
      Inr (case eval_cache_policy kind of
          None \<Rightarrow> g2
        | Some policy \<Rightarrow> add_control_relation (CacheMemo (cacheable policy)) inputs output
            (add_control_relation (RequestRelation ''eval'') inputs output g2))))"

definition add_node_semantics ::
  "execution_plan \<Rightarrow> plan_index \<Rightarrow> (nat \<times> nat) list \<Rightarrow> plan_node \<Rightarrow> 'v hgraph \<Rightarrow> hgraph_error + 'v hgraph" where
  "add_node_semantics pl idx node_map n g =
     and_then (index_map node_map (node_id n)) (\<lambda>output.
     and_then (structural_inputs idx node_map (node_id n)) (\<lambda>inputs.
       case node_kind n of
         ExecNode _ _ attr backend \<Rightarrow> add_exec_semantics pl idx node_map (node_id n) (node_kind n) attr backend inputs output g
       | RequestNode _ kind _ \<Rightarrow>
           let g1 = add_control_relation (RequestRelation (request_kind_label kind)) inputs output g in
           Inr (case eval_cache_policy (node_kind n) of
               None \<Rightarrow> g1
             | Some policy \<Rightarrow> add_control_relation (CacheMemo (cacheable policy)) inputs output g1)
       | GroupNode mode _ \<Rightarrow> Inr (add_control_relation (group_op mode) inputs output g)
       | ScheduleNode _ kind _ \<Rightarrow> Inr (add_control_relation (ScheduleRelation (schedule_kind_label kind)) inputs output g)
       | _ \<Rightarrow> Inr g))"

definition add_plan_semantics ::
  "execution_plan \<Rightarrow> plan_index \<Rightarrow> (nat \<times> nat) list \<Rightarrow> 'v hgraph \<Rightarrow> hgraph_error + 'v hgraph" where
  "add_plan_semantics pl idx node_map g = try_fold (add_node_semantics pl idx node_map) (nodes pl) g"

section \<open>Resource states\<close>

record resource_frontier =
  head_node :: nat
  head_version :: u64
  open_reads :: "nat set"

type_synonym state_lowering = "ResourceKey \<Rightarrow> resource_frontier option"

definition sl_frontier :: "ResourceKey \<Rightarrow> state_lowering \<Rightarrow> 'v hgraph \<Rightarrow> resource_frontier \<times> 'v hgraph" where
  "sl_frontier r st g =
     (case st r of
        Some f \<Rightarrow> (f, g)
      | None \<Rightarrow> let (i, g1) = hg_add_node (resource_state_node r 0) g in
          (\<lparr>head_node = i, head_version = 0, open_reads = {}\<rparr>, g1))"

definition sl_read :: "ResourceKey \<Rightarrow> nat \<Rightarrow> state_lowering \<Rightarrow> 'v hgraph \<Rightarrow> nat \<times> state_lowering \<times> 'v hgraph" where
  "sl_read r completion st g =
     (let (f, g1) = sl_frontier r st g in
      (head_node f, st(r \<mapsto> f\<lparr>open_reads := insert completion (open_reads f)\<rparr>), g1))"

definition sl_write ::
  "ResourceKey \<Rightarrow> nat \<Rightarrow> state_lowering \<Rightarrow> 'v hgraph \<Rightarrow> (nat \<times> nat list \<times> nat) \<times> state_lowering \<times> 'v hgraph" where
  "sl_write r producer st g =
     (let (f, g1) = sl_frontier r st g;
          version = head_version f + 1;
          (successor, g2) = hg_add_node (resource_state_node r version) g1;
          g3 = g2\<lparr>hg_nodes := update_node successor (\<lambda>n. n\<lparr>hn_plan_node := Some producer\<rparr>) (hg_nodes g2)\<rparr> in
      ((head_node f, sorted_list_of_set (open_reads f), successor),
       st(r \<mapsto> \<lparr>head_node = successor, head_version = version, open_reads = {}\<rparr>), g3))"

text \<open>The inputs and outputs that an operation gains, resource by resource in ascending order.\<close>

definition add_resource_transition ::
  "ResourceKey set \<Rightarrow> nat \<Rightarrow> nat \<Rightarrow> ResourceKey \<Rightarrow> nat list \<times> nat list \<times> state_lowering \<times> 'v hgraph \<Rightarrow>
   nat list \<times> nat list \<times> state_lowering \<times> 'v hgraph" where
  "add_resource_transition written producer completion r acc =
     (let (inputs, outputs, st, g) = acc in
      if r \<in> written
      then let ((prior, readers, successor), st1, g1) = sl_write r producer st g in
        (inputs @ [prior] @ readers, outputs @ [successor], st1, g1)
      else let (state, st1, g1) = sl_read r completion st g in (inputs @ [state], outputs, st1, g1))"

definition add_resource_state_transitions ::
  "effect_summary \<Rightarrow> nat \<Rightarrow> nat \<Rightarrow> nat list \<times> nat list \<times> state_lowering \<times> 'v hgraph \<Rightarrow>
   nat list \<times> nat list \<times> state_lowering \<times> 'v hgraph" where
  "add_resource_state_transitions s producer completion acc =
     (let (rs, ws) = scheduling_accesses s in
      fold (add_resource_transition ws producer completion) (sorted_list_of_set (rs \<union> ws)) acc)"

section \<open>Executable edges\<close>

definition operation_value_inputs :: "plan_index \<Rightarrow> (nat \<times> nat) list \<Rightarrow> nat \<Rightarrow> hgraph_error + nat list" where
  "operation_value_inputs idx node_map parent =
     and_then (incoming_at idx parent) (\<lambda>es.
       try_map (index_map node_map) (sort (deduplicate_nodes (map edge_from (filter (\<lambda>e. edge_kind e \<noteq> Sequence) es)))))"

definition declare_operation ::
  "(bytes \<Rightarrow> string) \<Rightarrow> (string \<Rightarrow> nat \<Rightarrow> string + unit) \<Rightarrow> plan_node \<Rightarrow> 'v hgraph \<Rightarrow> hgraph_error + 'v hgraph" where
  "declare_operation sha256 validate_descriptor n g =
     (if executable_op sha256 (node_kind n) = None then Inr g
      else and_then (map_err EffectFailure (effect_summary_for_plan_node validate_descriptor (node_id n) (node_kind n))) (\<lambda>s.
        and_then (map_err TokenRefused (add_completion_node (node_id n) (set_effect_summary (node_id n) s g))) (\<lambda>(_, g1). Inr g1)))"

definition preserved_sequences ::
  "(bytes \<Rightarrow> string) \<Rightarrow> execution_plan \<Rightarrow> plan_index \<Rightarrow> nat \<Rightarrow> (nat \<Rightarrow> effect_summary option) \<Rightarrow> hgraph_error + nat list" where
  "preserved_sequences sha256 pl idx i summaries =
     and_then (executable_sequence_predecessors sha256 pl idx i) (\<lambda>predecessors.
     and_then (try_map (\<lambda>q. and_then (sequence_can_relax pl idx q i summaries) (\<lambda>b. Inr (q, b))) (sorted_list_of_set predecessors)) (\<lambda>relaxed.
       Inr (map fst (filter (\<lambda>(_, b). \<not> b) relaxed))))"

definition record_sequences :: "nat \<Rightarrow> nat list \<Rightarrow> 'v hgraph \<Rightarrow> hgraph_error + 'v hgraph" where
  "record_sequences i predecessors g =
     try_fold (\<lambda>q g. and_then (ok_or GraphPanic (completion_node g q)) (\<lambda>c.
       map_err TokenRefused (record_sequence_dependency q i c g))) predecessors g"

definition add_operation ::
  "(bytes \<Rightarrow> string) \<Rightarrow> execution_plan \<Rightarrow> plan_index \<Rightarrow> (nat \<times> nat) list \<Rightarrow> OIr list \<Rightarrow> nat \<times> nat \<Rightarrow>
   state_lowering \<times> 'v hgraph \<Rightarrow> hgraph_error + state_lowering \<times> 'v hgraph" where
  "add_operation sha256 pl idx node_map oir_nodes = (\<lambda>(ordinal, i) (st, g).
     and_then (kind_at pl i) (\<lambda>kind.
     case executable_op sha256 kind of
       None \<Rightarrow> Inr (st, g)
     | Some op \<Rightarrow>
       and_then (ok_or (LoweringRefused (MissingSummary i)) (map_of (effect_summaries g) i)) (\<lambda>s.
       and_then (index_map node_map i) (\<lambda>value_output.
       and_then (ok_or (LoweringRefused (MissingCompletion i)) (completion_node g i)) (\<lambda>completion.
       and_then (operation_value_inputs idx node_map i) (\<lambda>value_ins.
       and_then (preserved_sequences sha256 pl idx i (map_of (effect_summaries g))) (\<lambda>preserved.
       and_then (try_map (\<lambda>q. ok_or (LoweringRefused (SequenceWithoutCompletion q)) (completion_node g q)) preserved) (\<lambda>tokens.
       and_then (if i < length oir_nodes then Inr (oir_nodes ! i) else Inl GraphPanic) (\<lambda>oir.
       and_then (map_err PlanFailure (autonomous_ephemeral_group_indexed pl idx i oir)) (\<lambda>autonomous.
       let acc = (value_ins @ tokens, [value_output, completion], st, g);
           (inputs, outputs, st1, g1) =
             (if autonomous = None then add_resource_state_transitions s i completion acc else acc) in
       and_then (map_err BuildRefused (add_exec_edge i op (deduplicate_nodes inputs) (deduplicate_nodes outputs)
           value_output ordinal g1)) (\<lambda>(_, g2).
       and_then (record_sequences i preserved g2) (\<lambda>g3. Inr (st1, g3)))))))))))))"

definition add_execute_edges ::
  "(bytes \<Rightarrow> string) \<Rightarrow> (string \<Rightarrow> nat \<Rightarrow> string + unit) \<Rightarrow> execution_plan \<Rightarrow> plan_index \<Rightarrow> (nat \<times> nat) list \<Rightarrow> OIr list \<Rightarrow>
   'v hgraph \<Rightarrow> hgraph_error + 'v hgraph" where
  "add_execute_edges sha256 validate_descriptor pl idx node_map oir_nodes g =
     and_then (try_fold (declare_operation sha256 validate_descriptor) (nodes pl) g) (\<lambda>g1.
     and_then (try_fold (add_operation sha256 pl idx node_map oir_nodes)
       (zip [0..<length (index_order idx)] (index_order idx)) (\<lambda>_. None, g1)) (\<lambda>(_, g2). Inr g2))"

section \<open>Programs\<close>

definition add_value_node ::
  "(string \<Rightarrow> 'v) \<Rightarrow> OIr list \<Rightarrow> plan_node \<Rightarrow> (nat \<times> nat) list \<times> 'v hgraph \<Rightarrow> hgraph_error + (nat \<times> nat) list \<times> 'v hgraph" where
  "add_value_node str_value oir_nodes n = (\<lambda>(node_map, g).
     if node_id n < length oir_nodes
     then let oir = oir_nodes ! node_id n; (i, g1) = hg_add_node (hnode_for_oir str_value oir) g;
              g2 = g1\<lparr>hg_nodes := update_node i (\<lambda>h. h\<lparr>hn_plan_node := Some (node_id n)\<rparr>) (hg_nodes g1)\<rparr> in
       Inr (AList.update (node_id n) i node_map, record_ir i oir g2)
     else Inl GraphPanic)"

definition build_program_with_plan ::
  "(string \<Rightarrow> bool) \<Rightarrow> (bytes \<Rightarrow> string) \<Rightarrow> (string \<Rightarrow> nat \<Rightarrow> string + unit) \<Rightarrow> (string \<Rightarrow> 'v) \<Rightarrow> OIr list \<Rightarrow>
   execution_plan \<Rightarrow> hgraph_error + 'v hgraph" where
  "build_program_with_plan uni sha256 validate_descriptor str_value program pl =
     and_then (map_err PlanFailure (validate pl (length program))) (\<lambda>_.
     and_then (map_err PlanFailure (index_new pl)) (\<lambda>idx.
     let canonical = plan uni sha256 program; oir_nodes = flatten_for_plan program in
     and_then (ensure (nodes pl = nodes canonical) (LoweringRefused NodeSemanticsDiffer)) (\<lambda>_.
     and_then (ensure (roots pl = roots canonical) (LoweringRefused PlanRootsDiffer)) (\<lambda>_.
     and_then (ensure (length oir_nodes = length (nodes pl)) (LoweringRefused FlattenDiffers)) (\<lambda>_.
     and_then (try_fold (add_value_node str_value oir_nodes) (nodes pl) ([], hgraph_default\<lparr>source_plan := Some pl\<rparr>)) (\<lambda>(node_map, g1).
     and_then (try_map (index_map node_map) (roots pl)) (\<lambda>rs.
     let g2 = fold push_root rs g1 in
     and_then (try_fold (add_plan_edge pl idx node_map) (edges pl) g2) (\<lambda>g3.
     and_then (add_plan_semantics pl idx node_map g3) (\<lambda>g4.
     and_then (add_execute_edges sha256 validate_descriptor pl idx node_map oir_nodes g4) (\<lambda>g5.
     and_then (validate_execution_graph sha256 validate_descriptor g5) (\<lambda>_. Inr g5)))))))))))"

text \<open>\<open>build_program\<close> expects its own plan to project; a failure is a panic.\<close>

definition build_program ::
  "(string \<Rightarrow> bool) \<Rightarrow> (bytes \<Rightarrow> string) \<Rightarrow> (string \<Rightarrow> nat \<Rightarrow> string + unit) \<Rightarrow> (string \<Rightarrow> 'v) \<Rightarrow> OIr list \<Rightarrow>
   hgraph_error + 'v hgraph" where
  "build_program uni sha256 validate_descriptor str_value program =
     map_err (\<lambda>_. GraphPanic) (build_program_with_plan uni sha256 validate_descriptor str_value program (plan uni sha256 program))"

end
