(* ===== verification/Waves.thy ===== *)
theory Waves
  imports Kahn
begin

text \<open>
  Scheduling by waves, the loop of \<open>ReadySchedule::waves\<close> in
  \<^verbatim>\<open>crates/ostadix-api/src/hgraph/schedule.rs\<close>: all ready nodes are taken at once, their successors
  are released, and the released nodes are the next wave.
\<close>

section \<open>The loop\<close>

fun release_wave :: "nat list list \<Rightarrow> nat list \<Rightarrow> nat list \<Rightarrow> nat list \<times> nat list" where
  "release_wave succs [] d = (d, [])"
| "release_wave succs (v # vs) d =
     (let (d', r) = release (succs ! v) d; (d'', rs) = release_wave succs vs d' in (d'', r @ rs))"

text \<open>Every wave holds a new node, so one more iteration than there are nodes ends the loop.\<close>

fun waves_loop :: "(nat \<Rightarrow> 'k :: linorder) \<Rightarrow> nat \<Rightarrow> nat list list \<Rightarrow> nat list \<Rightarrow> nat list \<Rightarrow> nat list list \<Rightarrow> nat list list" where
  "waves_loop key 0 succs d ready ws = ws"
| "waves_loop key (Suc fuel) succs d ready ws =
     (if ready = [] then ws
      else let (d', released) = release_wave succs ready d in
        waves_loop key fuel succs d' (sort_key key released) (ws @ [ready]))"

definition index_waves :: "(nat \<Rightarrow> 'k :: linorder) \<Rightarrow> nat \<Rightarrow> (nat \<times> nat) list \<Rightarrow> nat list list" where
  "index_waves key n E =
     waves_loop key (Suc n) (successors n E) (indegrees n E)
       (sort_key key (filter (\<lambda>v. indegrees n E ! v = 0) [0..<n])) []"

section \<open>What waves promise\<close>

text \<open>Each wave is everything that the earlier waves make available.\<close>

definition greedy_waves :: "nat \<Rightarrow> (nat \<times> nat) list \<Rightarrow> nat list list \<Rightarrow> bool" where
  "greedy_waves n E W \<longleftrightarrow>
     (\<forall>k < length W. W ! k \<noteq> [] \<and> distinct (W ! k) \<and> set (W ! k) = available n E (concat (take k W)))"

lemma greedy_waves_snoc:
  "greedy_waves n E (W @ [w]) \<longleftrightarrow> greedy_waves n E W \<and> w \<noteq> [] \<and> distinct w \<and> set w = available n E (concat W)"
proof -
  have "(\<forall>k < Suc (length W). P k) \<longleftrightarrow> (\<forall>k < length W. P k) \<and> P (length W)" for P
    using less_Suc_eq by auto
  then show ?thesis by (simp add: greedy_waves_def nth_append)
qed

lemma release_wave_inv:
  assumes "kahn_inv n E done d (set vs \<union> R)" "distinct vs" "set vs \<inter> R = {}" "edges_within n E"
    "release_wave (successors n E) vs d = (d', rs)"
  shows "kahn_inv n E (done @ vs) d' (R \<union> set rs) \<and> distinct rs \<and> set rs \<inter> R = {}"
  using assms
proof (induction vs arbitrary: "done" d R rs)
  case (Cons v vs)
  obtain d1 r rs' where rel: "release (successors n E ! v) d = (d1, r)"
    and rest: "release_wave (successors n E) vs d1 = (d', rs')" and rs: "rs = r @ rs'"
    using Cons.prems(5) by (auto simp: Let_def split: prod.splits)
  have v: "v \<in> set (v # vs) \<union> R" by simp
  note step = kahn_inv_step [OF Cons.prems(1,4) v rel]
  have R: "set (v # vs) \<union> R - {v} \<union> set r = set vs \<union> (R \<union> set r)"
    using Cons.prems(2,3) by auto
  have "kahn_inv n E ((done @ [v]) @ vs) d' ((R \<union> set r) \<union> set rs') \<and> distinct rs' \<and> set rs' \<inter> (R \<union> set r) = {}"
    using Cons.prems(2,3) step(1,3) R by (intro Cons.IH [OF _ _ _ Cons.prems(4) rest]) auto
  then show ?case using step(2,3) rs by (auto simp: Un_assoc)
qed simp

lemma kahn_length: "kahn_inv n E ord d R \<Longrightarrow> length ord \<le> n"
  by (metis card_lessThan card_mono distinct_card finite_lessThan kahn_inv_def)

lemma waves_loop_complete:
  assumes "kahn_inv n E (concat W) d (set ready)" "edges_within n E" "distinct ready"
    "n - length (concat W) < fuel" "greedy_waves n E W"
  shows "\<exists>d'. kahn_inv n E (concat (waves_loop key fuel (successors n E) d ready W)) d' {} \<and>
    greedy_waves n E (waves_loop key fuel (successors n E) d ready W)"
  using assms
proof (induction fuel arbitrary: d ready W)
  case (Suc fuel)
  show ?case
  proof (cases "ready = []")
    case True
    then show ?thesis using Suc.prems by auto
  next
    case False
    obtain d' rs where rel: "release_wave (successors n E) ready d = (d', rs)" by fastforce
    have step: "kahn_inv n E (concat W @ ready) d' (set rs) \<and> distinct rs"
      using release_wave_inv [of n E "concat W" d ready "{}" d' rs] Suc.prems(1-3) rel by simp
    then have "length (concat W @ ready) \<le> n" using kahn_length by blast
    then have "n - length (concat (W @ [ready])) < fuel" using Suc.prems(4) False by (cases ready) auto
    moreover have "greedy_waves n E (W @ [ready])"
      using Suc.prems(1,3,5) False by (simp add: greedy_waves_snoc kahn_inv_def)
    ultimately show ?thesis
      using Suc.IH [of "W @ [ready]" d' "sort_key key rs"] step Suc.prems(2) False rel by simp
  qed
qed simp

lemma index_waves_run:
  assumes "edges_within n E"
  obtains d where "kahn_inv n E (concat (index_waves key n E)) d {}" "greedy_waves n E (index_waves key n E)"
proof -
  have "set (sort_key key (filter (\<lambda>v. indegrees n E ! v = 0) [0..<n])) = {v. v < n \<and> indegrees n E ! v = 0}" by auto
  then show thesis
    using waves_loop_complete [of n E "[]" "indegrees n E" _ "Suc n" key] kahn_inv_init [OF assms] assms that
    by (fastforce simp: index_waves_def greedy_waves_def)
qed

lemma index_waves_complete:
  assumes "edges_within n E"
  shows "length (concat (index_waves key n E)) = n \<longleftrightarrow> acyclic (set E)"
proof -
  obtain d where inv: "kahn_inv n E (concat (index_waves key n E)) d {}" using index_waves_run [OF assms] .
  let ?ord = "concat (index_waves key n E)"
  have ord: "distinct ?ord" "set ?ord \<subseteq> {..<n}" "deps_first E ?ord" using inv by (auto simp: kahn_inv_def)
  then have "length ?ord = n \<longleftrightarrow> set ?ord = {..<n}"
    by (metis card_lessThan card_subset_eq distinct_card finite_lessThan)
  then show ?thesis
    using stuck_is_cycle [OF inv assms] deps_first_acyclic [OF _ assms, of ?ord] ord by (auto simp: topo_order_def)
qed

section \<open>Waves and paths\<close>

text \<open>The wave of a node, and that a dependency path leads to a strictly later wave.\<close>

lemma greedy_pred_earlier:
  assumes "greedy_waves n E W" "j < length W" "v \<in> set (W ! j)" "(u, v) \<in> set E"
  obtains i where "i < j" "u \<in> set (W ! i)"
proof -
  have "u \<in> set (concat (take j W))" using assms by (auto simp: greedy_waves_def available_def preds_def)
  then obtain w where w: "w \<in> set (take j W)" "u \<in> set w" by auto
  then obtain i where "i < j" "W ! i = w" using assms(2) by (auto simp: in_set_conv_nth)
  then show thesis using that [of i] w(2) by simp
qed

lemma greedy_path_earlier:
  assumes "(u, v) \<in> (set E)\<^sup>+" "greedy_waves n E W" "j < length W" "v \<in> set (W ! j)"
  shows "\<exists>i < j. u \<in> set (W ! i)"
  using assms
proof (induction arbitrary: j rule: trancl_induct)
  case (base v)
  then show ?case by (metis greedy_pred_earlier)
next
  case (step v w)
  obtain i where "i < j" "v \<in> set (W ! i)" using greedy_pred_earlier [OF step.prems step.hyps(2)] .
  then show ?case using step.IH [of i] step.prems(1,2) by (meson less_trans)
qed

text \<open>A wave after the first is there because of the wave before it.\<close>

lemma greedy_wave_needed:
  assumes "greedy_waves n E W" "Suc k < length W" "v \<in> set (W ! Suc k)"
  shows "\<exists>u \<in> set (W ! k). (u, v) \<in> set E"
proof (rule ccontr)
  assume none: "\<not> (\<exists>u \<in> set (W ! k). (u, v) \<in> set E)"
  have take: "concat (take (Suc k) W) = concat (take k W) @ W ! k" using assms(2) by (simp add: take_Suc_conv_app_nth)
  have "v \<in> available n E (concat (take (Suc k) W))" using assms by (auto simp: greedy_waves_def)
  then have "v \<in> available n E (concat (take k W))"
    using none take by (auto simp: available_def preds_def)
  then have "v \<in> set (W ! k)" using assms(1,2) by (auto simp: greedy_waves_def)
  then show False using \<open>v \<in> available n E (concat (take (Suc k) W))\<close> take by (auto simp: available_def)
qed

end
