(* ===== verification/Ready_Schedule.thy ===== *)
theory Ready_Schedule
  imports HGraph_Frontier From_Oir Waves
begin

text \<open>
  The ready-operation schedule of a graph (\<^verbatim>\<open>crates/ostadix-api/src/hgraph/schedule.rs\<close>): which
  operations can block which, the waves in which they may run, and the launch order. On every validated
  graph the waves exist, cover every operation once, respect every dependency, and keep operations with
  conflicting effects apart in plan order.
\<close>

section \<open>Deriving a schedule\<close>

record ready_op =
  ro_plan_node :: nat
  ro_edge :: nat
  ro_value_output :: nat
  ro_inputs :: "nat list"
  ro_outputs :: "nat list"
  ro_ordinal :: nat
  ro_blocked_by :: "nat list"

definition ro_input_policy :: "ready_op \<Rightarrow> 'v hgraph \<Rightarrow> policy_error + ReadyInputPolicy" where
  "ro_input_policy ro g =
     and_then (ok_or (PolicyAbsent (ro_plan_node ro)) (op_for g (ro_plan_node ro))) (\<lambda>info.
     and_then (ensure (ei_edge info = ro_edge ro \<and> ei_inputs info = ro_inputs ro) (PolicyMismatch (ro_plan_node ro))) (\<lambda>_.
       ready_input_policy info g))"

definition claim_output :: "nat \<Rightarrow> nat \<Rightarrow> (nat \<Rightarrow> nat option) \<Rightarrow> hgraph_error + (nat \<Rightarrow> nat option)" where
  "claim_output k i m = and_then (ensure (m i = None) (SeveralOperationProducers i)) (\<lambda>_. Inr (m(i \<mapsto> k)))"

definition claim_outputs :: "nat \<times> exec_info \<Rightarrow> (nat \<Rightarrow> nat option) \<Rightarrow> hgraph_error + (nat \<Rightarrow> nat option)" where
  "claim_outputs = (\<lambda>(k, info). try_fold (claim_output k) (ei_outputs info))"

text \<open>The ordered set of blockers; sorting and deduplicating it again changes nothing.\<close>

definition blockers :: "(nat \<Rightarrow> nat option) \<Rightarrow> nat \<Rightarrow> nat list \<Rightarrow> nat list" where
  "blockers producer_op k inputs = sorted_list_of_set (set (filter (\<lambda>q. q \<noteq> k) (List.map_filter producer_op inputs)))"

definition ready_op_of :: "(nat \<Rightarrow> nat option) \<Rightarrow> nat \<times> exec_info \<Rightarrow> ready_op" where
  "ready_op_of producer_op = (\<lambda>(k, info).
     \<lparr>ro_plan_node = ei_plan_node info, ro_edge = ei_edge info, ro_value_output = ei_value_output info,
      ro_inputs = ei_inputs info, ro_outputs = ei_outputs info, ro_ordinal = ei_ordinal info,
      ro_blocked_by = blockers producer_op k (ei_inputs info)\<rparr>)"

definition derive ::
  "(bytes \<Rightarrow> string) \<Rightarrow> (string \<Rightarrow> nat \<Rightarrow> string + unit) \<Rightarrow> 'v hgraph \<Rightarrow> hgraph_error + ready_op list" where
  "derive sha256 validate_descriptor g =
     and_then (validate_execution_graph sha256 validate_descriptor g) (\<lambda>_.
     let infos = exec_ops_ordered g; numbered = zip [0..<length infos] infos in
     and_then (try_fold claim_outputs numbered (\<lambda>_. None)) (\<lambda>producer_op.
     and_then (try_for_each (\<lambda>info. and_then (map_err PolicyRefused (ready_input_policy info g)) (\<lambda>_. Inr ())) infos) (\<lambda>_.
       Inr (map (ready_op_of producer_op) numbered))))"

definition schedule_edges :: "ready_op list \<Rightarrow> (nat \<times> nat) list" where
  "schedule_edges ops = concat (map (\<lambda>(k, ro). map (\<lambda>q. (q, k)) (ro_blocked_by ro)) (zip [0..<length ops] ops))"

text \<open>A blocker outside the list is an index out of range.\<close>

definition waves :: "ready_op list \<Rightarrow> hgraph_error + nat list list" where
  "waves ops =
     (let n = length ops; E = schedule_edges ops in
      if \<not> edges_within n E then Inl GraphPanic
      else let W = index_waves (\<lambda>i. (ro_ordinal (ops ! i), i)) n E in
        if length (concat W) \<noteq> n then Inl ReadyCycle else Inr (map (map (\<lambda>i. ro_plan_node (ops ! i))) W))"

definition launch_order :: "ready_op list \<Rightarrow> hgraph_error + nat list" where
  "launch_order ops = and_then (waves ops) (\<lambda>ws. Inr (concat ws))"

section \<open>Blockers are dependencies\<close>

lemma claim_outputs_map:
  assumes "try_fold (claim_output k) outs m = Inr m'"
  shows "m' i = (if i \<in> set outs then Some k else m i) \<and> (i \<in> set outs \<longrightarrow> m i = None)"
  using assms
proof (induction outs arbitrary: m)
  case (Cons j outs)
  obtain m1 where step: "claim_output k j m = Inr m1" "try_fold (claim_output k) outs m1 = Inr m'"
    using Cons.prems by (auto simp: res_simps)
  then have "m j = None" "m1 = m(j \<mapsto> k)" by (auto simp: claim_output_def res_simps)
  then show ?case using Cons.IH [OF step(2)] by (auto split: if_splits)
qed simp

lemma producer_map:
  assumes "try_fold claim_outputs xs m = Inr m'"
  shows "m' i = Some k \<longleftrightarrow> m i = Some k \<or> (\<exists>info. (k, info) \<in> set xs \<and> i \<in> set (ei_outputs info))"
  using assms
proof (induction xs arbitrary: m)
  case (Cons x xs)
  obtain j info where x: "x = (j, info)" by (cases x)
  obtain m1 where step: "try_fold (claim_output j) (ei_outputs info) m = Inr m1" "try_fold claim_outputs xs m1 = Inr m'"
    using Cons.prems by (auto simp: x claim_outputs_def res_simps)
  show ?case using Cons.IH [OF step(2)] claim_outputs_map [OF step(1), of i] by (auto simp: x split: if_splits)
qed simp

lemma numbered_iff: "(k, x) \<in> set (zip [0..<length xs] xs) \<longleftrightarrow> k < length xs \<and> x = xs ! k"
  by (force simp: set_zip)

lemma set_blockers:
  "set (blockers m k inputs) = {q. q \<noteq> k \<and> (\<exists>i \<in> set inputs. m i = Some q)}"
  by (force simp: blockers_def List.map_filter_def image_iff)

lemma derive_parts:
  assumes "derive sha256 vd g = Inr ops"
  obtains m where "validate_execution_graph sha256 vd g = Inr ()" "length ops = length (exec_ops_ordered g)"
    "\<forall>k < length ops. ops ! k = ready_op_of m (k, exec_ops_ordered g ! k)"
    "\<forall>i k. m i = Some k \<longleftrightarrow> k < length ops \<and> i \<in> set (ei_outputs (exec_ops_ordered g ! k))"
proof -
  let ?infos = "exec_ops_ordered g"
  obtain m where m: "validate_execution_graph sha256 vd g = Inr ()"
    "try_fold claim_outputs (zip [0..<length ?infos] ?infos) (\<lambda>_. None) = Inr m"
    "ops = map (ready_op_of m) (zip [0..<length ?infos] ?infos)"
    using assms by (auto simp: derive_def Let_def res_simps)
  have "\<forall>i k. m i = Some k \<longleftrightarrow> k < length ops \<and> i \<in> set (ei_outputs (?infos ! k))"
    unfolding producer_map [OF m(2)] numbered_iff m(3) by auto
  moreover have "length ops = length ?infos" "\<forall>k < length ops. ops ! k = ready_op_of m (k, ?infos ! k)"
    by (simp_all add: m(3))
  ultimately show thesis using m(1) by (intro that)
qed

lemma derive_valid:
  assumes "derive sha256 vd g = Inr ops"
  shows "validate_execution_graph sha256 vd g = Inr ()" "length ops = length (exec_ops_ordered g)"
    "\<And>k. k < length ops \<Longrightarrow> ro_plan_node (ops ! k) = ei_plan_node (exec_ops_ordered g ! k)"
proof -
  obtain m where "validate_execution_graph sha256 vd g = Inr ()" "length ops = length (exec_ops_ordered g)"
    "\<forall>k < length ops. ops ! k = ready_op_of m (k, exec_ops_ordered g ! k)"
    "\<forall>i k. m i = Some k \<longleftrightarrow> k < length ops \<and> i \<in> set (ei_outputs (exec_ops_ordered g ! k))"
    using derive_parts [OF assms] .
  then show "validate_execution_graph sha256 vd g = Inr ()" "length ops = length (exec_ops_ordered g)"
    "\<And>k. k < length ops \<Longrightarrow> ro_plan_node (ops ! k) = ei_plan_node (exec_ops_ordered g ! k)"
    by (simp_all only: ready_op_of_def split_conv ready_op.simps)
qed

lemma set_schedule_edges:
  "set (schedule_edges ops) = {(q, k). k < length ops \<and> q \<in> set (ro_blocked_by (ops ! k))}"
  by (force simp: schedule_edges_def numbered_iff)

lemma schedule_edges_iff:
  assumes "derive sha256 vd g = Inr ops"
  shows "(q, k) \<in> set (schedule_edges ops) \<longleftrightarrow> q < length ops \<and> k < length ops \<and> q \<noteq> k \<and>
    set (ei_outputs (exec_ops_ordered g ! q)) \<inter> set (ei_inputs (exec_ops_ordered g ! k)) \<noteq> {}"
proof -
  obtain m where "validate_execution_graph sha256 vd g = Inr ()" "length ops = length (exec_ops_ordered g)"
    and nth: "\<forall>k < length ops. ops ! k = ready_op_of m (k, exec_ops_ordered g ! k)"
    and m: "\<forall>i k. m i = Some k \<longleftrightarrow> k < length ops \<and> i \<in> set (ei_outputs (exec_ops_ordered g ! k))"
    using derive_parts [OF assms] .
  have "set (ro_blocked_by (ops ! k)) = {q. q \<noteq> k \<and> (\<exists>i \<in> set (ei_inputs (exec_ops_ordered g ! k)). m i = Some q)}"
    if "k < length ops" using nth that by (simp add: set_blockers ready_op_of_def)
  then show ?thesis using m by (auto simp: set_schedule_edges)
qed

section \<open>Operations and their positions\<close>

lemma position_nth: "distinct xs \<Longrightarrow> k < length xs \<Longrightarrow> position xs (xs ! k) = k"
proof (induction xs arbitrary: k)
  case (Cons x xs)
  then show ?case by (cases k) (auto simp: position_def)
qed simp

lemma position_mem: "x \<in> set xs \<Longrightarrow> position xs x < length xs \<and> xs ! position xs x = x"
  by (induction xs) (auto simp: position_def)

definition op_position :: "'v hgraph \<Rightarrow> nat \<Rightarrow> nat" where
  "op_position g = position (map ei_plan_node (exec_ops_ordered g))"

lemma ordered_ops:
  assumes "validate_execution_graph sha256 vd g = Inr ()" "keyed g"
  shows "\<And>k. k < length (exec_ops_ordered g) \<Longrightarrow>
      op_for g (ei_plan_node (exec_ops_ordered g ! k)) = Some (exec_ops_ordered g ! k)"
    and "set (map ei_plan_node (exec_ops_ordered g)) = fst ` set (op_map g)"
    and "distinct (map ei_plan_node (exec_ops_ordered g))"
proof -
  have shaped: "ei_plan_node (snd x) = fst x" if "x \<in> set (op_map g)" for x
    using validated_shapes(1) [OF assms(1), of "fst x" "snd x"] that by (simp add: well_shaped_def)
  have distinct: "distinct (map fst (op_map g))" using assms(2) unfolding keyed_def by blast
  have eq: "map ei_plan_node (map snd (op_map g)) = map fst (op_map g)"
    by (simp add: shaped)
  have mset: "mset (map ei_plan_node (exec_ops_ordered g)) = mset (map fst (op_map g))"
    unfolding exec_ops_ordered_def eq [symmetric] mset_map mset_sort ..
  show "set (map ei_plan_node (exec_ops_ordered g)) = fst ` set (op_map g)"
    using mset_eq_setD [OF mset] by (simp only: list.set_map)
  show "distinct (map ei_plan_node (exec_ops_ordered g))"
    using mset_eq_imp_distinct_iff [OF mset] distinct by blast
  show "op_for g (ei_plan_node (exec_ops_ordered g ! k)) = Some (exec_ops_ordered g ! k)"
    if "k < length (exec_ops_ordered g)" for k
  proof -
    have "exec_ops_ordered g ! k \<in> snd ` set (op_map g)"
      using nth_mem [OF that] unfolding exec_ops_ordered_def by simp
    then obtain x where x: "x \<in> set (op_map g)" "exec_ops_ordered g ! k = snd x" by blast
    then have "(fst x, snd x) \<in> set (op_map g)" by simp
    then show ?thesis unfolding x(2) shaped [OF x(1)] by (rule map_of_is_SomeI [OF distinct])
  qed
qed

lemma op_position_nth:
  assumes "validate_execution_graph sha256 vd g = Inr ()" "keyed g" "op_for g x = Some ix"
  shows "op_position g x < length (exec_ops_ordered g)" "exec_ops_ordered g ! op_position g x = ix"
    "ei_plan_node ix = x"
proof -
  let ?k = "op_position g x"
  have "x \<in> set (map ei_plan_node (exec_ops_ordered g))"
    unfolding ordered_ops(2) [OF assms(1,2)] using map_of_SomeD [OF assms(3)] by (rule image_eqI [rotated]) simp
  from position_mem [OF this] have k: "?k < length (exec_ops_ordered g)" "map ei_plan_node (exec_ops_ordered g) ! ?k = x"
    unfolding op_position_def length_map by blast+
  then have "ei_plan_node (exec_ops_ordered g ! ?k) = x" by (simp only: nth_map)
  then have "op_for g x = Some (exec_ops_ordered g ! ?k)" using ordered_ops(1) [OF assms(1,2) k(1)] by (simp only:)
  then have nth: "exec_ops_ordered g ! ?k = ix" using assms(3) by (simp only: option.inject)
  show "?k < length (exec_ops_ordered g)" by (rule k(1))
  show "exec_ops_ordered g ! ?k = ix" by (rule nth)
  show "ei_plan_node ix = x" using \<open>ei_plan_node (exec_ops_ordered g ! ?k) = x\<close> nth by (simp only:)
qed

lemma op_edge_scheduled:
  assumes derive: "derive sha256 vd g = Inr ops" and "keyed g" and edge: "(q, p) \<in> op_edges g"
  shows "(op_position g q, op_position g p) \<in> set (schedule_edges ops)"
proof -
  note valid = derive_valid(1) [OF derive] and len = derive_valid(2) [OF derive]
  obtain iq ip where i: "op_for g q = Some iq" "op_for g p = Some ip" "set (ei_outputs iq) \<inter> set (ei_inputs ip) \<noteq> {}"
    using edge unfolding op_edges_def by blast
  note q = op_position_nth [OF valid assms(2) i(1)] and p = op_position_nth [OF valid assms(2) i(2)]
  have "q \<noteq> p" using validated_acyclic [OF valid] edge unfolding acyclic_def by blast
  then have "op_position g q \<noteq> op_position g p" using q(2,3) p(2,3) by metis
  then show ?thesis unfolding schedule_edges_iff [OF derive] len q(2) p(2) using q(1) p(1) i(3) by blast
qed

lemma scheduled_op_edge:
  assumes derive: "derive sha256 vd g = Inr ops" and "keyed g" and "(q, k) \<in> set (schedule_edges ops)"
  shows "(ro_plan_node (ops ! q), ro_plan_node (ops ! k)) \<in> op_edges g"
proof -
  note valid = derive_valid [OF derive]
  have qk: "q < length ops" "k < length ops"
    "set (ei_outputs (exec_ops_ordered g ! q)) \<inter> set (ei_inputs (exec_ops_ordered g ! k)) \<noteq> {}"
    using assms(3) unfolding schedule_edges_iff [OF derive] by blast+
  have "op_for g (ro_plan_node (ops ! j)) = Some (exec_ops_ordered g ! j)" if "j < length ops" for j
    unfolding valid(3) [OF that] using ordered_ops(1) [OF valid(1) assms(2)] that valid(2) by (simp only:)
  then show ?thesis unfolding op_edges_def using qk by blast
qed

lemma derived_waves:
  assumes derive: "derive sha256 vd g = Inr ops" and "keyed g"
  obtains W where "waves ops = Inr (map (map (\<lambda>i. ro_plan_node (ops ! i))) W)" "greedy_waves (length ops) (schedule_edges ops) W"
    "set (concat W) = {..<length ops}" "distinct (concat W)"
proof -
  let ?E = "schedule_edges ops" and ?n = "length ops"
  let ?W = "index_waves (\<lambda>i. (ro_ordinal (ops ! i), i)) ?n ?E"
  note valid = derive_valid(1) [OF derive]
  have within: "edges_within ?n ?E"
    using schedule_edges_iff [OF derive] by (auto simp: edges_within_def list_all_iff)
  have "acyclic (set ?E)"
    by (rule acyclic_map [OF validated_acyclic [OF valid], where f = "\<lambda>k. ro_plan_node (ops ! k)"])
      (rule scheduled_op_edge [OF assms])
  then have all: "length (concat ?W) = ?n" using index_waves_complete [OF within] by blast
  obtain d where run: "kahn_inv ?n ?E (concat ?W) d {}" "greedy_waves ?n ?E ?W" using index_waves_run [OF within] .
  then have ord: "distinct (concat ?W)" "set (concat ?W) \<subseteq> {..<?n}" unfolding kahn_inv_def by blast+
  then have "card (set (concat ?W)) = card {..<?n}" using all distinct_card [OF ord(1)] by (simp only: card_lessThan)
  then have "set (concat ?W) = {..<?n}" using ord(2) by (intro card_subset_eq finite_lessThan)
  moreover have "waves ops = Inr (map (map (\<lambda>i. ro_plan_node (ops ! i))) ?W)"
    using within all unfolding waves_def Let_def by (simp only: not_True_eq_False if_False simp_thms)
  ultimately show thesis using run(2) ord(1) by (intro that)
qed

lemma op_position_ro:
  assumes derive: "derive sha256 vd g = Inr ops" and "keyed g" and "k < length ops"
  shows "op_position g (ro_plan_node (ops ! k)) = k"
proof -
  note valid = derive_valid [OF derive]
  have "position (map ei_plan_node (exec_ops_ordered g)) (map ei_plan_node (exec_ops_ordered g) ! k) = k"
    using assms(3) valid(2) by (intro position_nth ordered_ops(3) [OF valid(1) assms(2)]) simp
  then show ?thesis using assms(3) valid(2,3) by (simp add: op_position_def)
qed

lemma ro_op_position:
  assumes derive: "derive sha256 vd g = Inr ops" and "keyed g" and "op_for g p = Some ip"
  shows "op_position g p < length ops" "ro_plan_node (ops ! op_position g p) = p"
  using op_position_nth [OF derive_valid(1) [OF derive] assms(2,3)] derive_valid(2,3) [OF derive] by simp_all

lemma wave_members:
  assumes "derive sha256 vd g = Inr ops" "keyed g" "set w \<subseteq> {..<length ops}" "op_for g p = Some ip"
  shows "p \<in> set (map (\<lambda>i. ro_plan_node (ops ! i)) w) \<longleftrightarrow> op_position g p \<in> set w"
  using op_position_ro [OF assms(1,2)] ro_op_position [OF assms(1,2,4)] assms(3) by force

lemma path_waves:
  assumes derive: "derive sha256 vd g = Inr ops" "keyed g" and path: "(q, p) \<in> (op_edges g)\<^sup>+"
    and W: "greedy_waves (length ops) (schedule_edges ops) W" "set (concat W) = {..<length ops}"
    and p: "j < length W" "p \<in> set (map (\<lambda>i. ro_plan_node (ops ! i)) (W ! j))"
  shows "\<exists>i < j. q \<in> set (map (\<lambda>i. ro_plan_node (ops ! i)) (W ! i))"
proof -
  obtain iq ip where i: "op_for g q = Some iq" "op_for g p = Some ip"
    using tranclD [OF path] tranclD2 [OF path] by (auto simp: op_edges_def)
  have sub: "i < length W \<Longrightarrow> set (W ! i) \<subseteq> {..<length ops}" for i
    unfolding W(2) [symmetric] set_concat using nth_mem [of i W] by blast
  have "(op_position g q, op_position g p) \<in> (set (schedule_edges ops))\<^sup>+"
    by (rule trancl_map [OF path op_edge_scheduled [OF derive]])
  moreover have "op_position g p \<in> set (W ! j)" using p wave_members [OF derive sub [OF p(1)] i(2)] by blast
  ultimately obtain k where "k < j" "op_position g q \<in> set (W ! k)" using greedy_path_earlier W(1) p(1) by blast
  then show ?thesis using wave_members [OF derive sub i(1), of k] p(1) by auto
qed

section \<open>A lowered program\<close>

text \<open>Two bindings of one name: the graph that lowering builds, and its schedule.\<close>

definition sample_program :: "OIr list" where
  "sample_program = [Store ''x'' (Text ''a''), Store ''x'' (Text ''b'')]"

definition sample_source :: execution_plan where
  "sample_source = plan (\<lambda>_. False) (\<lambda>_. []) sample_program"

definition sample_graph :: "string hgraph" where
  "sample_graph =
     projr (build_program_with_plan (\<lambda>_. False) (\<lambda>_. []) (\<lambda>_ _. Inr ()) (\<lambda>s. s) sample_program sample_source)"

definition sample_ops :: "ready_op list" where
  "sample_ops = projr (derive (\<lambda>_. []) (\<lambda>_ _. Inr ()) sample_graph)"

lemma sample_keyed: "keyed sample_graph"
  by code_simp

lemma sample_derived: "derive (\<lambda>_. []) (\<lambda>_ _. Inr ()) sample_graph = Inr sample_ops"
proof -
  have "is_ok (derive (\<lambda>_. []) (\<lambda>_ _. Inr ()) sample_graph)" by code_simp
  then show ?thesis unfolding sample_ops_def by (cases "derive (\<lambda>_. []) (\<lambda>_ _. Inr ()) sample_graph") simp_all
qed

lemma sample_operations: "map fst (op_map sample_graph) = [0, 2]"
  by code_simp

lemma ordered_store:
  assumes "op_for g p = Some info" "p < length (nodes pl)" "node_kind (nodes pl ! p) = StoreNode x"
    "map_of (ir_map g) (ei_value_output info) = Some (Store y e)"
  shows "ordered_operation vd g pl p info (summary_pure\<lparr>writes := {ScopeBinding x}\<rparr>)"
  using assms by (simp add: ordered_operation_def autonomous_ephemeral_group_def autonomous_ephemeral_group_with_index_def)

abbreviation sample_info :: "nat \<Rightarrow> exec_info" where
  "sample_info p \<equiv> the (op_for sample_graph p)"

lemma sample_op: "p \<in> {0, 2} \<Longrightarrow> op_for sample_graph p = Some (sample_info p)"
proof -
  assume "p \<in> {0, 2}"
  then have "p \<in> fst ` set (op_map sample_graph)" unfolding set_map [symmetric] sample_operations by simp
  then have "op_for sample_graph p \<noteq> None" unfolding map_of_eq_None_iff by blast
  then show ?thesis by (rule option.collapse [symmetric])
qed

lemma sample_ordered:
  "ordered_operation (\<lambda>_ _. Inr ()) sample_graph sample_source 0 (sample_info 0) (summary_pure\<lparr>writes := {ScopeBinding ''x''}\<rparr>)"
  "ordered_operation (\<lambda>_ _. Inr ()) sample_graph sample_source 2 (sample_info 2) (summary_pure\<lparr>writes := {ScopeBinding ''x''}\<rparr>)"
proof -
  have n: "0 < length (nodes sample_source)" "2 < length (nodes sample_source)"
    "node_kind (nodes sample_source ! 0) = StoreNode ''x''" "node_kind (nodes sample_source ! 2) = StoreNode ''x''"
    by code_simp+
  have oir: "map_of (ir_map sample_graph) (ei_value_output (sample_info 0)) = Some (Store ''x'' (Text ''a''))"
    "map_of (ir_map sample_graph) (ei_value_output (sample_info 2)) = Some (Store ''x'' (Text ''b''))"
    by code_simp+
  have op: "op_for sample_graph 0 = Some (sample_info 0)" "op_for sample_graph 2 = Some (sample_info 2)"
    by (rule sample_op, simp)+
  show "ordered_operation (\<lambda>_ _. Inr ()) sample_graph sample_source 0 (sample_info 0) (summary_pure\<lparr>writes := {ScopeBinding ''x''}\<rparr>)"
    by (rule ordered_store [OF op(1) n(1,3) oir(1)])
  show "ordered_operation (\<lambda>_ _. Inr ()) sample_graph sample_source 2 (sample_info 2) (summary_pure\<lparr>writes := {ScopeBinding ''x''}\<rparr>)"
    by (rule ordered_store [OF op(2) n(2,4) oir(2)])
qed

section \<open>Properties\<close>

text \<open>C5: Progress: on every validated graph the schedule runs to completion. The waves exist, the launch order is
  their concatenation, every operation is launched exactly once, an operation is launched only after the waves of
  all operations whose outputs it consumes, and every wave after the first waits for the one before it.\<close>

theorem schedule_progress:
  assumes "derive sha256 vd g = Inr ops" "keyed g"
  shows "\<exists>ws. waves ops = Inr ws \<and> launch_order ops = Inr (concat ws) \<and> distinct (concat ws) \<and>
    set (concat ws) = fst ` set (op_map g) \<and>
    (\<forall>j < length ws. \<forall>p \<in> set (ws ! j). \<forall>q. (q, p) \<in> op_edges g \<longrightarrow> (\<exists>i < j. q \<in> set (ws ! i))) \<and>
    (\<forall>j. Suc j < length ws \<longrightarrow> (\<forall>p \<in> set (ws ! Suc j). \<exists>q \<in> set (ws ! j). (q, p) \<in> op_edges g))"
proof -
  note derive = assms
  obtain W where W: "waves ops = Inr (map (map (\<lambda>i. ro_plan_node (ops ! i))) W)"
    "greedy_waves (length ops) (schedule_edges ops) W" "set (concat W) = {..<length ops}" "distinct (concat W)"
    using derived_waves [OF assms] .
  let ?f = "\<lambda>i. ro_plan_node (ops ! i)"
  let ?ws = "map (map ?f) W"
  have launch: "concat ?ws = map ?f (concat W)" by (simp only: map_concat)
  have "inj_on ?f (set (concat W))"
    unfolding W(3) by (rule inj_on_inverseI [of _ "op_position g"]) (simp add: op_position_ro [OF derive])
  then have "distinct (concat ?ws)" unfolding launch using W(4) by (simp only: distinct_map)
  moreover have "set (concat ?ws) = fst ` set (op_map g)"
    unfolding launch set_map W(3) ordered_ops(2) [OF derive_valid(1) [OF assms(1)] assms(2), symmetric]
    using derive_valid(2,3) [OF assms(1)] by (force simp: set_conv_nth)
  moreover have "\<exists>i < j. q \<in> set (?ws ! i)" if "j < length ?ws" "p \<in> set (?ws ! j)" "(q, p) \<in> op_edges g" for j p q
    using path_waves [OF derive r_into_trancl [OF that(3)] W(2,3), of j] that(1,2) by auto
  moreover have "\<exists>q \<in> set (?ws ! j). (q, p) \<in> op_edges g" if "Suc j < length ?ws" "p \<in> set (?ws ! Suc j)" for j p
    using that greedy_wave_needed [OF W(2), of j] scheduled_op_edge [OF derive] by fastforce
  ultimately show ?thesis using W(1) by (intro exI [of _ ?ws]) (simp add: launch_order_def)
qed

theorem schedule_progress_witness:
  "\<exists>ws. waves sample_ops = Inr ws \<and> launch_order sample_ops = Inr (concat ws) \<and> set (concat ws) = {0, 2}"
proof -
  have "fst ` set (op_map sample_graph) = {0, 2}" unfolding set_map [symmetric] sample_operations by simp
  then show ?thesis using schedule_progress [OF sample_derived sample_keyed] by metis
qed

text \<open>C1: Serialization: two operations with conflicting effects, neither of them released by an explicit
  autonomous group, are never in the same wave; the one that is first in the topological order of the source plan
  is launched in a strictly earlier wave.\<close>

theorem conflicts_serialized:
  assumes "derive sha256 vd g = Inr ops" "keyed g" "waves ops = Inr ws" "source_plan g = Some pl"
    and "topological_order pl = Inr (as @ a # bs @ b # cs)"
    and "ordered_operation vd g pl a ia sa" "ordered_operation vd g pl b ib sb" "conflicts_with sa sb"
    and "j < length ws" "b \<in> set (ws ! j)"
  shows "\<exists>i < j. a \<in> set (ws ! i)"
proof -
  obtain W where W: "waves ops = Inr (map (map (\<lambda>i. ro_plan_node (ops ! i))) W)"
    "greedy_waves (length ops) (schedule_edges ops) W" "set (concat W) = {..<length ops}" "distinct (concat W)"
    using derived_waves [OF assms(1,2)] .
  have "(a, b) \<in> (op_edges g)\<^sup>+" by (rule conflicting_path [OF derive_valid(1) [OF assms(1)] assms(4-8)])
  moreover have ws: "ws = map (map (\<lambda>i. ro_plan_node (ops ! i))) W" using assms(3) W(1) by simp
  ultimately obtain i where "i < j" "a \<in> set (map (\<lambda>i. ro_plan_node (ops ! i)) (W ! i))"
    using path_waves [OF assms(1,2) _ W(2,3), of a b j] assms(9,10) by auto
  then show ?thesis using assms(9) by (intro exI [of _ i]) (simp add: ws)
qed

theorem conflicts_serialized_witness:
  "waves sample_ops = Inr [[0], [2]] \<and> (\<exists>i < 1. 0 \<in> set ([[0 :: nat], [2]] ! i))"
proof -
  have w: "waves sample_ops = Inr [[0], [2]]" by code_simp
  have src: "source_plan sample_graph = Some sample_source" "topological_order sample_source = Inr ([1] @ 0 # [3] @ 2 # [])"
    by code_simp+
  let ?s = "summary_pure\<lparr>writes := {ScopeBinding ''x''}\<rparr>"
  have c: "conflicts_with ?s ?s" by code_simp
  have "1 < length [[0 :: nat], [2]]" "2 \<in> set ([[0 :: nat], [2]] ! 1)" by simp_all
  from w conflicts_serialized [OF sample_derived sample_keyed w src sample_ordered c this] show ?thesis ..
qed

end
