(* ===== verification/Commutation.thy ===== *)
theory Commutation
  imports Prelude
begin

text \<open>
  The two arguments behind the confluence check of \<^verbatim>\<open>crates/ostadix-api/src/hgraph/semantics.rs\<close>,
  for any operations: the in-place closure of a Boolean matrix is the transitive closure of its relation, and
  two orders of the same operations that respect a relation lead to equivalent states when the operations
  that the relation leaves unordered commute up to the equivalence.
\<close>

section \<open>The closure of a matrix\<close>

type_synonym matrix = "bool list list"

definition close_entry :: "nat \<Rightarrow> nat \<Rightarrow> nat \<Rightarrow> matrix \<Rightarrow> matrix" where
  "close_entry k i j M = M[i := (M ! i)[j := M ! i ! j \<or> M ! i ! k \<and> M ! k ! j]]"

definition close_phase :: "nat \<Rightarrow> nat \<Rightarrow> matrix \<Rightarrow> matrix" where
  "close_phase m k M = fold (\<lambda>i. fold (close_entry k i) [0..<m]) [0..<m] M"

definition close_matrix :: "nat \<Rightarrow> matrix \<Rightarrow> matrix" where
  "close_matrix m M = fold (close_phase m) [0..<m] M"

definition square :: "nat \<Rightarrow> matrix \<Rightarrow> bool" where
  "square m M \<longleftrightarrow> length M = m \<and> (\<forall>r \<in> set M. length r = m)"

definition matrix_rel :: "nat \<Rightarrow> matrix \<Rightarrow> (nat \<times> nat) set" where
  "matrix_rel m M = {(a, b). a < m \<and> b < m \<and> M ! a ! b}"

lemma square_update: "square m M \<Longrightarrow> length r = m \<Longrightarrow> square m (M[i := r])"
  using set_update_subset_insert [of M i r] by (auto simp: square_def)

lemma square_nth: "square m M \<Longrightarrow> i < m \<Longrightarrow> length (M ! i) = m"
  by (simp add: square_def)

lemma nth_matrix_update:
  assumes "square m M" "i < m" "j < m" "a < m"
  shows "M[i := (M ! i)[j := x]] ! a ! b = (if a = i \<and> b = j then x else M ! a ! b)"
  using assms square_nth [OF assms(1,2)] by (auto simp: nth_list_update square_def)

lemma square_close_entry: "square m M \<Longrightarrow> i < m \<Longrightarrow> square m (close_entry k i j M)"
  by (simp add: close_entry_def square_update square_nth)

text \<open>Row \<open>k\<close> and column \<open>k\<close> do not change while \<open>k\<close> is the intermediate node, so the updates in place
  are those of a fresh matrix.\<close>

lemma close_row:
  assumes "square m M" "i < m" "k < m" "set js \<subseteq> {..<m}" "a < m" "b < m"
  shows "square m (fold (close_entry k i) js M) \<and>
    fold (close_entry k i) js M ! a ! b = (M ! a ! b \<or> a = i \<and> b \<in> set js \<and> M ! i ! k \<and> M ! k ! b)"
  using assms
proof (induction js arbitrary: M)
  case (Cons j js)
  have "square m (close_entry k i j M)" using Cons.prems by (simp add: square_close_entry)
  note IH = Cons.IH [OF this Cons.prems(2,3) _ Cons.prems(5,6)]
  have entry: "x < m \<Longrightarrow> close_entry k i j M ! x ! y =
      (if x = i \<and> y = j then M ! i ! j \<or> M ! i ! k \<and> M ! k ! j else M ! x ! y)" for x y
    using Cons.prems by (simp add: close_entry_def nth_matrix_update)
  show ?case using IH Cons.prems(2-4) by (auto simp: entry Cons.prems(5))
qed simp

lemma close_rows:
  assumes "square m M" "k < m" "set is \<subseteq> {..<m}" "a < m" "b < m"
  shows "square m (fold (\<lambda>i. fold (close_entry k i) [0..<m]) is M) \<and>
    fold (\<lambda>i. fold (close_entry k i) [0..<m]) is M ! a ! b = (M ! a ! b \<or> a \<in> set is \<and> M ! a ! k \<and> M ! k ! b)"
  using assms
proof (induction "is" arbitrary: M)
  case (Cons i "is")
  have row: "square m (fold (close_entry k i) [0..<m] M) \<and> (\<forall>x < m. \<forall>y < m.
      fold (close_entry k i) [0..<m] M ! x ! y = (M ! x ! y \<or> x = i \<and> M ! i ! k \<and> M ! k ! y))"
    using close_row [OF Cons.prems(1) _ Cons.prems(2), of i "[0..<m]"] Cons.prems(2,3)
    by (simp add: atLeast0LessThan)
  then show ?case using Cons.IH [of "fold (close_entry k i) [0..<m] M"] Cons.prems(2-5) by auto
qed simp

lemma close_phase_rel:
  assumes "square m M" "k < m"
  shows "square m (close_phase m k M) \<and>
    matrix_rel m (close_phase m k M) =
      matrix_rel m M \<union> {(a, b). (a, k) \<in> matrix_rel m M \<and> (k, b) \<in> matrix_rel m M}"
proof -
  have "square m (close_phase m k M) \<and> close_phase m k M ! a ! b = (M ! a ! b \<or> M ! a ! k \<and> M ! k ! b)"
    if "a < m" "b < m" for a b
    using close_rows [OF assms, of "[0..<m]" a b] that by (simp add: close_phase_def atLeast0LessThan)
  then show ?thesis using assms(2) by (auto simp: matrix_rel_def)
qed

text \<open>The relation after the phases \<open>0 .. k - 1\<close>.\<close>

primrec via :: "('a \<times> 'a) set \<Rightarrow> (nat \<Rightarrow> 'a) \<Rightarrow> nat \<Rightarrow> ('a \<times> 'a) set" where
  "via R f 0 = R"
| "via R f (Suc k) = via R f k \<union> {(a, b). (a, f k) \<in> via R f k \<and> (f k, b) \<in> via R f k}"

lemma via_trans: "i < k \<Longrightarrow> (a, f i) \<in> via R f k \<Longrightarrow> (f i, b) \<in> via R f k \<Longrightarrow> (a, b) \<in> via R f k"
proof (induction k arbitrary: a b)
  case (Suc k)
  let ?V = "via R f k"
  have a: "(a, f i) \<in> ?V \<or> (a, f k) \<in> ?V \<and> (f k, f i) \<in> ?V"
    and b: "(f i, b) \<in> ?V \<or> (f i, f k) \<in> ?V \<and> (f k, b) \<in> ?V"
    using Suc.prems(2,3) unfolding via.simps by blast+
  show ?case
  proof (cases "i = k")
    case True
    then show ?thesis using a b unfolding via.simps by blast
  next
    case False
    then have "\<And>x y. (x, f i) \<in> ?V \<Longrightarrow> (f i, y) \<in> ?V \<Longrightarrow> (x, y) \<in> ?V" using Suc.IH Suc.prems(1) by simp
    then show ?thesis using a b unfolding via.simps by blast
  qed
qed simp

lemma via_trancl:
  assumes "R \<subseteq> UNIV \<times> f ` {..<k}"
  shows "via R f k = R\<^sup>+"
proof
  have "via R f j \<subseteq> R\<^sup>+" for j
  proof (induction j)
    case (Suc j)
    then show ?case unfolding via.simps by (blast intro: trancl_trans)
  qed auto
  then show "via R f k \<subseteq> R\<^sup>+" .
  have mono: "R \<subseteq> via R f j" for j by (induction j) auto
  have "(a, b) \<in> via R f k" if "(a, b) \<in> R\<^sup>+" for a b
    using that
  proof (induction rule: trancl_induct)
    case (step b c)
    obtain i where i: "i < k" "b = f i" using step.hyps(1) assms tranclD2 [OF step.hyps(1)] by blast
    have "(b, c) \<in> via R f k" using mono step.hyps(2) by blast
    then show ?case using via_trans [OF i(1), of a f R c] step.IH i(2) by blast
  qed (use mono in blast)
  then show "R\<^sup>+ \<subseteq> via R f k" by auto
qed

lemma close_matrix_rel:
  assumes "square m M"
  shows "matrix_rel m (close_matrix m M) = (matrix_rel m M)\<^sup>+"
proof -
  have "k \<le> m \<Longrightarrow> square m (fold (close_phase m) [0..<k] M) \<and>
      matrix_rel m (fold (close_phase m) [0..<k] M) = via (matrix_rel m M) (\<lambda>i. i) k" for k
    using assms by (induction k) (simp_all add: close_phase_rel)
  moreover have "via (matrix_rel m M) (\<lambda>i. i) m = (matrix_rel m M)\<^sup>+"
    by (rule via_trancl) (auto simp: matrix_rel_def)
  ultimately show ?thesis by (simp add: close_matrix_def)
qed

section \<open>Orders of commuting operations\<close>

text \<open>An order respects a relation when no operation comes after one that the relation puts behind it.\<close>

definition linear_extension :: "('a \<times> 'a) set \<Rightarrow> 'a list \<Rightarrow> bool" where
  "linear_extension R xs \<longleftrightarrow> distinct xs \<and> sorted_wrt (\<lambda>a b. (b, a) \<notin> R) xs"

lemma sorted_wrt_all: "\<forall>x \<in> set xs. \<forall>y \<in> set xs. P x y \<Longrightarrow> sorted_wrt P xs"
  by (induction xs) auto

text \<open>Everything that the relation puts before an operation comes before it in the list.\<close>

definition producers_first :: "('a \<times> 'a) set \<Rightarrow> 'a list \<Rightarrow> bool" where
  "producers_first R xs \<longleftrightarrow> (\<forall>k < length xs. \<forall>q. (q, xs ! k) \<in> R \<longrightarrow> q \<in> set (take k xs))"

lemma producers_first_trancl:
  assumes "producers_first R xs"
  shows "producers_first (R\<^sup>+) xs"
proof -
  have "p = xs ! k \<longrightarrow> k < length xs \<longrightarrow> q \<in> set (take k xs)" if "(q, p) \<in> R\<^sup>+" for q p k
    using that
  proof (induction arbitrary: k rule: trancl_induct)
    case (base p)
    then show ?case using assms by (auto simp: producers_first_def)
  next
    case (step b p)
    show ?case
    proof (intro impI)
      assume k: "p = xs ! k" "k < length xs"
      then have "b \<in> set (take k xs)" using assms step.hyps(2) by (auto simp: producers_first_def)
      then obtain i where i: "i < k" "b = xs ! i" using k(2) by (auto simp: in_set_conv_nth)
      then have "q \<in> set (take i xs)" using step.IH k(2) by simp
      then show "q \<in> set (take k xs)" using i(1) set_take_subset_set_take [of i k xs] by auto
    qed
  qed
  then show ?thesis by (simp add: producers_first_def)
qed

lemma producers_first_linear:
  assumes "producers_first R xs" "distinct xs"
  shows "linear_extension (R\<^sup>+) xs"
proof -
  have "(xs ! j, xs ! i) \<notin> R\<^sup>+" if "i < j" "j < length xs" for i j
  proof
    assume "(xs ! j, xs ! i) \<in> R\<^sup>+"
    then have "xs ! j \<in> set (take i xs)"
      using producers_first_trancl [OF assms(1)] that by (auto simp: producers_first_def)
    then obtain k where "k < i" "xs ! k = xs ! j" using that by (auto simp: in_set_conv_nth)
    then show False using assms(2) that by (simp add: nth_eq_iff_index_eq)
  qed
  then show ?thesis using assms(2) by (simp add: linear_extension_def sorted_wrt_iff_nth_less)
qed

text \<open>Waves that put what is before an operation into earlier waves.\<close>

lemma waves_linear_extension:
  assumes "distinct (concat ws)" "\<forall>j < length ws. \<forall>p \<in> set (ws ! j). \<forall>q. (q, p) \<in> R \<longrightarrow> (\<exists>i < j. q \<in> set (ws ! i))"
  shows "linear_extension R (concat ws)"
  using assms
proof (induction ws rule: rev_induct)
  case (snoc w ws)
  have earlier: "q \<in> set (concat ws)" if j: "j < length (ws @ [w])" "p \<in> set ((ws @ [w]) ! j)" "(q, p) \<in> R" for j p q
  proof -
    obtain i where "i < j" "q \<in> set ((ws @ [w]) ! i)" using snoc.prems(2) j by blast
    then show ?thesis using j(1) by (auto simp: nth_append intro: nth_mem)
  qed
  have w: "(y, x) \<notin> R" if x: "x \<in> set (concat ws @ w)" and "y \<in> set w" for x y
  proof
    assume "(y, x) \<in> R"
    moreover obtain v where v: "v \<in> set (ws @ [w])" "x \<in> set v" using x by auto
    moreover obtain j where "j < length (ws @ [w])" "(ws @ [w]) ! j = v" using v(1) unfolding in_set_conv_nth by blast
    ultimately have "y \<in> set (concat ws)" using earlier [of j x y] by blast
    then show False using \<open>y \<in> set w\<close> snoc.prems(1) by auto
  qed
  have "linear_extension R (concat ws)"
  proof (rule snoc.IH)
    show "distinct (concat ws)" using snoc.prems(1) by simp
    show "\<forall>j < length ws. \<forall>p \<in> set (ws ! j). \<forall>q. (q, p) \<in> R \<longrightarrow> (\<exists>i < j. q \<in> set (ws ! i))"
    proof (intro allI impI ballI)
      fix j p q assume "j < length ws" "p \<in> set (ws ! j)" "(q, p) \<in> R"
      then show "\<exists>i < j. q \<in> set (ws ! i)"
        using snoc.prems(2) [rule_format, of j p q] by (auto simp: nth_append intro: less_trans)
    qed
  qed
  then show ?case
    using w snoc.prems(1) unfolding linear_extension_def
    by (simp add: sorted_wrt_append sorted_wrt_all)
qed (simp add: linear_extension_def)

definition congruent_on :: "'s set \<Rightarrow> ('s \<Rightarrow> 'c) \<Rightarrow> ('s \<Rightarrow> 's) \<Rightarrow> bool" where
  "congruent_on S cls f \<longleftrightarrow> (\<forall>x \<in> S. f x \<in> S) \<and> (\<forall>x \<in> S. \<forall>y \<in> S. cls x = cls y \<longrightarrow> cls (f x) = cls (f y))"

definition commute_on :: "'s set \<Rightarrow> ('s \<Rightarrow> 'c) \<Rightarrow> ('s \<Rightarrow> 's) \<Rightarrow> ('s \<Rightarrow> 's) \<Rightarrow> bool" where
  "commute_on S cls f g \<longleftrightarrow> (\<forall>v \<in> S. cls (f (g v)) = cls (g (f v)))"

lemma fold_congruent:
  assumes "\<forall>a \<in> set xs. congruent_on S cls (step a)" "x \<in> S" "y \<in> S" "cls x = cls y"
  shows "fold step xs x \<in> S \<and> fold step xs y \<in> S \<and> cls (fold step xs x) = cls (fold step xs y)"
  using assms
proof (induction xs arbitrary: x y)
  case (Cons a xs)
  have "congruent_on S cls (step a)" using Cons.prems(1) by simp
  then have "step a x \<in> S" "step a y \<in> S" "cls (step a x) = cls (step a y)"
    using Cons.prems(2-4) unfolding congruent_on_def by blast+
  moreover have "\<forall>b \<in> set xs. congruent_on S cls (step b)" using Cons.prems(1) by simp
  ultimately show ?case unfolding fold_simps by (intro Cons.IH)
qed simp

lemma commute_to_front:
  assumes "\<forall>a \<in> set (y # xs). congruent_on S cls (step a)" "w \<in> S"
    and "\<forall>a \<in> set xs. commute_on S cls (step y) (step a)"
  shows "cls (step y (fold step xs w)) = cls (fold step xs (step y w))"
  using assms
proof (induction xs arbitrary: w)
  case (Cons a xs)
  have S: "step a w \<in> S" "step y (step a w) \<in> S" "step a (step y w) \<in> S"
    using Cons.prems(1,2) by (auto simp: congruent_on_def)
  have "cls (step y (fold step xs (step a w))) = cls (fold step xs (step y (step a w)))"
    using Cons.IH [OF _ S(1)] Cons.prems(1,3) by simp
  also have "\<dots> = cls (fold step xs (step a (step y w)))"
    using fold_congruent [of xs S cls step, OF _ S(2,3)] Cons.prems by (simp add: commute_on_def)
  finally show ?case by simp
qed simp

lemma linear_extensions_equivalent:
  assumes "linear_extension R xs" "linear_extension R ys" "set xs = set ys" "w \<in> S"
    and "\<forall>a \<in> set ys. congruent_on S cls (step a)"
    and "\<forall>a \<in> set ys. \<forall>b \<in> set ys. a \<noteq> b \<longrightarrow> (a, b) \<notin> R \<longrightarrow> (b, a) \<notin> R \<longrightarrow>
      commute_on S cls (step a) (step b)"
  shows "cls (fold step xs w) = cls (fold step ys w)"
  using assms
proof (induction ys arbitrary: xs w)
  case (Cons y ys)
  obtain as bs where xs: "xs = as @ y # bs" using Cons.prems(3) split_list [of y xs] by auto
  have rest: "set (as @ bs) = set ys" "y \<notin> set (as @ bs)"
    using Cons.prems(1-3) by (auto simp: xs linear_extension_def)
  have as: "\<forall>a \<in> set as. commute_on S cls (step y) (step a)"
  proof
    fix a assume a: "a \<in> set as"
    then have "(y, a) \<notin> R" "a \<noteq> y" using Cons.prems(1) by (auto simp: xs linear_extension_def sorted_wrt_append)
    moreover have "a \<in> set ys" using a rest(1) by auto
    moreover from this have "(a, y) \<notin> R" using Cons.prems(2) by (auto simp: linear_extension_def)
    ultimately show "commute_on S cls (step y) (step a)"
      using bspec [OF bspec [OF Cons.prems(6), of y], of a] by simp
  qed
  have cong: "\<forall>a \<in> set (y # as). congruent_on S cls (step a)" "\<forall>a \<in> set bs. congruent_on S cls (step a)"
    using Cons.prems(5) rest(1) by auto
  have y: "step y v \<in> S" if "v \<in> S" for v using cong(1) that by (simp add: congruent_on_def)
  have as_S: "fold step as v \<in> S" if "v \<in> S" for v using fold_congruent [of as S cls step, OF _ that that] cong(1) by simp
  note S = y [OF Cons.prems(4)] y [OF as_S [OF Cons.prems(4)]] as_S [OF y [OF Cons.prems(4)]]
  have "cls (fold step xs w) = cls (fold step bs (step y (fold step as w)))" by (simp add: xs)
  also have "\<dots> = cls (fold step bs (fold step as (step y w)))"
    using fold_congruent [OF cong(2) S(2,3) commute_to_front [OF cong(1) Cons.prems(4) as]] by simp
  also have "\<dots> = cls (fold step (as @ bs) (step y w))" by simp
  also have "\<dots> = cls (fold step ys (step y w))"
  proof (rule Cons.IH [OF _ _ rest(1) S(1)])
    show "linear_extension R (as @ bs)" "linear_extension R ys"
      using Cons.prems(1,2) by (auto simp: xs linear_extension_def sorted_wrt_append)
  qed (use Cons.prems(5,6) in simp_all)
  finally show ?case by simp
qed simp

end
