(* ===== verification/Confluence.thy ===== *)
theory Confluence
  imports Ready_Schedule Commutation
begin

text \<open>
  The confluence check of \<^verbatim>\<open>crates/ostadix-api/src/hgraph/semantics.rs\<close>: a finite transition table for the
  executable operations of a graph is tested against the blockers of the ready schedule. When the test succeeds,
  every complete order of the operations that respects the graph is observed as the launch order is.
\<close>

section \<open>Finite models\<close>

text \<open>A state is an index into \<open>observations\<close>; the ordered map of transition tables is an association list.\<close>

record FiniteTransitionModel =
  observations :: "u64 list"
  equivalence_classes :: "u64 list"
  transitions :: "(nat \<times> nat list) list"

record FiniteConfluenceCheck =
  fc_states :: nat
  fc_operations :: nat
  incomparable_pairs_checked :: nat

datatype confluence_error =
    ScheduleRefused hgraph_error
  | ModelTooLarge
  | ModelIncomplete
  | ModelPolicyRefused policy_error
  | NotConjunctive
  | MissingTransition nat
  | NotTotal nat
  | ObservationsDiffer nat nat
  | EquivalenceNotPreserved nat nat nat
  | NotCommuting nat nat nat

definition MAX_STATES :: nat where
  "MAX_STATES = 256"

definition MAX_OPERATIONS :: nat where
  "MAX_OPERATIONS = 256"

section \<open>The check\<close>

definition transition_table :: "'v hgraph \<Rightarrow> FiniteTransitionModel \<Rightarrow> ready_op \<Rightarrow> confluence_error + nat list" where
  "transition_table g M ro =
     and_then (map_err ModelPolicyRefused (ro_input_policy ro g)) (\<lambda>policy.
     and_then (ensure (policy = AllInputs) NotConjunctive) (\<lambda>_.
     and_then (ok_or (MissingTransition (ro_plan_node ro)) (map_of (transitions M) (ro_plan_node ro))) (\<lambda>table.
     and_then (ensure (length table = length (observations M) \<and> list_all (\<lambda>s. s < length (observations M)) table)
       (NotTotal (ro_plan_node ro))) (\<lambda>_. Inr table))))"

definition check_equivalent :: "FiniteTransitionModel \<Rightarrow> ready_op list \<Rightarrow> nat list list \<Rightarrow> nat \<Rightarrow> nat \<Rightarrow> confluence_error + unit" where
  "check_equivalent M ops tables x y =
     (let cls = equivalence_classes M in
      if cls ! x \<noteq> cls ! y then Inr ()
      else and_then (ensure (observations M ! x = observations M ! y) (ObservationsDiffer x y)) (\<lambda>_.
        try_for_each (\<lambda>i. ensure (cls ! (tables ! i ! x) = cls ! (tables ! i ! y))
          (EquivalenceNotPreserved (ro_plan_node (ops ! i)) x y)) [0..<length tables]))"

text \<open>The blockers are in range once the waves exist.\<close>

definition blocking_matrix :: "ready_op list \<Rightarrow> matrix" where
  "blocking_matrix ops =
     fold (\<lambda>(i, ro). fold (\<lambda>p M. M[p := (M ! p)[i := True]]) (ro_blocked_by ro)) (zip [0..<length ops] ops)
       (replicate (length ops) (replicate (length ops) False))"

definition check_commuting ::
  "FiniteTransitionModel \<Rightarrow> ready_op list \<Rightarrow> nat list list \<Rightarrow> matrix \<Rightarrow> nat \<Rightarrow> nat \<Rightarrow> nat \<Rightarrow> confluence_error + nat" where
  "check_commuting M ops tables precedes u v pairs =
     (if precedes ! u ! v \<or> precedes ! v ! u then Inr pairs
      else let cls = equivalence_classes M in
        and_then (try_for_each (\<lambda>w. ensure (cls ! (tables ! u ! (tables ! v ! w)) = cls ! (tables ! v ! (tables ! u ! w)))
          (NotCommuting (ro_plan_node (ops ! u)) (ro_plan_node (ops ! v)) w)) [0..<length (observations M)])
        (\<lambda>_. Inr (pairs + 1)))"

definition check_finite_confluence ::
  "(bytes \<Rightarrow> string) \<Rightarrow> (string \<Rightarrow> nat \<Rightarrow> string + unit) \<Rightarrow> 'v hgraph \<Rightarrow> FiniteTransitionModel
    \<Rightarrow> confluence_error + FiniteConfluenceCheck" where
  "check_finite_confluence sha256 validate_descriptor g M =
     and_then (map_err ScheduleRefused (derive sha256 validate_descriptor g)) (\<lambda>ops.
     and_then (map_err ScheduleRefused (waves ops)) (\<lambda>_.
     let n = length (observations M); m = length ops in
     and_then (ensure (\<not> (n = 0 \<or> n > MAX_STATES \<or> m > MAX_OPERATIONS)) ModelTooLarge) (\<lambda>_.
     and_then (ensure (length (equivalence_classes M) = n \<and> length (transitions M) = m) ModelIncomplete) (\<lambda>_.
     and_then (try_map (transition_table g M) ops) (\<lambda>tables.
     and_then (try_for_each (\<lambda>x. try_for_each (check_equivalent M ops tables x) [0..<x]) [0..<n]) (\<lambda>_.
     let precedes = close_matrix m (blocking_matrix ops) in
     and_then (try_fold (\<lambda>u. try_fold (check_commuting M ops tables precedes u) [0..<u]) [0..<m] 0) (\<lambda>pairs.
       Inr \<lparr>fc_states = n, fc_operations = m, incomparable_pairs_checked = pairs\<rparr>)))))))"

section \<open>The blocking relation\<close>

lemma set_blockers_row:
  assumes "square m M" "i < m" "set ps \<subseteq> {..<m}" "a < m"
  shows "square m (fold (\<lambda>p M. M[p := (M ! p)[i := True]]) ps M) \<and>
    fold (\<lambda>p M. M[p := (M ! p)[i := True]]) ps M ! a ! b = (M ! a ! b \<or> a \<in> set ps \<and> b = i)"
  using assms
proof (induction ps arbitrary: M)
  case (Cons p ps)
  have "square m (M[p := (M ! p)[i := True]])" using Cons.prems by (simp add: square_update square_nth)
  from Cons.IH [OF this] show ?case
    using Cons.prems by (auto simp: nth_matrix_update [OF Cons.prems(1)])
qed simp

lemma blocking_matrix_rel:
  assumes "edges_within (length ops) (schedule_edges ops)"
  shows "square (length ops) (blocking_matrix ops)"
    "matrix_rel (length ops) (blocking_matrix ops) = set (schedule_edges ops)"
proof -
  let ?m = "length ops"
  have fold: "square ?m (fold (\<lambda>(i, ro). fold (\<lambda>p M. M[p := (M ! p)[i := True]]) (ro_blocked_by ro)) xs M) \<and>
      (\<forall>a < ?m. \<forall>b. fold (\<lambda>(i, ro). fold (\<lambda>p M. M[p := (M ! p)[i := True]]) (ro_blocked_by ro)) xs M ! a ! b =
        (M ! a ! b \<or> (\<exists>ro. (b, ro) \<in> set xs \<and> a \<in> set (ro_blocked_by ro))))"
    if "square ?m M" "\<forall>(i, ro) \<in> set xs. i < ?m \<and> set (ro_blocked_by ro) \<subseteq> {..<?m}" for xs M
    using that
  proof (induction xs arbitrary: M)
    case (Cons x xs)
    obtain i ro where x: "x = (i, ro)" by (cases x)
    have "i < ?m" "set (ro_blocked_by ro) \<subseteq> {..<?m}" using Cons.prems(2) by (auto simp: x)
    note row = set_blockers_row [OF Cons.prems(1) this]
    then have "square ?m (fold (\<lambda>p M. M[p := (M ! p)[i := True]]) (ro_blocked_by ro) M)"
      using \<open>i < ?m\<close> by blast
    from Cons.IH [OF this] show ?case using Cons.prems(2) row by (auto simp: x)
  qed simp
  have zero: "square ?m (replicate ?m (replicate ?m False))" by (simp add: square_def)
  have range: "\<forall>(i, ro) \<in> set (zip [0..<?m] ops). i < ?m \<and> set (ro_blocked_by ro) \<subseteq> {..<?m}"
    using assms unfolding edges_within_def list_all_iff set_schedule_edges by (fastforce simp: numbered_iff)
  show "square ?m (blocking_matrix ops)" using fold [OF zero range] by (simp add: blocking_matrix_def)
  show "matrix_rel ?m (blocking_matrix ops) = set (schedule_edges ops)"
    using fold [OF zero range] assms
    by (auto simp: blocking_matrix_def matrix_rel_def set_schedule_edges numbered_iff edges_within_def list_all_iff)
qed

section \<open>What the check establishes\<close>

definition model_step :: "FiniteTransitionModel \<Rightarrow> nat \<Rightarrow> nat \<Rightarrow> nat" where
  "model_step M p w = the (map_of (transitions M) p) ! w"

abbreviation model_class :: "FiniteTransitionModel \<Rightarrow> nat \<Rightarrow> u64" where
  "model_class M w \<equiv> equivalence_classes M ! w"

abbreviation model_states :: "FiniteTransitionModel \<Rightarrow> nat set" where
  "model_states M \<equiv> {..<length (observations M)}"

text \<open>The hypotheses of the confluence argument, over plan nodes.\<close>

definition total_table :: "'v hgraph \<Rightarrow> FiniteTransitionModel \<Rightarrow> ready_op \<Rightarrow> bool" where
  "total_table g M ro \<longleftrightarrow> ro_input_policy ro g = Inr AllInputs \<and>
     (\<exists>t. map_of (transitions M) (ro_plan_node ro) = Some t \<and> length t = length (observations M) \<and>
       set t \<subseteq> model_states M)"

definition observable :: "FiniteTransitionModel \<Rightarrow> bool" where
  "observable M \<longleftrightarrow> (\<forall>x \<in> model_states M. \<forall>y \<in> model_states M.
     model_class M x = model_class M y \<longrightarrow> observations M ! x = observations M ! y)"

lemma transition_table_Inr:
  "transition_table g M ro = Inr t \<longleftrightarrow> total_table g M ro \<and> t = the (map_of (transitions M) (ro_plan_node ro))"
  by (auto simp: transition_table_def total_table_def res_simps list_all_iff subset_iff)

lemma all_pairs_below:
  assumes "\<And>x y. Q x y \<Longrightarrow> Q y x" "\<And>x. Q x x"
  shows "(\<forall>x < (n :: nat). \<forall>y < x. Q x y) \<longleftrightarrow> (\<forall>x < n. \<forall>y < n. Q x y)"
proof
  assume below: "\<forall>x < n. \<forall>y < x. Q x y"
  have "Q x y" if "x < n" "y < n" for x y
    using below assms that by (cases x y rule: linorder_cases) blast+
  then show "\<forall>x < n. \<forall>y < n. Q x y" by blast
qed auto

lemma check_equivalent_Inr:
  "check_equivalent M ops tables x y = Inr () \<longleftrightarrow> (model_class M x = model_class M y \<longrightarrow>
     observations M ! x = observations M ! y \<and>
     (\<forall>i < length tables. model_class M (tables ! i ! x) = model_class M (tables ! i ! y)))"
  by (auto simp: check_equivalent_def Let_def res_simps)

text \<open>A fold that adds to a counter and may refuse each element.\<close>

lemma try_fold_count:
  assumes "\<And>x k k'. f x k = Inr k' \<longleftrightarrow> ok x \<and> k' = k + d x"
  shows "try_fold f xs k = Inr k' \<longleftrightarrow> (\<forall>x \<in> set xs. ok x) \<and> k' = k + (sum_list (map d xs) :: nat)"
  by (induction xs arbitrary: k) (auto simp: res_simps assms)

definition tables_commute :: "FiniteTransitionModel \<Rightarrow> nat list \<Rightarrow> nat list \<Rightarrow> bool" where
  "tables_commute M s t \<longleftrightarrow> (\<forall>w \<in> model_states M. model_class M (s ! (t ! w)) = model_class M (t ! (s ! w)))"

lemma check_commuting_Inr:
  "check_commuting M ops tables P u v k = Inr k' \<longleftrightarrow>
     (P ! u ! v \<or> P ! v ! u \<or> tables_commute M (tables ! u) (tables ! v)) \<and>
     k' = k + of_bool (\<not> P ! u ! v \<and> \<not> P ! v ! u)"
  by (auto simp: check_commuting_def tables_commute_def Let_def res_simps)

lemma sum_pairs_below:
  "(\<Sum>u\<leftarrow>[0..<m]. \<Sum>v\<leftarrow>[0..<u]. of_bool (P u v)) = card {(u, v). u < m \<and> v < u \<and> P u v}"
proof -
  have "{(u, v). u < m \<and> v < u \<and> P u v} = (SIGMA u:{..<m}. {v \<in> {..<u}. P u v})" by auto
  then have "card {(u, v). u < m \<and> v < u \<and> P u v} = (\<Sum>u<m. card {v \<in> {..<u}. P u v})" by (simp add: card_SigmaI)
  also have "\<dots> = (\<Sum>u<m. \<Sum>v<u. of_bool (P u v))" by (simp add: Collect_conj_eq lessThan_def)
  finally show ?thesis by (simp add: interv_sum_list_conv_sum_set_nat atLeast0LessThan)
qed

text \<open>The index that the ready schedule gives an operation, and the plan node of an index.\<close>

abbreviation op_node :: "ready_op list \<Rightarrow> nat \<Rightarrow> nat" where
  "op_node ops k \<equiv> ro_plan_node (ops ! k)"

lemma schedule_path_iff:
  assumes "derive sha256 vd g = Inr ops" "keyed g" "u < length ops" "v < length ops"
  shows "(u, v) \<in> (set (schedule_edges ops))\<^sup>+ \<longleftrightarrow> (op_node ops u, op_node ops v) \<in> (op_edges g)\<^sup>+"
proof
  assume "(u, v) \<in> (set (schedule_edges ops))\<^sup>+"
  from trancl_map [OF this, of "op_node ops"] show "(op_node ops u, op_node ops v) \<in> (op_edges g)\<^sup>+"
    using scheduled_op_edge [OF assms(1,2)] by blast
next
  assume "(op_node ops u, op_node ops v) \<in> (op_edges g)\<^sup>+"
  then have "(op_position g (op_node ops u), op_position g (op_node ops v)) \<in> (set (schedule_edges ops))\<^sup>+"
    by (rule trancl_map [OF _ op_edge_scheduled [OF assms(1,2)]])
  then show "(u, v) \<in> (set (schedule_edges ops))\<^sup>+"
    by (simp add: op_position_ro [OF assms(1,2)] assms(3,4))
qed

lemma precedes_iff:
  assumes "derive sha256 vd g = Inr ops" "keyed g" "u < length ops" "v < length ops"
  shows "close_matrix (length ops) (blocking_matrix ops) ! u ! v \<longleftrightarrow> (op_node ops u, op_node ops v) \<in> (op_edges g)\<^sup>+"
proof -
  let ?m = "length ops"
  have within: "edges_within ?m (schedule_edges ops)"
    using schedule_edges_iff [OF assms(1)] by (auto simp: edges_within_def list_all_iff)
  note B = blocking_matrix_rel [OF within]
  have "close_matrix ?m (blocking_matrix ops) ! u ! v \<longleftrightarrow> (u, v) \<in> matrix_rel ?m (close_matrix ?m (blocking_matrix ops))"
    using assms(3,4) by (simp add: matrix_rel_def)
  also have "\<dots> \<longleftrightarrow> (u, v) \<in> (set (schedule_edges ops))\<^sup>+" by (simp add: close_matrix_rel [OF B(1)] B(2))
  finally show ?thesis by (simp only: schedule_path_iff [OF assms])
qed

definition incomparable :: "'v hgraph \<Rightarrow> nat \<Rightarrow> nat \<Rightarrow> bool" where
  "incomparable g p q \<longleftrightarrow> (p, q) \<notin> (op_edges g)\<^sup>+ \<and> (q, p) \<notin> (op_edges g)\<^sup>+"

definition model_tables :: "FiniteTransitionModel \<Rightarrow> ready_op list \<Rightarrow> nat list list" where
  "model_tables M ops = map (\<lambda>ro. the (map_of (transitions M) (ro_plan_node ro))) ops"

lemma model_tables_nth: "i < length ops \<Longrightarrow> model_tables M ops ! i ! w = model_step M (op_node ops i) w"
  by (simp add: model_tables_def model_step_def)

lemma transition_tables_Inr:
  "try_map (transition_table g M) ops = Inr tables \<longleftrightarrow> (\<forall>ro \<in> set ops. total_table g M ro) \<and> tables = model_tables M ops"
  unfolding try_map_Inr_iff transition_table_Inr list_all2_conv_all_nth model_tables_def
  by (auto simp: all_set_conv_all_nth intro: nth_equalityI)

lemma model_step_closed:
  "total_table g M ro \<Longrightarrow> w \<in> model_states M \<Longrightarrow> model_step M (ro_plan_node ro) w \<in> model_states M"
  unfolding total_table_def model_step_def by (metis lessThan_iff nth_mem option.sel subsetD)

lemma congruent_step:
  assumes "total_table g M ro" "n = length (observations M)"
  shows "congruent_on (model_states M) (model_class M) (model_step M (ro_plan_node ro)) \<longleftrightarrow>
    (\<forall>x < n. \<forall>y < n. model_class M x = model_class M y \<longrightarrow>
      model_class M (model_step M (ro_plan_node ro) x) = model_class M (model_step M (ro_plan_node ro) y))"
proof -
  have "\<forall>x < n. model_step M (ro_plan_node ro) x < n" using model_step_closed [OF assms(1)] by (simp add: assms(2))
  then show ?thesis unfolding congruent_on_def Ball_def lessThan_iff assms(2) [symmetric] by blast
qed

lemma congruences_Inr:
  assumes "\<forall>ro \<in> set ops. total_table g M ro" "n = length (observations M)"
  shows "try_for_each (\<lambda>x. try_for_each (check_equivalent M ops (model_tables M ops) x) [0..<x]) [0..<n] = Inr () \<longleftrightarrow>
    observable M \<and> (\<forall>ro \<in> set ops. congruent_on (model_states M) (model_class M) (model_step M (ro_plan_node ro)))"
proof -
  let ?Q = "\<lambda>x y. model_class M x = model_class M y \<longrightarrow> observations M ! x = observations M ! y \<and>
    (\<forall>i < length ops. model_class M (model_step M (op_node ops i) x) = model_class M (model_step M (op_node ops i) y))"
  have "check_equivalent M ops (model_tables M ops) x y = Inr () \<longleftrightarrow> ?Q x y" for x y
    unfolding check_equivalent_Inr using model_tables_nth [of _ ops M] by (simp add: model_tables_def)
  then have "try_for_each (\<lambda>x. try_for_each (check_equivalent M ops (model_tables M ops) x) [0..<x]) [0..<n] = Inr () \<longleftrightarrow>
      (\<forall>x < n. \<forall>y < x. ?Q x y)"
    by (simp add: try_for_each_Inr_iff Ball_def)
  also have "\<dots> \<longleftrightarrow> (\<forall>x < n. \<forall>y < n. ?Q x y)" by (rule all_pairs_below) auto
  also have "\<dots> \<longleftrightarrow> observable M \<and> (\<forall>i < length ops. \<forall>x < n. \<forall>y < n. model_class M x = model_class M y \<longrightarrow>
      model_class M (model_step M (op_node ops i) x) = model_class M (model_step M (op_node ops i) y))"
    unfolding observable_def assms(2) Ball_def lessThan_iff by blast
  also have "\<dots> \<longleftrightarrow> observable M \<and> (\<forall>i < length ops.
      congruent_on (model_states M) (model_class M) (model_step M (op_node ops i)))"
    using congruent_step [OF _ assms(2), of g] assms(1) by (simp only: nth_mem cong: conj_cong imp_cong)
  also have "\<dots> \<longleftrightarrow> observable M \<and>
      (\<forall>ro \<in> set ops. congruent_on (model_states M) (model_class M) (model_step M (ro_plan_node ro)))"
    by (simp only: all_set_conv_all_nth)
  finally show ?thesis .
qed

lemma commutations_Inr:
  assumes "derive sha256 vd g = Inr ops" "keyed g" "m = length ops"
  shows "try_fold (\<lambda>u. try_fold (check_commuting M ops (model_tables M ops) (close_matrix m (blocking_matrix ops)) u) [0..<u])
      [0..<m] 0 = Inr pairs \<longleftrightarrow>
    (\<forall>u < m. \<forall>v < u. incomparable g (op_node ops u) (op_node ops v) \<longrightarrow>
      commute_on (model_states M) (model_class M) (model_step M (op_node ops u)) (model_step M (op_node ops v))) \<and>
    pairs = card {(u, v). u < m \<and> v < u \<and> incomparable g (op_node ops u) (op_node ops v)}"
proof -
  let ?P = "close_matrix m (blocking_matrix ops)"
  let ?ok = "\<lambda>u v. ?P ! u ! v \<or> ?P ! v ! u \<or> tables_commute M (model_tables M ops ! u) (model_tables M ops ! v)"
  let ?inc = "\<lambda>u v. \<not> ?P ! u ! v \<and> \<not> ?P ! v ! u"
  have inc: "?inc u v \<longleftrightarrow> incomparable g (op_node ops u) (op_node ops v)" if "u < m" "v < m" for u v
    using precedes_iff [OF assms(1,2)] that by (simp add: incomparable_def assms(3))
  have comm: "tables_commute M (model_tables M ops ! u) (model_tables M ops ! v) \<longleftrightarrow>
      commute_on (model_states M) (model_class M) (model_step M (op_node ops u)) (model_step M (op_node ops v))"
    if "u < m" "v < m" for u v
    using that model_tables_nth [of _ ops M] by (simp add: tables_commute_def commute_on_def assms(3))
  have inner: "try_fold (check_commuting M ops (model_tables M ops) ?P u) [0..<u] k = Inr k' \<longleftrightarrow>
      (\<forall>v < u. ?ok u v) \<and> k' = k + (\<Sum>v\<leftarrow>[0..<u]. of_bool (?inc u v))" for u k k'
    using try_fold_count [of "check_commuting M ops (model_tables M ops) ?P u", OF check_commuting_Inr]
    by (simp add: atLeast0LessThan Ball_def)
  have "try_fold (\<lambda>u. try_fold (check_commuting M ops (model_tables M ops) ?P u) [0..<u]) [0..<m] 0 = Inr pairs \<longleftrightarrow>
      (\<forall>u < m. \<forall>v < u. ?ok u v) \<and> pairs = card {(u, v). u < m \<and> v < u \<and> ?inc u v}"
    unfolding try_fold_count [OF inner] sum_pairs_below by (simp add: atLeast0LessThan Ball_def)
  moreover have "(\<forall>v < u. ?ok u v) \<longleftrightarrow> (\<forall>v < u. incomparable g (op_node ops u) (op_node ops v) \<longrightarrow>
      commute_on (model_states M) (model_class M) (model_step M (op_node ops u)) (model_step M (op_node ops v)))"
    if "u < m" for u
    using inc [OF that] comm [OF that] that by (meson less_trans)
  moreover have "{(u, v). u < m \<and> v < u \<and> ?inc u v} =
      {(u, v). u < m \<and> v < u \<and> incomparable g (op_node ops u) (op_node ops v)}"
    using inc by (simp cong: conj_cong)
  ultimately show ?thesis by simp
qed

text \<open>The hypotheses of the argument for the operations of a schedule.\<close>

definition confluent_model :: "'v hgraph \<Rightarrow> FiniteTransitionModel \<Rightarrow> ready_op list \<Rightarrow> bool" where
  "confluent_model g M ops \<longleftrightarrow> (\<forall>ro \<in> set ops. total_table g M ro) \<and> observable M \<and>
     (\<forall>ro \<in> set ops. congruent_on (model_states M) (model_class M) (model_step M (ro_plan_node ro))) \<and>
     (\<forall>u < length ops. \<forall>v < u. incomparable g (op_node ops u) (op_node ops v) \<longrightarrow>
       commute_on (model_states M) (model_class M) (model_step M (op_node ops u)) (model_step M (op_node ops v)))"

definition model_sized :: "FiniteTransitionModel \<Rightarrow> ready_op list \<Rightarrow> bool" where
  "model_sized M ops \<longleftrightarrow> 0 < length (observations M) \<and> length (observations M) \<le> MAX_STATES \<and>
     length ops \<le> MAX_OPERATIONS \<and> length (equivalence_classes M) = length (observations M) \<and>
     length (transitions M) = length ops"

lemma check_finite_confluence_Inr:
  assumes "derive sha256 vd g = Inr ops" "keyed g"
  shows "check_finite_confluence sha256 vd g M = Inr c \<longleftrightarrow> model_sized M ops \<and> confluent_model g M ops \<and>
    c = \<lparr>fc_states = length (observations M), fc_operations = length ops, incomparable_pairs_checked =
      card {(u, v). u < length ops \<and> v < u \<and> incomparable g (op_node ops u) (op_node ops v)}\<rparr>"
proof -
  obtain W where "waves ops = Inr (map (map (op_node ops)) W)" using derived_waves [OF assms] .
  then have "check_finite_confluence sha256 vd g M = Inr c \<longleftrightarrow> model_sized M ops \<and>
      (\<exists>tables. try_map (transition_table g M) ops = Inr tables \<and>
        try_for_each (\<lambda>x. try_for_each (check_equivalent M ops tables x) [0..<x]) [0..<length (observations M)] = Inr () \<and>
        (\<exists>pairs. try_fold (\<lambda>u. try_fold (check_commuting M ops tables (close_matrix (length ops) (blocking_matrix ops)) u) [0..<u])
            [0..<length ops] 0 = Inr pairs \<and>
          c = \<lparr>fc_states = length (observations M), fc_operations = length ops, incomparable_pairs_checked = pairs\<rparr>))"
    unfolding check_finite_confluence_def assms(1) Let_def model_sized_def
    by (simp only: map_err_simps and_then_Inr_iff ensure_Inr_iff sum.inject) (auto simp: not_less)
  then show ?thesis
    using congruences_Inr [of ops g M, OF _ refl]
    unfolding transition_tables_Inr confluent_model_def
    by (cases "\<forall>ro \<in> set ops. total_table g M ro") (simp_all only: simp_thms ex_simps commutations_Inr [OF assms refl] conj_assoc)
qed

lemma launch_linear_extension:
  assumes "derive sha256 vd g = Inr ops" "keyed g"
  obtains ord where "launch_order ops = Inr ord" "set ord = fst ` set (op_map g)" "linear_extension ((op_edges g)\<^sup>+) ord"
proof -
  obtain W where W: "waves ops = Inr (map (map (op_node ops)) W)"
    "greedy_waves (length ops) (schedule_edges ops) W" "set (concat W) = {..<length ops}" "distinct (concat W)"
    using derived_waves [OF assms] .
  let ?ws = "map (map (op_node ops)) W"
  have launch: "concat ?ws = map (op_node ops) (concat W)" by (simp only: map_concat)
  have "inj_on (op_node ops) (set (concat W))"
    unfolding W(3) by (rule inj_on_inverseI [of _ "op_position g"]) (simp add: op_position_ro [OF assms])
  then have "distinct (concat ?ws)" unfolding launch using W(4) by (simp only: distinct_map)
  moreover have "\<forall>j < length ?ws. \<forall>p \<in> set (?ws ! j). \<forall>q. (q, p) \<in> (op_edges g)\<^sup>+ \<longrightarrow> (\<exists>i < j. q \<in> set (?ws ! i))"
  proof (intro allI impI ballI)
    fix j p q assume j: "j < length ?ws" "p \<in> set (?ws ! j)" "(q, p) \<in> (op_edges g)\<^sup>+"
    then obtain i where "i < j" "q \<in> set (map (op_node ops) (W ! i))"
      using path_waves [OF assms j(3) W(2,3), of j] by auto
    then show "\<exists>i < j. q \<in> set (?ws ! i)" using j(1) by auto
  qed
  ultimately have "linear_extension ((op_edges g)\<^sup>+) (concat ?ws)" by (rule waves_linear_extension)
  moreover have "set (concat ?ws) = fst ` set (op_map g)"
    unfolding launch set_map W(3) ordered_ops(2) [OF derive_valid(1) [OF assms(1)] assms(2), symmetric]
    using derive_valid(2,3) [OF assms(1)] by (force simp: set_conv_nth)
  moreover have "launch_order ops = Inr (concat ?ws)" by (simp add: launch_order_def W(1))
  ultimately show thesis by (intro that)
qed

lemma op_index:
  assumes "derive sha256 vd g = Inr ops" "keyed g" "p \<in> fst ` set (op_map g)"
  obtains u where "u < length ops" "op_node ops u = p"
proof -
  have "map_of (op_map g) p \<noteq> None" using assms(3) by (simp add: map_of_eq_None_iff)
  then show thesis using ro_op_position [OF assms(1,2)] that by blast
qed

lemma confluent_operations:
  assumes "derive sha256 vd g = Inr ops" "keyed g" "confluent_model g M ops"
  shows "p \<in> fst ` set (op_map g) \<Longrightarrow> congruent_on (model_states M) (model_class M) (model_step M p)"
    and "p \<in> fst ` set (op_map g) \<Longrightarrow> q \<in> fst ` set (op_map g) \<Longrightarrow> p \<noteq> q \<Longrightarrow> incomparable g p q \<Longrightarrow>
      commute_on (model_states M) (model_class M) (model_step M p) (model_step M q)"
proof -
  show "congruent_on (model_states M) (model_class M) (model_step M p)" if "p \<in> fst ` set (op_map g)"
    using op_index [OF assms(1,2) that] assms(3) nth_mem unfolding confluent_model_def by metis
  assume pq: "p \<in> fst ` set (op_map g)" "q \<in> fst ` set (op_map g)" "p \<noteq> q" "incomparable g p q"
  obtain u where u: "u < length ops" "op_node ops u = p" using op_index [OF assms(1,2) pq(1)] .
  obtain v where v: "v < length ops" "op_node ops v = q" using op_index [OF assms(1,2) pq(2)] .
  have below: "commute_on (model_states M) (model_class M) (model_step M (op_node ops i)) (model_step M (op_node ops j))"
    if "i < length ops" "j < i" "incomparable g (op_node ops i) (op_node ops j)" for i j
    using assms(3) that unfolding confluent_model_def by blast
  have "u \<noteq> v" using u v pq(3) by blast
  then show "commute_on (model_states M) (model_class M) (model_step M p) (model_step M q)"
  proof (cases "v < u")
    case True
    then show ?thesis using below [OF u(1), of v] u v pq(4) by simp
  next
    case False
    then have "commute_on (model_states M) (model_class M) (model_step M q) (model_step M p)"
      using below [OF v(1), of u] \<open>u \<noteq> v\<close> u v pq(4) by (simp add: incomparable_def)
    then show ?thesis by (simp add: commute_on_def)
  qed
qed

section \<open>Two independent loads\<close>

definition pair_program :: "OIr list" where
  "pair_program = [Load ''x'', Load ''y'']"

definition pair_graph :: "string hgraph" where
  "pair_graph = projr (build_program_with_plan (\<lambda>_. False) (\<lambda>_. []) (\<lambda>_ _. Inr ()) (\<lambda>s. s) pair_program
     (plan (\<lambda>_. False) (\<lambda>_. []) pair_program))"

definition pair_ops :: "ready_op list" where
  "pair_ops = projr (derive (\<lambda>_. []) (\<lambda>_ _. Inr ()) pair_graph)"

text \<open>The states are the sets of finished loads; the operations commute, and every set is observed.\<close>

definition pair_model :: FiniteTransitionModel where
  "pair_model = \<lparr>observations = [10, 11, 12, 13], equivalence_classes = [0, 1, 2, 3],
     transitions = [(0, [1, 1, 3, 3]), (1, [2, 3, 2, 3])]\<rparr>"

lemma pair_keyed: "keyed pair_graph"
  by code_simp

lemma pair_operations: "map fst (op_map pair_graph) = [0, 1]"
  by code_simp

lemma pair_derived: "derive (\<lambda>_. []) (\<lambda>_ _. Inr ()) pair_graph = Inr pair_ops"
proof -
  have "is_ok (derive (\<lambda>_. []) (\<lambda>_ _. Inr ()) pair_graph)" by code_simp
  then show ?thesis unfolding pair_ops_def by (cases "derive (\<lambda>_. []) (\<lambda>_ _. Inr ()) pair_graph") simp_all
qed

lemma pair_checked:
  "check_finite_confluence (\<lambda>_. []) (\<lambda>_ _. Inr ()) pair_graph pair_model =
     Inr \<lparr>fc_states = 4, fc_operations = 2, incomparable_pairs_checked = 1\<rparr>"
  by code_simp

lemma pair_unordered: "op_edges pair_graph = {}"
proof -
  have "schedule_edges pair_ops = []" by code_simp
  then show ?thesis using op_edge_scheduled [OF pair_derived pair_keyed] by fastforce
qed

section \<open>Properties\<close>

text \<open>C2: Confluence: when the check accepts a finite model of the executable operations of a graph, then from every
  state of the model, running all operations once in any order that runs the producers of an operation before it is
  observed exactly as running them in the launch order of the ready schedule is.\<close>

theorem confluence_sound:
  assumes "check_finite_confluence sha256 vd g M = Inr c" "keyed g"
    and "distinct xs" "set xs = fst ` set (op_map g)" "producers_first (op_edges g) xs"
    and "w < length (observations M)"
  shows "\<exists>ops ord. derive sha256 vd g = Inr ops \<and> launch_order ops = Inr ord \<and>
    observations M ! fold (model_step M) xs w = observations M ! fold (model_step M) ord w"
proof -
  obtain ops where derive: "derive sha256 vd g = Inr ops"
    using assms(1) unfolding check_finite_confluence_def and_then_Inr_iff map_err_Inr_iff by blast
  have model: "confluent_model g M ops" using check_finite_confluence_Inr [OF derive assms(2)] assms(1) by blast
  obtain ord where ord: "launch_order ops = Inr ord" "set ord = fst ` set (op_map g)" "linear_extension ((op_edges g)\<^sup>+) ord"
    using launch_linear_extension [OF derive assms(2)] .
  note ops = confluent_operations [OF derive assms(2) model]
  let ?S = "model_states M" and ?cls = "model_class M"
  have w: "w \<in> ?S" using assms(6) by simp
  have "?cls (fold (model_step M) xs w) = ?cls (fold (model_step M) ord w)"
  proof (rule linear_extensions_equivalent [OF producers_first_linear [OF assms(5,3)] ord(3) _ w])
    show "set xs = set ord" by (simp only: assms(4) ord(2))
    show "\<forall>a \<in> set ord. congruent_on ?S ?cls (model_step M a)" using ops(1) ord(2) by blast
    show "\<forall>a \<in> set ord. \<forall>b \<in> set ord. a \<noteq> b \<longrightarrow> (a, b) \<notin> (op_edges g)\<^sup>+ \<longrightarrow> (b, a) \<notin> (op_edges g)\<^sup>+ \<longrightarrow>
        commute_on ?S ?cls (model_step M a) (model_step M b)"
      unfolding ord(2) by (intro ballI impI ops(2)) (simp_all add: incomparable_def)
  qed
  moreover have "fold (model_step M) zs w \<in> ?S" if "set zs = fst ` set (op_map g)" for zs
    using fold_congruent [of zs ?S ?cls "model_step M", OF _ w w] ops(1) that by blast
  ultimately have "observations M ! fold (model_step M) xs w = observations M ! fold (model_step M) ord w"
    using model assms(4) ord(2) unfolding confluent_model_def observable_def by blast
  then show ?thesis using derive ord(1) by blast
qed

theorem confluence_sound_witness:
  "\<exists>ops ord. derive (\<lambda>_. []) (\<lambda>_ _. Inr ()) pair_graph = Inr ops \<and> launch_order ops = Inr ord \<and>
     observations pair_model ! fold (model_step pair_model) [1, 0] 0 = observations pair_model ! fold (model_step pair_model) ord 0"
proof -
  have "distinct [1, 0 :: nat]" "set [1, 0 :: nat] = fst ` set (op_map pair_graph)"
    unfolding set_map [symmetric] pair_operations by auto
  moreover have "producers_first (op_edges pair_graph) [1, 0]" by (simp add: pair_unordered producers_first_def)
  moreover have "0 < length (observations pair_model)" by (simp add: pair_model_def)
  ultimately show ?thesis by (rule confluence_sound [OF pair_checked pair_keyed])
qed

text \<open>C15: Exactness of the confluence check: on a scheduled graph it accepts exactly the models within its size limits
  whose operations are total, respect the equivalence, and commute up to it whenever the graph leaves them unordered,
  and whose observation depends on the equivalence class only; it reports the number of unordered pairs.\<close>

theorem confluence_check_exact:
  assumes "derive sha256 vd g = Inr ops" "keyed g"
  shows "check_finite_confluence sha256 vd g M = Inr c \<longleftrightarrow> model_sized M ops \<and> confluent_model g M ops \<and>
    c = \<lparr>fc_states = length (observations M), fc_operations = length ops, incomparable_pairs_checked =
      card {(u, v). u < length ops \<and> v < u \<and> incomparable g (op_node ops u) (op_node ops v)}\<rparr>"
  by (rule check_finite_confluence_Inr [OF assms])

theorem confluence_check_exact_witness:
  "confluent_model pair_graph pair_model pair_ops \<and>
   card {(u, v). u < length pair_ops \<and> v < u \<and> incomparable pair_graph (op_node pair_ops u) (op_node pair_ops v)} = 1"
  using confluence_check_exact [OF pair_derived pair_keyed, THEN iffD1, OF pair_checked] by simp

end
