(* ===== verification/Value.thy ===== *)
theory Value
  imports Plan
begin

text \<open>
  The values of the runtime (\<^verbatim>\<open>crates/ostadix-api/src/value.rs\<close>): the sum type with its parts, type names,
  how values cross the boundary of the runtime, and which of them may be cached, replayed and persisted.

  A \<open>HashMap\<close> is an association list in its iteration order, a \<open>BTreeMap\<close> one in key order. The functions over
  the value tree pass the results for the parts upwards, so that one equation says what a constructor does.
\<close>

section \<open>Parts of values\<close>

datatype DecimalSpecial = DecNan | DecPosInf | DecNegInf | DecPosZero | DecNegZero

datatype FloatFormat = F32 | F64

datatype FloatSpecial = FloatNan | FloatPosInf | FloatNegInf | FloatPosZero | FloatNegZero

datatype ONumber =
    NumInt int
  | NumRational int int
  | NumDecimal int i64 "DecimalSpecial option"
  | NumBinaryFloat FloatFormat bytes
  | NumBigFloat int i64 "u64 option" "FloatSpecial option"
  | NumComplex ONumber ONumber

record OText =
  utf8 :: string
  encoding :: "string option"

record OBytes =
  raw_bytes :: bytes
  media_type :: "string option"

datatype SeqKind = SeqList | SeqTuple | SeqVector

datatype SetKind = SetOrdered | SetUnordered

text \<open>\<open>OSymbol\<close> and \<open>OKeyword\<close>.\<close>

record OSymbol =
  sym_namespace :: "string option"
  sym_name :: string

datatype 'v GraphNode = GraphValue 'v | GraphRef u64

record NativeIdentity =
  stable :: "string option"
  live :: "string option"

datatype NativeCodecSafety = DataOnly | SourceBacked | UnsafeOpaque | LiveHandle

datatype NativeBoundary = NativePure | NativeReferential | NativeEffectful

datatype RehydratePolicy = Portable | SameBackend | SameProcess | NeverRehydrate

datatype CapabilityKind =
    CapFile | CapMemoryRegion | CapDevice | CapClock | CapNetworkEndpoint | CapProcess | CapService
  | CapSystemActivation | CapBackendExecution

datatype SnapshotKind = SnapSystem | SnapService | SnapFilesystem | SnapDevice

datatype RuntimeBoundary = BoundaryPure | BoundaryReferential | BoundaryEffectful

datatype RequestKind =
    ReqInstantiate
  | ReqRealise
  | ReqEval string u32 bool "string option" "BackendAuthority list"
  | ReqActivate string bool "string option"

datatype 'v ONative = ONative
  (nat_lang: string) (nat_implementation: "string option") (nat_version: "string option") (nat_type_name: string)
  (nat_identity: NativeIdentity) (nat_codec: string) (nat_payload: "OBytes option") (nat_boundary: NativeBoundary)
  (nat_safety: NativeCodecSafety) (nat_capabilities: "CapabilityKind list") (nat_metadata: "(string \<times> 'v) list")
  (nat_rehydrate: RehydratePolicy)

section \<open>Values\<close>

text \<open>A character is its scalar value; the text of a blob is its base64 form.\<close>

datatype OValue =
    VNull
  | VBool bool
  | VNumber ONumber
  | VText OText
  | VChar u32
  | VHtml string
  | VStorePath string
  | VExpr string
  | VList "OValue list"
  | VMap "(string \<times> OValue) list"
  | VSeq SeqKind "OValue list"
  | VObject "(string \<times> OValue) list"
  | VEntriesMap "(OValue \<times> OValue) list"
  | VSet SetKind "OValue list"
  | VSymbol OSymbol
  | VKeyword OSymbol
  | VScope "(string \<times> OValue) list"
  | VBlob string string
  | VBytes OBytes
  | VGraph u64 "OValue GraphNode list"
  | VNative "OValue ONative"
  | VNixExpr string "OValue list" string
  | VDerivation string "string list" "OValue list"
  | VRequest RequestKind OValue string
  | VSystem string
  | VCapability CapabilityKind string "(string \<times> OValue) list"
  | VSnapshot SnapshotKind string "(string \<times> OValue) list"
  | VThunk string "OValue list" string
  | VGroup GroupMode "OValue list" string
  | VError string

section \<open>Names\<close>

fun decimal_special_name :: "DecimalSpecial \<Rightarrow> string" where
  "decimal_special_name DecNan = ''nan''"
| "decimal_special_name DecPosInf = ''pos_inf''"
| "decimal_special_name DecNegInf = ''neg_inf''"
| "decimal_special_name DecPosZero = ''pos_zero''"
| "decimal_special_name DecNegZero = ''neg_zero''"

fun float_format_name :: "FloatFormat \<Rightarrow> string" where
  "float_format_name F32 = ''f32''"
| "float_format_name F64 = ''f64''"

fun float_special_name :: "FloatSpecial \<Rightarrow> string" where
  "float_special_name FloatNan = ''nan''"
| "float_special_name FloatPosInf = ''pos_inf''"
| "float_special_name FloatNegInf = ''neg_inf''"
| "float_special_name FloatPosZero = ''pos_zero''"
| "float_special_name FloatNegZero = ''neg_zero''"

fun seq_kind_name :: "SeqKind \<Rightarrow> string" where
  "seq_kind_name SeqList = ''list''"
| "seq_kind_name SeqTuple = ''tuple''"
| "seq_kind_name SeqVector = ''vector''"

fun set_kind_name :: "SetKind \<Rightarrow> string" where
  "set_kind_name SetOrdered = ''ordered''"
| "set_kind_name SetUnordered = ''unordered''"

fun native_codec_safety_name :: "NativeCodecSafety \<Rightarrow> string" where
  "native_codec_safety_name DataOnly = ''data_only''"
| "native_codec_safety_name SourceBacked = ''source_backed''"
| "native_codec_safety_name UnsafeOpaque = ''unsafe_opaque''"
| "native_codec_safety_name LiveHandle = ''live_handle''"

fun native_boundary_name :: "NativeBoundary \<Rightarrow> string" where
  "native_boundary_name NativePure = ''pure''"
| "native_boundary_name NativeReferential = ''referential''"
| "native_boundary_name NativeEffectful = ''effectful''"

fun rehydrate_policy_name :: "RehydratePolicy \<Rightarrow> string" where
  "rehydrate_policy_name Portable = ''portable''"
| "rehydrate_policy_name SameBackend = ''same_backend''"
| "rehydrate_policy_name SameProcess = ''same_process''"
| "rehydrate_policy_name NeverRehydrate = ''never''"

fun capability_kind_name :: "CapabilityKind \<Rightarrow> string" where
  "capability_kind_name CapFile = ''file''"
| "capability_kind_name CapMemoryRegion = ''memory_region''"
| "capability_kind_name CapDevice = ''device''"
| "capability_kind_name CapClock = ''clock''"
| "capability_kind_name CapNetworkEndpoint = ''network_endpoint''"
| "capability_kind_name CapProcess = ''process''"
| "capability_kind_name CapService = ''service''"
| "capability_kind_name CapSystemActivation = ''system_activation''"
| "capability_kind_name CapBackendExecution = ''backend_execution''"

fun snapshot_kind_name :: "SnapshotKind \<Rightarrow> string" where
  "snapshot_kind_name SnapSystem = ''system''"
| "snapshot_kind_name SnapService = ''service''"
| "snapshot_kind_name SnapFilesystem = ''filesystem''"
| "snapshot_kind_name SnapDevice = ''device''"

fun type_name :: "OValue \<Rightarrow> string" where
  "type_name VNull = ''null''"
| "type_name (VBool _) = ''bool''"
| "type_name (VNumber _) = ''number''"
| "type_name (VText _) = ''text''"
| "type_name (VBytes _) = ''bytes''"
| "type_name (VChar _) = ''char''"
| "type_name (VHtml _) = ''html''"
| "type_name (VStorePath _) = ''store_path''"
| "type_name (VList _) = ''list''"
| "type_name (VMap _) = ''map''"
| "type_name (VSeq _ _) = ''seq''"
| "type_name (VObject _) = ''object''"
| "type_name (VEntriesMap _) = ''entries_map''"
| "type_name (VSet _ _) = ''set''"
| "type_name (VSymbol _) = ''symbol''"
| "type_name (VKeyword _) = ''keyword''"
| "type_name (VScope _) = ''scope''"
| "type_name (VBlob _ _) = ''blob''"
| "type_name (VGraph _ _) = ''graph''"
| "type_name (VNative _) = ''native''"
| "type_name (VNixExpr _ _ _) = ''nix_expr''"
| "type_name (VDerivation _ _ _) = ''derivation''"
| "type_name (VRequest _ _ _) = ''request''"
| "type_name (VThunk _ _ _) = ''thunk''"
| "type_name (VGroup _ _ _) = ''group''"
| "type_name (VSystem _) = ''system''"
| "type_name (VCapability _ _ _) = ''capability''"
| "type_name (VSnapshot _ _ _) = ''snapshot''"
| "type_name (VExpr _) = ''expr''"
| "type_name (VError _) = ''error''"

section \<open>Crossing the boundary\<close>

fun join_boundaries :: "RuntimeBoundary \<Rightarrow> RuntimeBoundary \<Rightarrow> RuntimeBoundary" where
  "join_boundaries BoundaryEffectful b = BoundaryEffectful"
| "join_boundaries a BoundaryEffectful = BoundaryEffectful"
| "join_boundaries BoundaryReferential b = BoundaryReferential"
| "join_boundaries a BoundaryReferential = BoundaryReferential"
| "join_boundaries BoundaryPure BoundaryPure = BoundaryPure"

definition join_child_boundaries :: "RuntimeBoundary list \<Rightarrow> RuntimeBoundary" where
  "join_child_boundaries bs = foldl join_boundaries BoundaryPure bs"

fun native_runtime_boundary :: "NativeBoundary \<Rightarrow> RuntimeBoundary" where
  "native_runtime_boundary NativePure = BoundaryPure"
| "native_runtime_boundary NativeReferential = BoundaryReferential"
| "native_runtime_boundary NativeEffectful = BoundaryEffectful"

text \<open>The parts of a graph and of an entries map, in order.\<close>

fun graph_parts :: "'v GraphNode list \<Rightarrow> 'v list" where
  "graph_parts [] = []"
| "graph_parts (GraphValue v # ns) = v # graph_parts ns"
| "graph_parts (GraphRef t # ns) = graph_parts ns"

definition entry_parts :: "('v \<times> 'v) list \<Rightarrow> 'v list" where
  "entry_parts es = concat (map (\<lambda>(k, v). [k, v]) es)"

primrec runtime_boundary :: "OValue \<Rightarrow> RuntimeBoundary" where
  "runtime_boundary VNull = BoundaryPure"
| "runtime_boundary (VBool b) = BoundaryPure"
| "runtime_boundary (VNumber n) = BoundaryPure"
| "runtime_boundary (VText t) = BoundaryPure"
| "runtime_boundary (VChar c) = BoundaryPure"
| "runtime_boundary (VHtml h) = BoundaryPure"
| "runtime_boundary (VStorePath p) = BoundaryPure"
| "runtime_boundary (VExpr src) = BoundaryPure"
| "runtime_boundary (VList vs) = join_child_boundaries (map runtime_boundary vs)"
| "runtime_boundary (VMap es) = join_child_boundaries (map snd (map (map_prod id runtime_boundary) es))"
| "runtime_boundary (VSeq k vs) = join_child_boundaries (map runtime_boundary vs)"
| "runtime_boundary (VObject es) = join_child_boundaries (map snd (map (map_prod id runtime_boundary) es))"
| "runtime_boundary (VEntriesMap es) = join_child_boundaries (entry_parts (map (map_prod runtime_boundary runtime_boundary) es))"
| "runtime_boundary (VSet k vs) = join_child_boundaries (map runtime_boundary vs)"
| "runtime_boundary (VSymbol sy) = BoundaryPure"
| "runtime_boundary (VKeyword kw) = BoundaryPure"
| "runtime_boundary (VScope es) = BoundaryEffectful"
| "runtime_boundary (VBlob v mime) = BoundaryPure"
| "runtime_boundary (VBytes b) = BoundaryPure"
| "runtime_boundary (VGraph r ns) = join_child_boundaries (graph_parts (map (map_GraphNode runtime_boundary) ns))"
| "runtime_boundary (VNative n) = native_runtime_boundary (nat_boundary n)"
| "runtime_boundary (VNixExpr body deps fp) = join_child_boundaries (map runtime_boundary deps)"
| "runtime_boundary (VDerivation drv outs deps) = join_child_boundaries (map runtime_boundary deps)"
| "runtime_boundary (VRequest k src fp) = BoundaryEffectful"
| "runtime_boundary (VSystem p) = BoundaryReferential"
| "runtime_boundary (VCapability k i m) = BoundaryEffectful"
| "runtime_boundary (VSnapshot k i st) = join_child_boundaries (map snd (map (map_prod id runtime_boundary) st))"
| "runtime_boundary (VThunk body deps fp) = join_child_boundaries (map runtime_boundary deps)"
| "runtime_boundary (VGroup mode vs fp) = BoundaryEffectful"
| "runtime_boundary (VError msg) = BoundaryEffectful"

section \<open>Caching, replaying and persisting\<close>

definition native_is_cache_safe :: "bool ONative \<Rightarrow> bool" where
  "native_is_cache_safe n \<longleftrightarrow> nat_safety n \<in> {DataOnly, SourceBacked} \<and> nat_boundary n = NativePure \<and>
     live (nat_identity n) = None \<and> nat_capabilities n = [] \<and> list_all snd (nat_metadata n)"

primrec is_cache_safe :: "OValue \<Rightarrow> bool" where
  "is_cache_safe VNull = True"
| "is_cache_safe (VBool b) = True"
| "is_cache_safe (VNumber n) = True"
| "is_cache_safe (VText t) = True"
| "is_cache_safe (VChar c) = True"
| "is_cache_safe (VHtml h) = True"
| "is_cache_safe (VStorePath p) = True"
| "is_cache_safe (VExpr src) = True"
| "is_cache_safe (VList vs) = list_all id (map is_cache_safe vs)"
| "is_cache_safe (VMap es) = list_all snd (map (map_prod id is_cache_safe) es)"
| "is_cache_safe (VSeq k vs) = list_all id (map is_cache_safe vs)"
| "is_cache_safe (VObject es) = list_all snd (map (map_prod id is_cache_safe) es)"
| "is_cache_safe (VEntriesMap es) = list_all (\<lambda>(k, v). k \<and> v) (map (map_prod is_cache_safe is_cache_safe) es)"
| "is_cache_safe (VSet k vs) = list_all id (map is_cache_safe vs)"
| "is_cache_safe (VSymbol sy) = True"
| "is_cache_safe (VKeyword kw) = True"
| "is_cache_safe (VScope es) = False"
| "is_cache_safe (VBlob v mime) = True"
| "is_cache_safe (VBytes b) = True"
| "is_cache_safe (VGraph r ns) = list_all id (graph_parts (map (map_GraphNode is_cache_safe) ns))"
| "is_cache_safe (VNative n) = native_is_cache_safe (map_ONative is_cache_safe n)"
| "is_cache_safe (VNixExpr body deps fp) = list_all id (map is_cache_safe deps)"
| "is_cache_safe (VDerivation drv outs deps) = list_all id (map is_cache_safe deps)"
| "is_cache_safe (VRequest k src fp) =
     (case k of
        ReqActivate _ _ _ \<Rightarrow> False
      | ReqEval _ _ reusable authority permissions \<Rightarrow> reusable \<and> authority = None \<and> permissions = [] \<and> is_cache_safe src
      | _ \<Rightarrow> is_cache_safe src)"
| "is_cache_safe (VSystem p) = False"
| "is_cache_safe (VCapability k i m) = False"
| "is_cache_safe (VSnapshot k i st) = list_all snd (map (map_prod id is_cache_safe) st)"
| "is_cache_safe (VThunk body deps fp) = list_all id (map is_cache_safe deps)"
| "is_cache_safe (VGroup mode vs fp) = True"
| "is_cache_safe (VError msg) = False"

definition native_is_replay_safe :: "bool ONative \<Rightarrow> bool" where
  "native_is_replay_safe n \<longleftrightarrow> nat_safety n \<in> {DataOnly, SourceBacked} \<and> nat_boundary n = NativePure \<and>
     live (nat_identity n) = None \<and> nat_capabilities n = [] \<and> list_all snd (nat_metadata n)"

primrec is_replay_safe :: "OValue \<Rightarrow> bool" where
  "is_replay_safe VNull = True"
| "is_replay_safe (VBool b) = True"
| "is_replay_safe (VNumber n) = True"
| "is_replay_safe (VText t) = True"
| "is_replay_safe (VChar c) = True"
| "is_replay_safe (VHtml h) = True"
| "is_replay_safe (VStorePath p) = True"
| "is_replay_safe (VExpr src) = True"
| "is_replay_safe (VList vs) = list_all id (map is_replay_safe vs)"
| "is_replay_safe (VMap es) = list_all snd (map (map_prod id is_replay_safe) es)"
| "is_replay_safe (VSeq k vs) = list_all id (map is_replay_safe vs)"
| "is_replay_safe (VObject es) = list_all snd (map (map_prod id is_replay_safe) es)"
| "is_replay_safe (VEntriesMap es) = list_all (\<lambda>(k, v). k \<and> v) (map (map_prod is_replay_safe is_replay_safe) es)"
| "is_replay_safe (VSet k vs) = list_all id (map is_replay_safe vs)"
| "is_replay_safe (VSymbol sy) = True"
| "is_replay_safe (VKeyword kw) = True"
| "is_replay_safe (VScope es) = False"
| "is_replay_safe (VBlob v mime) = True"
| "is_replay_safe (VBytes b) = True"
| "is_replay_safe (VGraph r ns) = list_all id (graph_parts (map (map_GraphNode is_replay_safe) ns))"
| "is_replay_safe (VNative n) = native_is_replay_safe (map_ONative is_replay_safe n)"
| "is_replay_safe (VNixExpr body deps fp) = list_all id (map is_replay_safe deps)"
| "is_replay_safe (VDerivation drv outs deps) = list_all id (map is_replay_safe deps)"
| "is_replay_safe (VRequest k src fp) =
     (case k of
        ReqActivate _ _ _ \<Rightarrow> False
      | ReqEval _ _ _ authority permissions \<Rightarrow> authority = None \<and> permissions = [] \<and> is_replay_safe src
      | _ \<Rightarrow> is_replay_safe src)"
| "is_replay_safe (VSystem p) = False"
| "is_replay_safe (VCapability k i m) = False"
| "is_replay_safe (VSnapshot k i st) = list_all snd (map (map_prod id is_replay_safe) st)"
| "is_replay_safe (VThunk body deps fp) = list_all id (map is_replay_safe deps)"
| "is_replay_safe (VGroup mode vs fp) = True"
| "is_replay_safe (VError msg) = False"

definition native_is_boot_persistable :: "bool ONative \<Rightarrow> bool" where
  "native_is_boot_persistable n \<longleftrightarrow> nat_safety n \<in> {DataOnly, SourceBacked} \<and> nat_boundary n = NativePure \<and> nat_rehydrate n = Portable \<and>
     live (nat_identity n) = None \<and> nat_capabilities n = [] \<and> list_all snd (nat_metadata n)"

primrec is_boot_persistable :: "OValue \<Rightarrow> bool" where
  "is_boot_persistable VNull = True"
| "is_boot_persistable (VBool b) = True"
| "is_boot_persistable (VNumber n) = True"
| "is_boot_persistable (VText t) = True"
| "is_boot_persistable (VChar c) = True"
| "is_boot_persistable (VHtml h) = True"
| "is_boot_persistable (VStorePath p) = True"
| "is_boot_persistable (VExpr src) = True"
| "is_boot_persistable (VList vs) = list_all id (map is_boot_persistable vs)"
| "is_boot_persistable (VMap es) = list_all snd (map (map_prod id is_boot_persistable) es)"
| "is_boot_persistable (VSeq k vs) = list_all id (map is_boot_persistable vs)"
| "is_boot_persistable (VObject es) = list_all snd (map (map_prod id is_boot_persistable) es)"
| "is_boot_persistable (VEntriesMap es) = list_all (\<lambda>(k, v). k \<and> v) (map (map_prod is_boot_persistable is_boot_persistable) es)"
| "is_boot_persistable (VSet k vs) = list_all id (map is_boot_persistable vs)"
| "is_boot_persistable (VSymbol sy) = True"
| "is_boot_persistable (VKeyword kw) = True"
| "is_boot_persistable (VScope es) = False"
| "is_boot_persistable (VBlob v mime) = True"
| "is_boot_persistable (VBytes b) = True"
| "is_boot_persistable (VGraph r ns) = list_all id (graph_parts (map (map_GraphNode is_boot_persistable) ns))"
| "is_boot_persistable (VNative n) = native_is_boot_persistable (map_ONative is_boot_persistable n)"
| "is_boot_persistable (VNixExpr body deps fp) = list_all id (map is_boot_persistable deps)"
| "is_boot_persistable (VDerivation drv outs deps) = list_all id (map is_boot_persistable deps)"
| "is_boot_persistable (VRequest k src fp) =
     (case k of
        ReqActivate _ _ _ \<Rightarrow> False
      | ReqEval _ _ _ authority permissions \<Rightarrow> authority = None \<and> permissions = [] \<and> is_boot_persistable src
      | _ \<Rightarrow> is_boot_persistable src)"
| "is_boot_persistable (VSystem p) = False"
| "is_boot_persistable (VCapability k i m) = False"
| "is_boot_persistable (VSnapshot k i st) = list_all snd (map (map_prod id is_boot_persistable) st)"
| "is_boot_persistable (VThunk body deps fp) = list_all id (map is_boot_persistable deps)"
| "is_boot_persistable (VGroup mode vs fp) = True"
| "is_boot_persistable (VError msg) = False"

end
