(* ===== verification/Value_Canonical.thy ===== *)
theory Value_Canonical
  imports Value Catalog_Identity
begin

text \<open>
  The canonical bytes of a value (\<^verbatim>\<open>crates/ostadix-api/src/value.rs\<close>, section 2.5), from which content identities
  are hashed. Every field is tagged or carries its length, so the bytes determine the value up to what the encoder
  deliberately forgets: the iteration order of maps and scopes, the order of unordered sets, entries maps and native
  capabilities, and the base64 spelling of a blob. The base64 codec is the pair of parameters \<open>b64_encode\<close> and
  \<open>b64_decode\<close>.
\<close>

section \<open>Fields\<close>

definition canonical_u64 :: "u64 \<Rightarrow> bytes" where
  "canonical_u64 n = be_bytes 8 (unat n)"

definition canonical_i64 :: "i64 \<Rightarrow> bytes" where
  "canonical_i64 n = be_bytes 8 (unat n)"

definition canonical_field :: "bytes \<Rightarrow> bytes" where
  "canonical_field bs = canonical_u64 (of_nat (length bs)) @ bs"

definition canonical_str :: "string \<Rightarrow> bytes" where
  "canonical_str s = canonical_field (as_bytes s)"

definition canonical_tag :: "string \<Rightarrow> bytes" where
  "canonical_tag t = canonical_str t"

definition canonical_bool :: "bool \<Rightarrow> bytes" where
  "canonical_bool b = [if b then 1 else 0]"

definition canonical_bigint :: "int \<Rightarrow> bytes" where
  "canonical_bigint i = canonical_str (show_int i)"

fun canonical_opt_str :: "string option \<Rightarrow> bytes" where
  "canonical_opt_str (Some s) = canonical_tag ''some'' @ canonical_str s"
| "canonical_opt_str None = canonical_tag ''none''"

fun canonical_opt_u64 :: "u64 option \<Rightarrow> bytes" where
  "canonical_opt_u64 (Some n) = canonical_tag ''some'' @ canonical_u64 n"
| "canonical_opt_u64 None = canonical_tag ''none''"

definition canonical_count :: "'a list \<Rightarrow> bytes" where
  "canonical_count xs = canonical_u64 (of_nat (length xs))"

text \<open>A list of parts that are encoded already.\<close>

definition canonical_parts :: "bytes list \<Rightarrow> bytes" where
  "canonical_parts ps = canonical_count ps @ concat ps"

definition canonical_entries :: "(string \<times> bytes) list \<Rightarrow> bytes" where
  "canonical_entries es = canonical_parts (map (\<lambda>(k, v). canonical_str k @ v) es)"

definition sorted_entries :: "(string \<times> 'v) list \<Rightarrow> (string \<times> 'v) list" where
  "sorted_entries es = sort_key (\<lambda>e. as_bytes (fst e)) es"

section \<open>Encoders\<close>

fun encode_onumber :: "ONumber \<Rightarrow> bytes" where
  "encode_onumber (NumInt v) = canonical_tag ''number:int'' @ canonical_bigint v"
| "encode_onumber (NumRational num den) =
     canonical_tag ''number:rational'' @ canonical_bigint num @ canonical_bigint den"
| "encode_onumber (NumDecimal coeff exp10 special) =
     canonical_tag ''number:decimal'' @ canonical_bigint coeff @ canonical_i64 exp10 @
     canonical_opt_str (map_option decimal_special_name special)"
| "encode_onumber (NumBinaryFloat format bits) =
     canonical_tag ''number:binary_float'' @ canonical_tag (float_format_name format) @ canonical_field bits"
| "encode_onumber (NumBigFloat mantissa exp2 precision special) =
     canonical_tag ''number:big_float'' @ canonical_bigint mantissa @ canonical_i64 exp2 @
     canonical_opt_u64 precision @ canonical_opt_str (map_option float_special_name special)"
| "encode_onumber (NumComplex re im) =
     canonical_tag ''number:complex'' @ encode_onumber re @ encode_onumber im"

fun encode_request_kind :: "RequestKind \<Rightarrow> bytes" where
  "encode_request_kind ReqInstantiate = canonical_tag ''request_kind:instantiate''"
| "encode_request_kind ReqRealise = canonical_tag ''request_kind:realise''"
| "encode_request_kind (ReqEval lang env_id reusable authority permissions) =
     canonical_tag ''request_kind:eval'' @ canonical_str lang @ canonical_u64 (ucast env_id) @ canonical_bool reusable @
     canonical_opt_str authority @ canonical_parts (map (\<lambda>p. canonical_tag (authority_name p)) permissions)"
| "encode_request_kind (ReqActivate profile dry_run authority) =
     canonical_tag ''request_kind:activate'' @ canonical_str profile @ canonical_bool dry_run @ canonical_opt_str authority"

fun encode_graph_node :: "bytes GraphNode \<Rightarrow> bytes" where
  "encode_graph_node (GraphValue v) = canonical_tag ''graph_node:value'' @ v"
| "encode_graph_node (GraphRef t) = canonical_tag ''graph_node:ref'' @ canonical_u64 t"

fun encode_payload :: "OBytes option \<Rightarrow> bytes" where
  "encode_payload (Some p) = canonical_tag ''some'' @ canonical_opt_str (media_type p) @ canonical_field (raw_bytes p)"
| "encode_payload None = canonical_tag ''none''"

definition sorted_capabilities :: "CapabilityKind list \<Rightarrow> CapabilityKind list" where
  "sorted_capabilities = sort_key (\<lambda>k. as_bytes (capability_kind_name k))"

definition encode_native :: "bytes ONative \<Rightarrow> bytes" where
  "encode_native n =
     canonical_tag ''native'' @ canonical_str (nat_lang n) @ canonical_opt_str (nat_implementation n) @
     canonical_opt_str (nat_version n) @ canonical_str (nat_type_name n) @
     canonical_opt_str (stable (nat_identity n)) @ canonical_opt_str (live (nat_identity n)) @
     canonical_str (nat_codec n) @ encode_payload (nat_payload n) @
     canonical_tag (native_boundary_name (nat_boundary n)) @
     canonical_tag (native_codec_safety_name (nat_safety n)) @
     canonical_parts (map (\<lambda>k. canonical_tag (capability_kind_name k)) (sorted_capabilities (nat_capabilities n))) @
     canonical_entries (nat_metadata n) @ canonical_tag (rehydrate_policy_name (nat_rehydrate n))"

definition encode_blob :: "(string \<Rightarrow> bytes option) \<Rightarrow> string \<Rightarrow> bytes" where
  "encode_blob b64_decode v =
     (case b64_decode v of
        Some bs \<Rightarrow> canonical_tag ''base64:decoded'' @ canonical_field bs
      | None \<Rightarrow> canonical_tag ''base64:invalid'' @ canonical_str v)"

primrec encode_canonical :: "(string \<Rightarrow> bytes option) \<Rightarrow> OValue \<Rightarrow> bytes" where
  "encode_canonical d VNull = canonical_tag ''ovalue'' @ canonical_tag ''null''"
| "encode_canonical d (VBool v) = canonical_tag ''ovalue'' @ canonical_tag ''bool'' @ canonical_bool v"
| "encode_canonical d (VNumber v) = canonical_tag ''ovalue'' @ encode_onumber v"
| "encode_canonical d (VText v) =
     canonical_tag ''ovalue'' @ canonical_tag ''text'' @ canonical_str (utf8 v) @ canonical_opt_str (encoding v)"
| "encode_canonical d (VChar scalar) = canonical_tag ''ovalue'' @ canonical_tag ''char'' @ canonical_u64 (ucast scalar)"
| "encode_canonical d (VHtml v) = canonical_tag ''ovalue'' @ canonical_tag ''html'' @ canonical_str v"
| "encode_canonical d (VStorePath p) = canonical_tag ''ovalue'' @ canonical_tag ''store_path'' @ canonical_str p"
| "encode_canonical d (VExpr src) = canonical_tag ''ovalue'' @ canonical_tag ''expr'' @ canonical_str src"
| "encode_canonical d (VList vs) =
     canonical_tag ''ovalue'' @ canonical_tag ''list'' @ canonical_parts (map (encode_canonical d) vs)"
| "encode_canonical d (VMap es) =
     canonical_tag ''ovalue'' @ canonical_tag ''map'' @
     canonical_entries (sorted_entries (map (map_prod id (encode_canonical d)) es))"
| "encode_canonical d (VSeq kind vs) =
     canonical_tag ''ovalue'' @ canonical_tag ''seq'' @ canonical_tag (seq_kind_name kind) @
     canonical_parts (map (encode_canonical d) vs)"
| "encode_canonical d (VObject es) =
     canonical_tag ''ovalue'' @ canonical_tag ''object'' @ canonical_entries (map (map_prod id (encode_canonical d)) es)"
| "encode_canonical d (VEntriesMap es) =
     canonical_tag ''ovalue'' @ canonical_tag ''entries_map'' @
     canonical_parts (map (\<lambda>(k, v). canonical_field k @ canonical_field v)
       (sort (map (map_prod (encode_canonical d) (encode_canonical d)) es)))"
| "encode_canonical d (VSet kind vs) =
     canonical_tag ''ovalue'' @ canonical_tag ''set'' @ canonical_tag (set_kind_name kind) @
     canonical_parts (map canonical_field
       (if kind = SetUnordered then sort (map (encode_canonical d) vs) else map (encode_canonical d) vs))"
| "encode_canonical d (VSymbol sy) =
     canonical_tag ''ovalue'' @ canonical_tag ''symbol'' @ canonical_opt_str (sym_namespace sy) @ canonical_str (sym_name sy)"
| "encode_canonical d (VKeyword kw) =
     canonical_tag ''ovalue'' @ canonical_tag ''keyword'' @ canonical_opt_str (sym_namespace kw) @ canonical_str (sym_name kw)"
| "encode_canonical d (VScope es) =
     canonical_tag ''ovalue'' @ canonical_tag ''scope'' @
     canonical_entries (sorted_entries (map (map_prod id (encode_canonical d)) es))"
| "encode_canonical d (VBlob v mime) =
     canonical_tag ''ovalue'' @ canonical_tag ''blob'' @ canonical_str mime @ encode_blob d v"
| "encode_canonical d (VBytes v) =
     canonical_tag ''ovalue'' @ canonical_tag ''bytes'' @ canonical_opt_str (media_type v) @ canonical_field (raw_bytes v)"
| "encode_canonical d (VGraph root ns) =
     canonical_tag ''ovalue'' @ canonical_tag ''graph'' @ canonical_u64 root @
     canonical_parts (map encode_graph_node (map (map_GraphNode (encode_canonical d)) ns))"
| "encode_canonical d (VNative n) = canonical_tag ''ovalue'' @ encode_native (map_ONative (encode_canonical d) n)"
| "encode_canonical d (VNixExpr body deps fp) =
     canonical_tag ''ovalue'' @ canonical_tag ''nix_expr'' @ canonical_str body @
     canonical_parts (map (encode_canonical d) deps) @ canonical_str fp"
| "encode_canonical d (VDerivation drv_path outputs deps) =
     canonical_tag ''ovalue'' @ canonical_tag ''derivation'' @ canonical_str drv_path @
     canonical_parts (map canonical_str outputs) @ canonical_parts (map (encode_canonical d) deps)"
| "encode_canonical d (VRequest kind src fp) =
     canonical_tag ''ovalue'' @ canonical_tag ''request'' @ encode_request_kind kind @ encode_canonical d src @
     canonical_str fp"
| "encode_canonical d (VSystem p) = canonical_tag ''ovalue'' @ canonical_tag ''system'' @ canonical_str p"
| "encode_canonical d (VCapability kind i m) =
     canonical_tag ''ovalue'' @ canonical_tag ''capability'' @ canonical_tag (capability_kind_name kind) @ canonical_str i @
     canonical_entries (sorted_entries (map (map_prod id (encode_canonical d)) m))"
| "encode_canonical d (VSnapshot kind i st) =
     canonical_tag ''ovalue'' @ canonical_tag ''snapshot'' @ canonical_tag (snapshot_kind_name kind) @ canonical_str i @
     canonical_entries (sorted_entries (map (map_prod id (encode_canonical d)) st))"
| "encode_canonical d (VThunk body deps fp) =
     canonical_tag ''ovalue'' @ canonical_tag ''thunk'' @ canonical_str body @
     canonical_parts (map (encode_canonical d) deps) @ canonical_str fp"
| "encode_canonical d (VGroup mode vs fp) =
     canonical_tag ''ovalue'' @ canonical_tag ''group'' @ canonical_tag (group_mode_name mode) @
     canonical_parts (map (encode_canonical d) vs) @ canonical_str fp"
| "encode_canonical d (VError msg) = canonical_tag ''ovalue'' @ canonical_tag ''error'' @ canonical_str msg"

end
