(* ===== verification/Value_Injective.thy ===== *)
theory Value_Injective
  imports Value_Canonical
begin

text \<open>
  What the canonical bytes of a value determine: two values have the same canonical bytes exactly when they have the
  same normal form, in which maps, unordered collections and blobs are written in one way.
\<close>

section \<open>Reading fields back\<close>

text \<open>Everything that is encoded fits the address space, so a 64-bit length never wraps.\<close>

definition fits :: "bytes \<Rightarrow> bool" where
  "fits bs \<longleftrightarrow> length bs < 2 ^ 64"

lemma fits_append: "fits (a @ b) \<Longrightarrow> fits a \<and> fits b"
  by (simp add: fits_def)

lemma fits_append3: "fits (a @ b @ c) \<Longrightarrow> fits a \<and> fits b \<and> fits c"
  by (simp add: fits_def)

lemma fits_append4: "fits (a @ b @ c @ d) \<Longrightarrow> fits a \<and> fits b \<and> fits c \<and> fits d"
  by (simp add: fits_def)

lemma fits_append5: "fits (a @ b @ c @ d @ e) \<Longrightarrow> fits a \<and> fits b \<and> fits c \<and> fits d \<and> fits e"
  by (simp add: fits_def)

lemma fits_append6: "fits (a @ b @ c @ d @ e @ f) \<Longrightarrow> fits a \<and> fits b \<and> fits c \<and> fits d \<and> fits e \<and> fits f"
  by (simp add: fits_def)

text \<open>\<open>f\<close> can be read back from the front of a byte string, up to what \<open>g\<close> forgets.\<close>

definition reads :: "('a \<Rightarrow> bytes) \<Rightarrow> ('a \<Rightarrow> 'b) \<Rightarrow> 'a \<Rightarrow> bool" where
  "reads f g x \<longleftrightarrow> (\<forall>y s t. fits (f x) \<longrightarrow> fits (f y) \<longrightarrow> f x @ s = f y @ t \<longrightarrow> g x = g y \<and> s = t)"

lemma readsI:
  "(\<And>y s t. fits (f x) \<Longrightarrow> fits (f y) \<Longrightarrow> f x @ s = f y @ t \<Longrightarrow> g x = g y \<and> s = t) \<Longrightarrow> reads f g x"
  unfolding reads_def by blast

lemma readsD: "reads f g x \<Longrightarrow> f x @ s = f y @ t \<Longrightarrow> fits (f x) \<Longrightarrow> fits (f y) \<Longrightarrow> g x = g y \<and> s = t"
  unfolding reads_def by blast

lemma reads_map:
  assumes "reads f g (h x)" "\<And>y. g (h x) = g (h y) \<Longrightarrow> k x = k y"
  shows "reads (\<lambda>x. f (h x)) k x"
  using assms unfolding reads_def by blast

lemma of_nat_u64_inject:
  assumes "(of_nat m :: u64) = of_nat n" "m < 2 ^ 64" "n < 2 ^ 64"
  shows "m = n"
  using arg_cong [OF assms(1), of unat] assms(2,3) by (simp add: unsigned_of_nat take_bit_eq_mod)

lemma reads_u64: "reads canonical_u64 id n"
proof (rule readsI)
  fix y s t assume "canonical_u64 n @ s = canonical_u64 y @ t"
  then have eq: "be_bytes 8 (unat n) = be_bytes 8 (unat y)" "s = t"
    by (simp_all add: canonical_u64_def append_eq_append_conv)
  have "unat m < 256 ^ 8" for m :: u64 using unsigned_less [of m] by simp
  then have "unat n = unat y" using eq(1) be_bytes_inject by blast
  then have "n = y" by (rule unsigned_word_eqI)
  then show "id n = id y \<and> s = t" using eq(2) by simp
qed

lemma reads_i64: "reads canonical_i64 id n"
  using reads_u64 [of n] unfolding canonical_u64_def [abs_def] canonical_i64_def [abs_def] .

lemma reads_field: "reads canonical_field id bs"
proof (rule readsI)
  fix y s t
  assume fit: "fits (canonical_field bs)" "fits (canonical_field y)" and eq: "canonical_field bs @ s = canonical_field y @ t"
  have "fits (canonical_u64 n)" for n by (simp add: fits_def canonical_u64_def)
  then have "(of_nat (length bs) :: u64) = of_nat (length y)" and rest: "bs @ s = y @ t"
    using readsD [OF reads_u64] eq unfolding canonical_field_def by (metis append_assoc id_apply)+
  moreover have "length bs < 2 ^ 64" "length y < 2 ^ 64" using fit by (simp_all add: canonical_field_def fits_def)
  ultimately have "length bs = length y" by (intro of_nat_u64_inject)
  then show "id bs = id y \<and> s = t" using rest by simp
qed

lemma reads_str: "reads canonical_str id s"
  unfolding canonical_str_def [abs_def] by (rule reads_map [OF reads_field]) simp

lemma reads_tag: "reads canonical_tag id s"
  using reads_str unfolding canonical_tag_def [abs_def] .

lemma reads_bigint: "reads canonical_bigint id i"
  unfolding canonical_bigint_def [abs_def] by (rule reads_map [OF reads_str]) (simp add: show_int_inject)

lemma reads_bool: "reads canonical_bool id b"
  by (rule readsI) (simp add: canonical_bool_def split: if_splits)

named_theorems field_eqs \<open>equations between fields read from the front\<close>

lemma field_eq:
  assumes "\<And>x. reads f id x" "fits (f x)" "fits (f y)"
  shows "f x @ s = f y @ t \<longleftrightarrow> x = y \<and> s = t"
proof
  assume "f x @ s = f y @ t"
  from readsD [OF assms(1) this assms(2,3)] show "x = y \<and> s = t" by simp
qed simp

lemma fits_basic [simp]: "fits (canonical_u64 n)" "fits (canonical_i64 n)" "fits (canonical_bool b)"
  by (simp_all add: fits_def canonical_u64_def canonical_i64_def canonical_bool_def)

lemmas field_eqs_basic [field_eqs] =
  field_eq [OF reads_u64] field_eq [OF reads_i64] field_eq [OF reads_field] field_eq [OF reads_str]
  field_eq [OF reads_tag] field_eq [OF reads_bigint] field_eq [OF reads_bool]

lemma reads_opt_str: "reads canonical_opt_str id x"
proof (rule readsI)
  fix y s t assume "fits (canonical_opt_str x)" "fits (canonical_opt_str y)" "canonical_opt_str x @ s = canonical_opt_str y @ t"
  then show "id x = id y \<and> s = t"
    by (cases x; cases y) (auto simp: field_eqs dest!: fits_append)
qed

lemma reads_opt_u64: "reads canonical_opt_u64 id x"
proof (rule readsI)
  fix y s t assume "fits (canonical_opt_u64 x)" "fits (canonical_opt_u64 y)" "canonical_opt_u64 x @ s = canonical_opt_u64 y @ t"
  then show "id x = id y \<and> s = t"
    by (cases x; cases y) (auto simp: field_eqs dest!: fits_append)
qed

lemmas field_eqs_option [field_eqs] = field_eq [OF reads_opt_str] field_eq [OF reads_opt_u64]

lemma fits_literals [simp]: "length t < 2 ^ 63 \<Longrightarrow> fits (canonical_tag t)"
  by (simp add: fits_def canonical_tag_def canonical_str_def canonical_field_def canonical_u64_def)

text \<open>Names of enumerations are short and tell the members apart.\<close>

lemma decimal_special_name_inject [simp]: "decimal_special_name a = decimal_special_name b \<longleftrightarrow> a = b"
  by (cases a; cases b) simp_all

lemma float_format_name_inject [simp]: "float_format_name a = float_format_name b \<longleftrightarrow> a = b"
  by (cases a; cases b) simp_all

lemma float_special_name_inject [simp]: "float_special_name a = float_special_name b \<longleftrightarrow> a = b"
  by (cases a; cases b) simp_all

lemma seq_kind_name_inject [simp]: "seq_kind_name a = seq_kind_name b \<longleftrightarrow> a = b"
  by (cases a; cases b) simp_all

lemma set_kind_name_inject [simp]: "set_kind_name a = set_kind_name b \<longleftrightarrow> a = b"
  by (cases a; cases b) simp_all

lemma snapshot_kind_name_inject [simp]: "snapshot_kind_name a = snapshot_kind_name b \<longleftrightarrow> a = b"
  by (cases a; cases b) simp_all

lemma group_mode_name_inject [simp]: "group_mode_name a = group_mode_name b \<longleftrightarrow> a = b"
  by (cases a; cases b) simp_all

lemma rehydrate_policy_name_inject [simp]: "rehydrate_policy_name a = rehydrate_policy_name b \<longleftrightarrow> a = b"
  by (cases a; cases b) simp_all

lemma native_boundary_name_inject [simp]: "native_boundary_name a = native_boundary_name b \<longleftrightarrow> a = b"
  by (cases a; cases b) simp_all

lemma native_codec_safety_name_inject [simp]: "native_codec_safety_name a = native_codec_safety_name b \<longleftrightarrow> a = b"
  by (cases a; cases b) simp_all

lemma capability_kind_name_inject [simp]: "capability_kind_name a = capability_kind_name b \<longleftrightarrow> a = b"
  by (cases a; cases b) simp_all

lemma fits_float_format_name [simp]: "fits (canonical_tag (float_format_name a))"
  by (cases a) simp_all

lemma fits_seq_kind_name [simp]: "fits (canonical_tag (seq_kind_name a))"
  by (cases a) simp_all


lemma fits_snapshot_kind_name [simp]: "fits (canonical_tag (snapshot_kind_name a))"
  by (cases a) simp_all

lemma fits_group_mode_name [simp]: "fits (canonical_tag (group_mode_name a))"
  by (cases a) simp_all

lemma fits_rehydrate_policy_name [simp]: "fits (canonical_tag (rehydrate_policy_name a))"
  by (cases a) simp_all

lemma fits_native_boundary_name [simp]: "fits (canonical_tag (native_boundary_name a))"
  by (cases a) simp_all

lemma fits_native_codec_safety_name [simp]: "fits (canonical_tag (native_codec_safety_name a))"
  by (cases a) simp_all

lemma fits_capability_kind_name [simp]: "fits (canonical_tag (capability_kind_name a))"
  by (cases a) simp_all

lemma fits_authority_name [simp]: "fits (canonical_tag (authority_name a))"
  by (cases a) simp_all

lemma map_option_inject: "(\<And>a b. f a = f b \<Longrightarrow> a = b) \<Longrightarrow> map_option f x = map_option f y \<Longrightarrow> x = y"
  by (cases x; cases y) simp_all

lemma special_inject [simp]:
  "map_option decimal_special_name a = map_option decimal_special_name b \<longleftrightarrow> a = b"
  "map_option float_special_name c = map_option float_special_name d \<longleftrightarrow> c = d"
  using map_option_inject [of decimal_special_name a b] map_option_inject [of float_special_name c d] by auto

section \<open>Lists of parts\<close>

lemma reads_concat:
  assumes "concat (map f xs) @ s = concat (map f ys) @ t" "length xs = length ys" "\<forall>x \<in> set xs. reads f g x"
    "\<forall>x \<in> set xs. fits (f x)" "\<forall>y \<in> set ys. fits (f y)"
  shows "map g xs = map g ys \<and> s = t"
  using assms(2,1,3-5)
proof (induction xs ys rule: list_induct2)
  case (Cons x xs y ys)
  then have "g x = g y \<and> concat (map f xs) @ s = concat (map f ys) @ t"
    using readsD [of f g x "concat (map f xs) @ s" y "concat (map f ys) @ t"] by simp
  then show ?case using Cons by simp
qed simp

lemma length_concat_ge: "\<forall>p \<in> set ps. p \<noteq> [] \<Longrightarrow> length ps \<le> length (concat ps)"
proof (induction ps)
  case (Cons p ps)
  then show ?case by (cases p) simp_all
qed simp

lemma fits_parts:
  assumes "fits (canonical_parts ps)"
  shows "p \<in> set ps \<Longrightarrow> fits p" "\<forall>p \<in> set ps. p \<noteq> [] \<Longrightarrow> length ps < 2 ^ 64"
proof -
  have len: "length (concat ps) < 2 ^ 64" using assms by (simp add: canonical_parts_def fits_def)
  show "fits p" if p: "p \<in> set ps"
  proof -
    obtain as bs where "ps = as @ p # bs" using split_list [OF p] by blast
    then show ?thesis using len by (simp add: fits_def)
  qed
  show "length ps < 2 ^ 64" if "\<forall>p \<in> set ps. p \<noteq> []" using length_concat_ge [OF that] len by linarith
qed

lemma reads_parts:
  assumes "canonical_parts (map f xs) @ s = canonical_parts (map f ys) @ t" "\<forall>x \<in> set xs. reads f g x" "\<And>x. f x \<noteq> []"
    "fits (canonical_parts (map f xs))" "fits (canonical_parts (map f ys))"
  shows "map g xs = map g ys \<and> s = t"
proof -
  have "(of_nat (length xs) :: u64) = of_nat (length ys)"
    and rest: "concat (map f xs) @ s = concat (map f ys) @ t"
    using assms(1) by (simp_all add: canonical_parts_def canonical_count_def field_eqs)
  moreover have "length xs < 2 ^ 64" "length ys < 2 ^ 64"
    using fits_parts(2) [OF assms(4)] fits_parts(2) [OF assms(5)] assms(3) by simp_all
  ultimately have "length xs = length ys" by (intro of_nat_u64_inject)
  then show ?thesis
    using reads_concat [OF rest] assms(2) fits_parts(1) [OF assms(4)] fits_parts(1) [OF assms(5)] by simp
qed

lemma parts_eq:
  assumes "\<And>x. reads f id x" "\<And>x. f x \<noteq> []" "fits (canonical_parts (map f xs))" "fits (canonical_parts (map f ys))"
  shows "canonical_parts (map f xs) @ s = canonical_parts (map f ys) @ t \<longleftrightarrow> xs = ys \<and> s = t"
proof
  assume "canonical_parts (map f xs) @ s = canonical_parts (map f ys) @ t"
  from reads_parts [OF this _ assms(2-4), of id] assms(1) show "xs = ys \<and> s = t" by simp
qed simp

lemma nonempty_fields [simp]: "canonical_u64 n \<noteq> []" "canonical_field bs \<noteq> []" "canonical_str s \<noteq> []" "canonical_tag t \<noteq> []"
proof -
  have "length (canonical_u64 n) = 8" for n by (simp add: canonical_u64_def)
  then have "canonical_u64 n \<noteq> []" for n by (metis list.size(3) zero_neq_numeral)
  then show "canonical_u64 n \<noteq> []" "canonical_field bs \<noteq> []" "canonical_str s \<noteq> []" "canonical_tag t \<noteq> []"
    by (simp_all add: canonical_field_def canonical_str_def canonical_tag_def)
qed

lemma reads_authority: "reads (\<lambda>p. canonical_tag (authority_name p)) id p"
  by (rule reads_map [OF reads_tag]) simp

lemma reads_capability: "reads (\<lambda>k. canonical_tag (capability_kind_name k)) id k"
  by (rule reads_map [OF reads_tag]) simp

lemmas field_eqs_parts [field_eqs] =
  parts_eq [OF reads_str nonempty_fields(3)] parts_eq [OF reads_authority nonempty_fields(4)]
  parts_eq [OF reads_capability nonempty_fields(4)]

fun number_tag :: "ONumber \<Rightarrow> string" where
  "number_tag (NumInt v) = ''number:int''"
| "number_tag (NumRational num den) = ''number:rational''"
| "number_tag (NumDecimal coeff exp10 special) = ''number:decimal''"
| "number_tag (NumBinaryFloat format bits) = ''number:binary_float''"
| "number_tag (NumBigFloat mantissa exp2 precision special) = ''number:big_float''"
| "number_tag (NumComplex re im) = ''number:complex''"

fun number_body :: "ONumber \<Rightarrow> bytes" where
  "number_body (NumInt v) = canonical_bigint v"
| "number_body (NumRational num den) = canonical_bigint num @ canonical_bigint den"
| "number_body (NumDecimal coeff exp10 special) =
     canonical_bigint coeff @ canonical_i64 exp10 @ canonical_opt_str (map_option decimal_special_name special)"
| "number_body (NumBinaryFloat format bits) = canonical_tag (float_format_name format) @ canonical_field bits"
| "number_body (NumBigFloat mantissa exp2 precision special) =
     canonical_bigint mantissa @ canonical_i64 exp2 @ canonical_opt_u64 precision @
     canonical_opt_str (map_option float_special_name special)"
| "number_body (NumComplex re im) = encode_onumber re @ encode_onumber im"

lemma encode_onumber_tagged: "encode_onumber n = canonical_tag (number_tag n) @ number_body n"
  by (cases n) simp_all

lemma fits_number_tag [simp]: "fits (canonical_tag (number_tag n))"
  by (cases n) simp_all

lemma reads_number_body:
  assumes "number_body n @ s = number_body m @ t" "number_tag n = number_tag m" "fits (number_body n)" "fits (number_body m)"
    and "\<And>re im x. n = NumComplex re im \<Longrightarrow> x \<in> {re, im} \<Longrightarrow> reads encode_onumber id x"
  shows "n = m \<and> s = t"
proof (cases n)
  case (NumComplex re im)
  then obtain re' im' where m: "m = NumComplex re' im'" using assms(2) by (cases m) simp_all
  have fit: "fits (encode_onumber re)" "fits (encode_onumber im)" "fits (encode_onumber re')" "fits (encode_onumber im')"
    using assms(3,4) by (auto simp: NumComplex m dest: fits_append)
  have "re = re' \<and> encode_onumber im @ s = encode_onumber im' @ t"
    using readsD [OF assms(5) [OF NumComplex, of re] _ fit(1,3)] assms(1) by (simp add: NumComplex m)
  moreover from this have "im = im' \<and> s = t" using readsD [OF assms(5) [OF NumComplex, of im] _ fit(2,4), of s t] by simp
  ultimately show ?thesis by (simp add: NumComplex m)
next
  case (NumInt v)
  then obtain v' where m: "m = NumInt v'" using assms(2) by (cases m) simp_all
  show ?thesis using assms(1,3,4) by (simp add: NumInt m field_eqs)
next
  case (NumRational v w)
  then obtain v' w' where m: "m = NumRational v' w'" using assms(2) by (cases m) simp_all
  show ?thesis using assms(1) assms(3,4) [unfolded NumRational m number_body.simps, THEN fits_append]
    by (simp add: NumRational m field_eqs)
next
  case (NumDecimal v e sp)
  then obtain v' e' sp' where m: "m = NumDecimal v' e' sp'" using assms(2) by (cases m) simp_all
  show ?thesis using assms(1) assms(3,4) [unfolded NumDecimal m number_body.simps, THEN fits_append3]
    by (simp add: NumDecimal m field_eqs)
next
  case (NumBinaryFloat v w)
  then obtain v' w' where m: "m = NumBinaryFloat v' w'" using assms(2) by (cases m) simp_all
  show ?thesis using assms(1) assms(3,4) [unfolded NumBinaryFloat m number_body.simps, THEN fits_append]
    by (simp add: NumBinaryFloat m field_eqs)
next
  case (NumBigFloat v e pr sp)
  then obtain v' e' pr' sp' where m: "m = NumBigFloat v' e' pr' sp'" using assms(2) by (cases m) simp_all
  show ?thesis using assms(1) assms(3,4) [unfolded NumBigFloat m number_body.simps, THEN fits_append4]
    by (simp add: NumBigFloat m field_eqs)
qed

lemma reads_onumber: "reads encode_onumber id n"
proof (induction n rule: measure_induct_rule [of size])
  case (less n)
  show ?case
  proof (rule readsI)
    fix m s t assume fit: "fits (encode_onumber n)" "fits (encode_onumber m)" and eq: "encode_onumber n @ s = encode_onumber m @ t"
    have "number_tag n = number_tag m" "number_body n @ s = number_body m @ t"
      using eq by (simp_all add: encode_onumber_tagged field_eqs)
    moreover have "fits (number_body n)" "fits (number_body m)"
      using fit by (auto simp: encode_onumber_tagged dest: fits_append)
    moreover have "reads encode_onumber id x" if "n = NumComplex re im" "x \<in> {re, im}" for re im x
      using that by (intro less.IH) auto
    ultimately show "id n = id m \<and> s = t" using reads_number_body [of n s m t] unfolding id_apply by blast
  qed
qed

lemma ucast_u32_inject: "(ucast (a :: u32) :: u64) = ucast b \<longleftrightarrow> a = b"
proof
  assume "(ucast a :: u64) = ucast b"
  then have "unat (ucast a :: u64) = unat (ucast b :: u64)" by simp
  moreover have "take_bit 64 (unat x) = unat x" for x :: u32
  proof -
    have "unat x < 2 ^ 32" using unsigned_less [of x] by simp
    then show ?thesis by (intro take_bit_nat_eq_self) simp
  qed
  ultimately have "unat a = unat b" by (simp add: unsigned_ucast_eq)
  then show "a = b" by (rule unsigned_word_eqI)
qed simp

fun request_tag :: "RequestKind \<Rightarrow> string" where
  "request_tag ReqInstantiate = ''request_kind:instantiate''"
| "request_tag ReqRealise = ''request_kind:realise''"
| "request_tag (ReqEval lang env_id reusable authority permissions) = ''request_kind:eval''"
| "request_tag (ReqActivate profile dry_run authority) = ''request_kind:activate''"

lemma request_tag_eq:
  assumes "encode_request_kind k @ s = encode_request_kind m @ t"
  shows "request_tag k = request_tag m"
proof -
  have "\<exists>r. encode_request_kind x = canonical_tag (request_tag x) @ r" for x by (cases x) auto
  then obtain r r' where "canonical_tag (request_tag k) @ r @ s = canonical_tag (request_tag m) @ r' @ t"
    using assms by (metis append_assoc)
  moreover have "fits (canonical_tag (request_tag x))" for x by (cases x) simp_all
  ultimately show ?thesis by (simp add: field_eqs)
qed

lemma reads_request_kind: "reads encode_request_kind id k"
proof (rule readsI)
  fix m s t
  assume fit: "fits (encode_request_kind k)" "fits (encode_request_kind m)" and eq: "encode_request_kind k @ s = encode_request_kind m @ t"
  note tag = request_tag_eq [OF eq]
  show "id k = id m \<and> s = t"
  proof (cases k)
    case (ReqEval a b c d e)
    then obtain a' b' c' d' e' where m: "m = ReqEval a' b' c' d' e'" using tag by (cases m) simp_all
    show ?thesis using eq fit [unfolded ReqEval m encode_request_kind.simps, THEN fits_append6]
      by (simp add: ReqEval m field_eqs ucast_u32_inject)
  next
    case (ReqActivate a b c)
    then obtain a' b' c' where m: "m = ReqActivate a' b' c'" using tag by (cases m) simp_all
    show ?thesis using eq fit [unfolded ReqActivate m encode_request_kind.simps, THEN fits_append4]
      by (simp add: ReqActivate m field_eqs)
  qed (use tag eq in \<open>cases m; simp add: field_eqs\<close>)+
qed

lemma reads_payload: "reads encode_payload id x"
proof (rule readsI)
  fix y s t assume fit: "fits (encode_payload x)" "fits (encode_payload y)" and eq: "encode_payload x @ s = encode_payload y @ t"
  show "id x = id y \<and> s = t"
  proof (cases x; cases y)
    fix a b assume x: "x = Some a" and y: "y = Some b"
    show ?thesis using eq fit [unfolded x y encode_payload.simps, THEN fits_append3] by (simp add: x y field_eqs)
  qed (use eq in \<open>simp_all add: field_eqs\<close>)
qed

lemmas field_eqs_compound [field_eqs] =
  field_eq [OF reads_onumber] field_eq [OF reads_request_kind] field_eq [OF reads_payload]

section \<open>Normal forms\<close>



lemma sort_key_sort_key [simp]: "sort_key f (sort_key f xs) = sort_key f xs"
  by (simp add: sort_key_id_if_sorted)














section \<open>Reading values back\<close>

text \<open>The tag behind the leading \<open>ovalue\<close>, which names the constructor, and what follows it.\<close>

fun value_tag :: "OValue \<Rightarrow> string" where
  "value_tag (VNumber n) = number_tag n"
| "value_tag v = type_name v"

definition value_body :: "(string \<Rightarrow> bytes option) \<Rightarrow> OValue \<Rightarrow> bytes" where
  "value_body d v = drop (length (canonical_tag ''ovalue'' @ canonical_tag (value_tag v))) (encode_canonical d v)"

lemma encode_split: "encode_canonical d v = canonical_tag ''ovalue'' @ canonical_tag (value_tag v) @ value_body d v"
  by (cases v) (simp_all add: value_body_def encode_onumber_tagged encode_native_def)

lemma fits_value_tag [simp]: "fits (canonical_tag (value_tag v))"
  by (cases v) simp_all






lemma reads_same: "f x = f y \<Longrightarrow> reads f g x \<Longrightarrow> fits (f x) \<Longrightarrow> g x = g y"
  using readsD [of f g x "[]" y "[]"] by simp

lemma reads_map_same:
  assumes "map f xs = map f ys" "\<forall>x \<in> set xs. reads f g x" "\<forall>x \<in> set xs. fits (f x)"
  shows "map g xs = map g ys"
proof -
  have "length xs = length ys" using arg_cong [OF assms(1), of length] by simp
  then show ?thesis using assms
    by (induction xs ys rule: list_induct2) (auto intro: reads_same)
qed

section \<open>One constructor at a time\<close>





lemma encode_nonempty [simp]: "encode_canonical d v \<noteq> []"
  unfolding encode_split by simp


lemma set_sorted_entries [simp]: "set (sorted_entries es) = set es"
  by (simp add: sorted_entries_def)





















section \<open>All constructors\<close>






















end
