(* ===== verification/Value_Safety.thy ===== *)
theory Value_Safety
  imports Value
begin

text \<open>
  What the cache, replay and persistence checks of values decide (\<^verbatim>\<open>crates/ostadix-api/src/value.rs\<close>): a value
  passes exactly when no value that is unsafe by itself can be reached from it. The members of groups are not
  looked at.
\<close>

section \<open>The values inside a value\<close>

fun inner :: "OValue \<Rightarrow> OValue list" where
  "inner (VList vs) = vs"
| "inner (VMap es) = map snd es"
| "inner (VSeq k vs) = vs"
| "inner (VObject es) = map snd es"
| "inner (VEntriesMap es) = entry_parts es"
| "inner (VSet k vs) = vs"
| "inner (VGraph r ns) = graph_parts ns"
| "inner (VNative n) = map snd (nat_metadata n)"
| "inner (VNixExpr body deps fp) = deps"
| "inner (VDerivation drv outs deps) = deps"
| "inner (VRequest k src fp) = [src]"
| "inner (VSnapshot k i st) = map snd st"
| "inner (VThunk body deps fp) = deps"
| "inner v = []"

inductive reaches :: "OValue \<Rightarrow> OValue \<Rightarrow> bool" where
  reaches_self: "reaches v v"
| reaches_inner: "w \<in> set (inner v) \<Longrightarrow> reaches w u \<Longrightarrow> reaches v u"

lemma set_graph_parts: "set (graph_parts ns) = (\<Union>n \<in> set ns. set_GraphNode n)"
  by (induction ns rule: graph_parts.induct) auto

lemma set_entry_parts: "set (entry_parts es) = fst ` set es \<union> snd ` set es"
  by (auto simp: entry_parts_def case_prod_beta)

lemma in_values:
  assumes "w \<in> set (map snd es)"
  obtains p where "p \<in> set es" "w \<in> Basic_BNFs.snds p"
  using assms by (auto simp: snds.simps)

lemma in_entries:
  assumes "w \<in> set (entry_parts es)"
  obtains p where "p \<in> set es" "w \<in> Basic_BNFs.fsts p \<or> w \<in> Basic_BNFs.snds p"
  using assms by (auto simp: set_entry_parts fsts.simps snds.simps)

lemma inner_induct:
  assumes step: "\<And>v. (\<And>w. w \<in> set (inner v) \<Longrightarrow> P w) \<Longrightarrow> P v"
  shows "P v"
proof (induction v)
  case (VMap es)
  show ?case by (rule step, unfold inner.simps, erule in_values) (rule VMap)
next
  case (VObject es)
  show ?case by (rule step, unfold inner.simps, erule in_values) (rule VObject)
next
  case (VSnapshot k i es)
  show ?case by (rule step, unfold inner.simps, erule in_values) (rule VSnapshot)
next
  case (VEntriesMap es)
  show ?case by (rule step, unfold inner.simps, erule in_entries) (blast intro: VEntriesMap)
next
  case (VGraph r ns)
  show ?case by (rule step, unfold inner.simps set_graph_parts) (blast intro: VGraph)
next
  case (VNative n)
  show ?case
  proof (rule step)
    fix w assume "w \<in> set (inner (VNative n))"
    then obtain p where "p \<in> set (nat_metadata n)" "w \<in> Basic_BNFs.snds p" unfolding inner.simps by (rule in_values)
    then show "P w" by (intro VNative) (rule ONative.set_sel)
  qed
qed (rule step, simp only: inner.simps list.set empty_iff insert_iff simp_thms)+

text \<open>
  The contract that the checks share: a value passes when it is not bad by itself and everything inside it passes. Then
  it passes exactly when nothing bad can be reached.
\<close>

locale value_check =
  fixes check :: "OValue \<Rightarrow> bool" and bad :: "OValue \<Rightarrow> bool"
  assumes check_step: "check v \<longleftrightarrow> \<not> bad v \<and> list_all check (inner v)"
begin

lemma check_reaches: "check v \<longleftrightarrow> (\<forall>w. reaches v w \<longrightarrow> \<not> bad w)"
proof (induction v rule: inner_induct)
  case (1 v)
  have "(\<forall>w. reaches v w \<longrightarrow> \<not> bad w) \<longleftrightarrow> \<not> bad v \<and> (\<forall>w \<in> set (inner v). \<forall>u. reaches w u \<longrightarrow> \<not> bad u)"
    by (auto intro: reaches.intros elim: reaches.cases)
  then show ?case using 1 check_step [of v] by (simp add: list_all_iff)
qed

end

section \<open>Values that are unsafe by themselves\<close>

definition opaque_native :: "'v ONative \<Rightarrow> bool" where
  "opaque_native n \<longleftrightarrow> nat_safety n \<in> {UnsafeOpaque, LiveHandle} \<or> nat_boundary n \<noteq> NativePure \<or>
     live (nat_identity n) \<noteq> None \<or> nat_capabilities n \<noteq> []"

fun live_value :: "OValue \<Rightarrow> bool" where
  "live_value (VSystem p) = True"
| "live_value (VCapability k i m) = True"
| "live_value (VScope es) = True"
| "live_value (VError msg) = True"
| "live_value (VRequest (ReqActivate profile dry_run authority) src fp) = True"
| "live_value (VRequest (ReqEval lang env_id reusable authority permissions) src fp) = (authority \<noteq> None \<or> permissions \<noteq> [])"
| "live_value (VNative n) = opaque_native n"
| "live_value v = False"

fun fresh_request :: "OValue \<Rightarrow> bool" where
  "fresh_request (VRequest (ReqEval lang env_id reusable authority permissions) src fp) = (\<not> reusable)"
| "fresh_request v = False"

fun bound_native :: "OValue \<Rightarrow> bool" where
  "bound_native (VNative n) = (nat_rehydrate n \<noteq> Portable)"
| "bound_native v = False"

lemma safety_cases: "s \<in> {DataOnly, SourceBacked} \<longleftrightarrow> s \<notin> {UnsafeOpaque, LiveHandle}"
  by (cases s) simp_all

lemma list_all_graph: "list_all f (graph_parts (map (map_GraphNode g) ns)) = list_all (\<lambda>x. f (g x)) (graph_parts ns)"
  by (induction ns rule: graph_parts.induct) simp_all

lemma list_all_entries: "list_all (\<lambda>(k, v). k \<and> v) (map (map_prod f f) es) = list_all f (entry_parts es)"
  by (induction es) (auto simp: entry_parts_def)

lemma list_all_values: "list_all snd (map (map_prod id f) es) = list_all f (map snd es)"
  by (induction es) auto

lemma list_all_items: "list_all id (map f vs) = list_all f vs"
  by (induction vs) auto

lemma list_all_nodes: "list_all id (graph_parts (map (map_GraphNode g) ns)) = list_all g (graph_parts ns)"
  by (simp add: list_all_graph)

lemmas check_simps = list_all_values list_all_items list_all_nodes list_all_entries

lemma cache_step: "is_cache_safe v \<longleftrightarrow> \<not> (live_value v \<or> fresh_request v) \<and> list_all is_cache_safe (inner v)"
proof (cases v)
  case (VNative n)
  show ?thesis unfolding VNative is_cache_safe.simps native_is_cache_safe_def ONative.map_sel safety_cases check_simps
    by (auto simp: opaque_native_def)
next
  case (VRequest k src fp)
  show ?thesis by (cases k) (auto simp: VRequest)
qed (simp_all only: is_cache_safe.simps live_value.simps fresh_request.simps inner.simps check_simps list.pred_inject(1) simp_thms)

lemma replay_step: "is_replay_safe v \<longleftrightarrow> \<not> live_value v \<and> list_all is_replay_safe (inner v)"
proof (cases v)
  case (VNative n)
  show ?thesis unfolding VNative is_replay_safe.simps native_is_replay_safe_def ONative.map_sel safety_cases check_simps
    by (auto simp: opaque_native_def)
next
  case (VRequest k src fp)
  show ?thesis by (cases k) (auto simp: VRequest)
qed (simp_all only: is_replay_safe.simps live_value.simps inner.simps check_simps list.pred_inject(1) simp_thms)

lemma persist_step:
  "is_boot_persistable v \<longleftrightarrow> \<not> (live_value v \<or> bound_native v) \<and> list_all is_boot_persistable (inner v)"
proof (cases v)
  case (VNative n)
  show ?thesis unfolding VNative is_boot_persistable.simps native_is_boot_persistable_def ONative.map_sel safety_cases check_simps
    by (auto simp: opaque_native_def)
next
  case (VRequest k src fp)
  show ?thesis by (cases k) (auto simp: VRequest)
qed (simp_all only: is_boot_persistable.simps live_value.simps bound_native.simps inner.simps check_simps list.pred_inject(1) simp_thms)

interpretation replay_check: value_check is_replay_safe live_value
  by unfold_locales (rule replay_step)

interpretation cache_check: value_check is_cache_safe "\<lambda>v. live_value v \<or> fresh_request v"
  by unfold_locales (rule cache_step)

interpretation persist_check: value_check is_boot_persistable "\<lambda>v. live_value v \<or> bound_native v"
  by unfold_locales (rule persist_step)

section \<open>Properties\<close>

text \<open>C18: The safety checks of values are exact: a value may be replayed exactly when nothing that it contains is live (a
  system, a capability, a scope, an error, an activation, an evaluation with authority, or an opaque native value); it
  may be cached exactly when moreover it contains no evaluation marked as not reusable, and persisted across boots
  exactly when moreover its native values are portable. Members of groups do not count as contained.\<close>

theorem value_checks_exact:
  "(is_replay_safe v \<longleftrightarrow> (\<forall>w. reaches v w \<longrightarrow> \<not> live_value w)) \<and>
   (is_cache_safe v \<longleftrightarrow> (\<forall>w. reaches v w \<longrightarrow> \<not> live_value w \<and> \<not> fresh_request w)) \<and>
   (is_boot_persistable v \<longleftrightarrow> (\<forall>w. reaches v w \<longrightarrow> \<not> live_value w \<and> \<not> bound_native w))"
  using replay_check.check_reaches [of v] cache_check.check_reaches [of v] persist_check.check_reaches [of v] by simp

theorem value_checks_exact_witness:
  "\<not> is_boot_persistable (VList [VNull, VSnapshot SnapSystem ''s'' [(''k'', VCapability CapFile ''c'' [])]])"
proof -
  let ?v = "VList [VNull, VSnapshot SnapSystem ''s'' [(''k'', VCapability CapFile ''c'' [])]]"
  have "reaches ?v (VCapability CapFile ''c'' [])"
    by (rule reaches_inner [of "VSnapshot SnapSystem ''s'' [(''k'', VCapability CapFile ''c'' [])]"], simp,
        rule reaches_inner [of "VCapability CapFile ''c'' []"], simp, rule reaches_self)
  then show ?thesis using value_checks_exact [of ?v] by auto
qed

text \<open>A group passes every check whatever it holds, although it crosses the boundary as an effect.\<close>

lemma group_members_unchecked:
  "is_boot_persistable (VGroup m [VCapability k i es] fp) \<and> is_replay_safe (VGroup m [VCapability k i es] fp) \<and>
   is_cache_safe (VGroup m [VCapability k i es] fp) \<and> runtime_boundary (VGroup m [VCapability k i es] fp) = BoundaryEffectful"
  by simp

end
