(* ===== verification/Spec2Isabelle.thy ===== *)
theory Spec2Isabelle
  imports Wire Parser_Cursor Parser_Origins Parser_Escape Catalog_Identity Plan_Scope Fidelity Confluence Value_Injective Value_Safety
begin

text \<open>
  Verification of the OSTADIX runtime, the Rust crate \<^verbatim>\<open>crates/ostadix-api\<close>. Paths below are relative to
  \<^verbatim>\<open>crates/ostadix-api/src\<close>.

  \<^bold>\<open>The program.\<close> A document of typed blocks is parsed to a syntax tree with a sidecar of source origins, lowered to
  instructions, and turned into an execution plan: nodes, data and sequence edges, roots. A plan is lowered to an
  operation hypergraph whose operations consume and produce values, completions and versions of resources. The graph
  is validated, and a ready schedule derives the waves in which operations are launched; effects say which operations
  must not run together, dispatch says where each may run. Blocks run in backend processes that are reached over
  length-prefixed CBOR frames; backends, worlds and specifications carry identities that are hashed from canonical
  bytes, and so do the values that cross.

  \<^bold>\<open>Theories.\<close>
  \<^item> \<open>Prelude\<close>, \<open>Rust_Str\<close>: words, byte strings, UTF-8, the \<open>Result\<close> type as a sum with its combinators, and the
    string operations of the standard library.
  \<^item> \<open>Cbor\<close>, \<open>Cbor_Correct\<close>: \<^verbatim>\<open>canonical_cbor.rs\<close>. Encoder, precomputed length, bounded and unbounded decoder with
    their state as the record \<open>decoder\<close>. Round trip, canonicity up to equality of Rust values, exactness of the
    length, limits of bounded decoding. The number type of serde is a parameter \<open>number_api\<close> with \<open>number_laws\<close>.
  \<^item> \<open>Wire\<close>: \<^verbatim>\<open>wire.rs\<close>. Reading frames from a stream that delivers bytes in arbitrary chunks refines a
    specification on bytes; sequences of messages round-trip for every codec of the locale \<open>frame_codec\<close>, which is
    interpreted with the CBOR codec.
  \<^item> \<open>Environment\<close>, \<open>Placement_Digest\<close>, \<open>Catalog\<close>, \<open>Catalog_Identity\<close>: \<^verbatim>\<open>environment.rs\<close>,
    \<^verbatim>\<open>placement/protocol/digest.rs\<close>, \<^verbatim>\<open>backend_catalog.rs\<close> with its compiled rows. The hashed material of a
    specification determines it; the locale \<open>prefix_code\<close> carries the argument field by field. Identities are current
    exactly when the catalog mints them. SHA-256 is a parameter.
  \<^item> \<open>Syntax\<close>, \<open>Parser\<close>, \<open>Parser_Runs\<close>, \<open>Parser_Cursor\<close>, \<open>Parser_Origins\<close>, \<open>Parser_Escape\<close>: \<^verbatim>\<open>parser.rs\<close> and
    \<^verbatim>\<open>syntax_dialect.rs\<close>. The productions are mutually recursive functions with a termination proof on the unread
    source; successful runs are a big-step relation, over which the alignment of the origin sidecar is proved.
    Recording origins changes neither nodes nor errors. \<open>Parser_Escape\<close> shows inputs on which escaping and
    reconstruction lose text, and that an indexed tag name can refuse a document.
  \<^item> \<open>Plan\<close>, \<open>Kahn\<close>, \<open>Plan_Correct\<close>, \<open>Oir\<close>, \<open>Plan_Refs\<close>, \<open>Bash_Scan\<close>, \<open>Plan_Builder\<close>, \<open>Plan_Builder_Correct\<close>,
    \<open>Plan_Scope\<close>: \<^verbatim>\<open>ir.rs\<close>. Lowering, references of block bodies, the builder, validation, topological order and
    index. Every built plan validates; the order is the least-first topological order and fails exactly on cycles; a
    shim receives exactly the visible bindings that its body references.
  \<^item> \<open>World_Identity\<close>: \<^verbatim>\<open>world/identity.rs\<close>. Identities and their currency fences, one locale \<open>fence\<close> interpreted
    for every layer.
  \<^item> \<open>Effects\<close>, \<open>Effects_Correct\<close>, \<open>Dispatch\<close>: \<^verbatim>\<open>effects.rs\<close>, \<^verbatim>\<open>dispatch_model.rs\<close>. Declarations only restrict,
    blocks of one persistent actor always conflict, worker classification meets the effect contract.
  \<^item> \<open>HGraph\<close>, \<open>HGraph_Sequence\<close>, \<open>HGraph_Validate\<close>, \<open>HGraph_Sound\<close>, \<open>HGraph_Frontier\<close>, \<open>From_Oir\<close>:
    \<^verbatim>\<open>hgraph/kinds.rs\<close>, \<^verbatim>\<open>hgraph/graph.rs\<close>, \<^verbatim>\<open>hgraph/from_oir.rs\<close>. Construction, lowering and every validator of
    executable graphs; validated graphs are acyclic and join conflicting operations by dependency paths.
  \<^item> \<open>Waves\<close>, \<open>Ready_Schedule\<close>, \<open>Commutation\<close>, \<open>Confluence\<close>: \<^verbatim>\<open>hgraph/schedule.rs\<close>, \<^verbatim>\<open>hgraph/semantics.rs\<close>. Waves
    exist on validated graphs, launch every operation once after its producers, and keep conflicting operations that no
    autonomous group releases apart; the finite confluence check is exact and sound for every producer-respecting order.
  \<^item> \<open>Fidelity\<close>, \<open>Value\<close>, \<open>Value_Canonical\<close>, \<open>Value_Injective\<close>, \<open>Value_Safety\<close>: \<^verbatim>\<open>value.rs\<close>. Fidelity
    assessments are sets of judgments with exact composition and least merges. Canonical bytes determine a value up to
    a normal form; the base64 codec is a parameter with \<open>b64_law\<close>. The cache, replay and persistence checks are
    exact for the values that they look at, through the locale \<open>value_check\<close>.
  \<^item> This theory: the pipeline from source to a valid plan with one origin per node.

  \<^bold>\<open>Conventions.\<close> A Rust \<open>String\<close> is its list of UTF-8 bytes; hash maps are association lists, ordered maps lists in key
  order or sets where order is not observed; errors are constructors of one type per module and every early return is
  a branch. Where \<open>usize\<close> arithmetic may overflow, \<open>usize_bound\<close> is the address space and checked additions are
  written out; other counters are natural numbers. Three loops have fuel: indegree scheduling of a plan and the waves of
  a schedule take one unit per node, since every turn releases a node that was not released before, and the search for
  reorderable renderers takes one unit per plan node, since every nested call visits a new one. That the fuel suffices
  is proved for each, with the result of the first two and in \<open>verified_reorderable_fuel\<close> for the third. All other
  loops are structural or have a termination proof: the parser by the unread source, parent walks and sequence searches
  by the nodes that are not visited yet.

  \<^bold>\<open>Not modelled.\<close> The evaluator, executor threads, backend processes, timers, files and sockets, since they act on an
  operating system; the serde forms of records, which are derived code; cryptography and archive handling of
  third-party crates; the project, registry, remote, fabric and live-system layers, which are built on those; the
  Ocore compiler, a second language of its own size; rendering for diagnostics and inspection; command line programs
  and applications. Of \<^verbatim>\<open>value.rs\<close> the wire form, the coercions to Rust types and the text forms are left out, of
  \<^verbatim>\<open>hgraph/schedule.rs\<close> the clustering for older callers.
\<close>

section \<open>Properties\<close>

text \<open>C8: From source to plan: when a document is parsed with origins and lowered with the catalog of its
  dialect, its plan validates, has one origin per plan node, and the origin of plan node \<open>i\<close> starts at
  the text of the syntax node whose lowering has the kind of that plan node.\<close>

theorem document_pipeline:
  assumes "parse_with_origins h S (hash_set_dialect tags (cat_specs C)) p = Inr d"
    and "P = plan uni (cat_sha256 C) (lower C (doc_nodes d))"
  shows "validate P (length (doc_nodes d)) = Inr () \<and> length (doc_plan_origins d) = length (nodes P) \<and>
    (i < length (nodes P) \<longrightarrow>
      (\<exists>n. origin_matches S (hash_set_dialect tags (cat_specs C)) n (doc_plan_origins d ! i) \<and>
         node_kind (nodes P ! i) = plan_kind (cat_sha256 C) (lower_node C n)))"
proof -
  let ?D = "hash_set_dialect tags (cat_specs C)"
  let ?ns = "plan_preorders ?D (doc_nodes d)"
  have kinds: "map node_kind (nodes P) = map (plan_kind (cat_sha256 C) \<circ> lower_node C) ?ns"
    using plan_node_kinds [of uni "cat_sha256 C" "lower C (doc_nodes d)"] flatten_lower_nodes [of C "doc_nodes d" tags]
    by (simp add: assms(2))
  have al: "list_all2 (origin_matches S ?D) ?ns (doc_plan_origins d)"
    by (rule document_origins [OF assms(1)])
  have len: "length (nodes P) = length ?ns" using arg_cong [OF kinds, of length] by simp
  have "validate P (length (doc_nodes d)) = Inr ()"
    using plan_validates [of uni "cat_sha256 C" "lower C (doc_nodes d)"] by (simp add: assms(2) lower_def)
  moreover have "length (doc_plan_origins d) = length (nodes P)"
    using al len by (simp add: list_all2_lengthD)
  moreover have "node_kind (nodes P ! i) = plan_kind (cat_sha256 C) (lower_node C (?ns ! i))" if "i < length (nodes P)"
    using arg_cong [OF kinds, of "\<lambda>xs. xs ! i"] that len by simp
  ultimately show ?thesis
    using al len by (auto intro!: exI [of _ "?ns ! i"] dest: list_all2_nthD)
qed

definition empty_catalog :: catalog where
  "empty_catalog = \<lparr>cat_specs = [], cat_profiles = [], cat_sha256 = map char_of_byte\<rparr>"

theorem document_pipeline_witness:
  "\<exists>d. parse_with_origins length ''$ab'' (hash_set_dialect [''py''] (cat_specs empty_catalog)) parser_new = Inr d \<and>
     length (doc_plan_origins d) = 1"
proof -
  let ?D = "hash_set_dialect [''py''] (cat_specs empty_catalog)"
  have "map_sum id doc_nodes (parse_with_origins length ''$ab'' ?D parser_new) = Inr [VarRef ''ab'']"
    by code_simp
  then obtain d where d: "parse_with_origins length ''$ab'' ?D parser_new = Inr d" "doc_nodes d = [VarRef ''ab'']"
    by (cases "parse_with_origins length ''$ab'' ?D parser_new") auto
  have "length (doc_plan_origins d) =
      length (nodes (plan (\<lambda>_. False) (cat_sha256 empty_catalog) (lower empty_catalog (doc_nodes d))))"
    using document_pipeline [OF d(1) refl] by blast
  moreover have "length (nodes (plan (\<lambda>_. False) (cat_sha256 empty_catalog) (lower empty_catalog [VarRef ''ab'']))) = 1"
    by code_simp
  ultimately show ?thesis using d by auto
qed

end
